(* ===== verification/JS_Prelude.thy ===== *)
theory JS_Prelude
  imports Complex_Main "HOL-Library.AList"
begin

text \<open>
  Shared vocabulary of the development: the parts of the JavaScript language and of its
  standard library that the modelled TypeScript sources use, and the lemmas about them that
  several components need.

  \<^item> Strings are lists of code units (\<^typ>\<open>string\<close>), restricted to the Latin-1 range;
    white space (\<open>\s\<close>, \<open>String.prototype.trim\<close>), word characters (\<open>\w\<close>), line
    terminators and \<open>toLowerCase\<close> are exact on that range.
  \<^item> Numbers are exact: \<^typ>\<open>nat\<close> or \<^typ>\<open>int\<close> for counters, indices and times,
    \<^typ>\<open>rat\<close> for scores, \<^typ>\<open>real\<close> for embeddings (whose norm takes a square root).
    The rounding error of binary floating point is not modelled; \<open>NaN\<close> is, as \<^const>\<open>None\<close>,
    where a source divides by a value that can be zero.
  \<^item> A JavaScript \<open>Map\<close> iterates in insertion order and keeps the place of a key that is
    set again: the association lists of \<open>HOL-Library.AList\<close> do exactly that.
  \<^item> \<open>Array.prototype.sort\<close> is stable, as \<^const>\<open>sort_key\<close> is.
\<close>

named_theorems js_simps \<open>evaluation of the JavaScript string and array operations\<close>
named_theorems js_length \<open>lengths of the results of the JavaScript operations\<close>


section \<open>Characters\<close>

definition is_ws :: "char \<Rightarrow> bool" where
  "is_ws c \<longleftrightarrow> c = CHR 0x09 \<or> c = CHR 0x0A \<or> c = CHR 0x0B \<or> c = CHR 0x0C \<or> c = CHR 0x0D
     \<or> c = CHR '' '' \<or> c = CHR 0xA0"

definition is_line_term :: "char \<Rightarrow> bool" where
  "is_line_term c \<longleftrightarrow> c = CHR 0x0A \<or> c = CHR 0x0D"

definition char_code :: "char \<Rightarrow> nat" where
  "char_code c = of_char c"

definition is_digit :: "char \<Rightarrow> bool" where
  "is_digit c \<longleftrightarrow> 48 \<le> char_code c \<and> char_code c \<le> 57"

definition is_upper_az :: "char \<Rightarrow> bool" where
  "is_upper_az c \<longleftrightarrow> 65 \<le> char_code c \<and> char_code c \<le> 90"

definition is_lower_az :: "char \<Rightarrow> bool" where
  "is_lower_az c \<longleftrightarrow> 97 \<le> char_code c \<and> char_code c \<le> 122"

definition is_word :: "char \<Rightarrow> bool" where
  "is_word c \<longleftrightarrow> is_digit c \<or> is_upper_az c \<or> is_lower_az c \<or> c = CHR ''_''"

definition lower_char :: "char \<Rightarrow> char" where
  "lower_char c =
     (if is_upper_az c \<or> (192 \<le> char_code c \<and> char_code c \<le> 222 \<and> char_code c \<noteq> 215)
      then char_of (char_code c + 32) else c)"

lemmas char_class_defs [js_simps] =
  is_ws_def is_line_term_def char_code_def is_digit_def is_upper_az_def is_lower_az_def
  is_word_def lower_char_def

lemma ws_not_word: "is_ws c \<Longrightarrow> \<not> is_word c"
  by (auto simp: js_simps)

lemma word_not_ws: "is_word c \<Longrightarrow> \<not> is_ws c"
  using ws_not_word by blast

lemma punct_class [simp]:
  "is_ws (CHR '' '')" "\<not> is_word (CHR '' '')" "is_ws (CHR 0x0A)" "\<not> is_word (CHR 0x0A)"
  "\<not> is_ws (CHR ''{'')" "\<not> is_word (CHR ''{'')" "\<not> is_ws (CHR ''}'')" "\<not> is_word (CHR ''}'')"
  "\<not> is_ws (CHR ''('')" "\<not> is_word (CHR ''('')" "\<not> is_ws (CHR '')'')" "\<not> is_word (CHR '')'')"
  "\<not> is_ws (CHR '':'')" "\<not> is_word (CHR '':'')" "\<not> is_ws (CHR ''@'')" "\<not> is_word (CHR ''@'')"
  by (simp_all add: js_simps)

lemma char_code_char_of: "n < 256 \<Longrightarrow> char_code (char_of n) = n"
  by (simp add: char_code_def)

lemma lower_char_word: "is_word c \<Longrightarrow> is_word (lower_char c)"
proof (cases "is_upper_az c")
  case True
  then have "char_code (lower_char c) = char_code c + 32"
    by (simp add: lower_char_def is_upper_az_def char_code_char_of)
  with True show ?thesis by (simp add: is_word_def is_lower_az_def is_upper_az_def)
next
  case False
  assume w: "is_word c"
  have "char_code (CHR ''_'') = 95" by (simp add: char_code_def)
  with w False have "char_code c < 192"
    by (auto simp: is_word_def is_digit_def is_lower_az_def)
  with False w show ?thesis by (simp add: lower_char_def)
qed

lemma line_term_ws: "is_line_term c \<Longrightarrow> is_ws c"
  by (auto simp: is_line_term_def is_ws_def)


section \<open>Optional values\<close>

text \<open>\<open>x ?? d\<close>, and the default of a destructured option.\<close>

definition or_default :: "'a option \<Rightarrow> 'a \<Rightarrow> 'a" where
  "or_default x d = (case x of None \<Rightarrow> d | Some y \<Rightarrow> y)"

text \<open>A string that is present and not empty.\<close>

definition present :: "string option \<Rightarrow> bool" where
  "present x \<longleftrightarrow> (case x of None \<Rightarrow> False | Some s \<Rightarrow> s \<noteq> [])"

section \<open>Strings\<close>

definition nl :: string where
  "nl = [CHR 0x0A]"

definition trim :: "string \<Rightarrow> string" where
  "trim s = rev (dropWhile is_ws (rev (dropWhile is_ws s)))"

definition toLowerCase :: "string \<Rightarrow> string" where
  "toLowerCase s = map lower_char s"

definition startsWith :: "string \<Rightarrow> string \<Rightarrow> bool" where
  "startsWith s p \<longleftrightarrow> take (length p) s = p"

definition endsWith :: "string \<Rightarrow> string \<Rightarrow> bool" where
  "endsWith s p \<longleftrightarrow> startsWith (rev s) (rev p)"

fun str_includes :: "string \<Rightarrow> string \<Rightarrow> bool" where
  "str_includes [] p \<longleftrightarrow> p = []"
| "str_includes (c # s) p \<longleftrightarrow> startsWith (c # s) p \<or> str_includes s p"

text \<open>\<open>s.lastIndexOf(p, from)\<close>: the largest index up to \<open>from\<close> where \<open>p\<close> occurs, or \<open>-1\<close>.\<close>

fun lastIndexOf :: "string \<Rightarrow> string \<Rightarrow> nat \<Rightarrow> int" where
  "lastIndexOf s p 0 = (if startsWith s p then 0 else -1)"
| "lastIndexOf s p (Suc k) =
     (if Suc k + length p \<le> length s \<and> startsWith (drop (Suc k) s) p then int (Suc k)
      else lastIndexOf s p k)"

definition slice :: "'a list \<Rightarrow> nat \<Rightarrow> nat \<Rightarrow> 'a list" where
  "slice s i j = take (j - i) (drop i s)"

fun join :: "string \<Rightarrow> string list \<Rightarrow> string" where
  "join sep [] = []"
| "join sep [x] = x"
| "join sep (x # y # zs) = x @ sep @ join sep (y # zs)"

text \<open>\<open>s.split(c)\<close> for a one-character separator: never empty, one more part than separators.\<close>

fun split_char :: "char \<Rightarrow> string \<Rightarrow> string list" where
  "split_char c [] = [[]]"
| "split_char c (x # xs) =
     (if x = c then [] # split_char c xs
      else (case split_char c xs of [] \<Rightarrow> [[x]] | p # ps \<Rightarrow> (x # p) # ps))"

text \<open>\<open>s.split(/\s+/)\<close>: a run of white space is one separator, also at either end.\<close>

function split_ws :: "string \<Rightarrow> string list" where
  "split_ws [] = [[]]"
| "split_ws (x # xs) =
     (if is_ws x then [] # split_ws (dropWhile is_ws xs)
      else (case split_ws xs of [] \<Rightarrow> [[x]] | p # ps \<Rightarrow> (x # p) # ps))"
  by pat_completeness auto
termination
  by (relation "measure length") (auto simp: le_imp_less_Suc length_dropWhile_le)

text \<open>\<open>s.replace(/\s+/g, ' ')\<close>.\<close>

function collapse_ws :: "string \<Rightarrow> string" where
  "collapse_ws [] = []"
| "collapse_ws (x # xs) =
     (if is_ws x then CHR '' '' # collapse_ws (dropWhile is_ws xs) else x # collapse_ws xs)"
  by pat_completeness auto
termination
  by (relation "measure length") (auto simp: le_imp_less_Suc length_dropWhile_le)

text \<open>\<open>s.replace(p, r)\<close> for a string pattern: the first occurrence only.\<close>

fun replace_first :: "string \<Rightarrow> string \<Rightarrow> string \<Rightarrow> string" where
  "replace_first [] p r = (if p = [] then r else [])"
| "replace_first (c # s) p r =
     (if startsWith (c # s) p then r @ drop (length p) (c # s) else c # replace_first s p r)"

text \<open>Decimal numerals, as a template literal prints a non-negative integer.\<close>

fun show_nat :: "nat \<Rightarrow> string" where
  "show_nat n = (if n < 10 then [char_of (48 + n)] else show_nat (n div 10) @ [char_of (48 + n mod 10)])"

declare show_nat.simps [simp del]

definition show_int :: "int \<Rightarrow> string" where
  "show_int i = (if i < 0 then CHR ''-'' # show_nat (nat (- i)) else show_nat (nat i))"


section \<open>Numbers and arrays\<close>

text \<open>\<open>Math.round\<close>: to the nearest integer, halves towards plus infinity.\<close>

definition js_round :: "rat \<Rightarrow> int" where
  "js_round x = \<lfloor>x + 1/2\<rfloor>"

text \<open>Division of JavaScript numbers where the divisor can be zero and the dividend is then zero too.\<close>

definition js_div :: "rat \<Rightarrow> rat \<Rightarrow> rat option" where
  "js_div a b = (if b = 0 then None else Some (a / b))"

text \<open>\<open>xs.sort((a, b) => f(b) - f(a))\<close>.\<close>

definition sort_desc :: "('a \<Rightarrow> 'b::linordered_ab_group_add) \<Rightarrow> 'a list \<Rightarrow> 'a list" where
  "sort_desc f xs = sort_key (\<lambda>x. - f x) xs"

text \<open>\<open>Array.from(new Set(xs))\<close>: the first occurrence of every element, in order.\<close>

fun set_values :: "'a list \<Rightarrow> 'a list" where
  "set_values [] = []"
| "set_values (x # xs) = x # set_values (filter (\<lambda>y. y \<noteq> x) xs)"


section \<open>Lemmas on strings\<close>

lemma length_trim [js_length]: "length (trim s) \<le> length s"
proof -
  have "length (trim s) \<le> length (rev (dropWhile is_ws s))"
    unfolding trim_def length_rev [of "dropWhile is_ws (rev (dropWhile is_ws s))"]
    by (rule length_dropWhile_le)
  also have "\<dots> \<le> length s" by (simp add: length_dropWhile_le)
  finally show ?thesis .
qed

lemma trim_eq_Nil_iff: "trim s = [] \<longleftrightarrow> (\<forall>c \<in> set s. is_ws c)"
proof -
  have "trim s = [] \<longleftrightarrow> (\<forall>c \<in> set (dropWhile is_ws s). is_ws c)"
    by (simp add: trim_def)
  also have "\<dots> \<longleftrightarrow> (\<forall>c \<in> set s. is_ws c)"
    by (induction s) auto
  finally show ?thesis .
qed

lemma set_trim: "set (trim s) \<subseteq> set s"
  by (auto simp: trim_def dest!: set_dropWhileD)

lemma non_ws_in_trim: "c \<in> set s \<Longrightarrow> \<not> is_ws c \<Longrightarrow> c \<in> set (trim s)"
proof -
  assume c: "c \<in> set s" "\<not> is_ws c"
  have keep: "c \<in> set (dropWhile is_ws t)" if "c \<in> set t" for t
    using that c(2) by (induction t) auto
  show ?thesis using keep[of s] keep[of "rev (dropWhile is_ws s)"] c(1) by (simp add: trim_def)
qed

lemma trim_trim_ne: "trim s \<noteq> [] \<Longrightarrow> trim (trim s) \<noteq> []"
  using non_ws_in_trim unfolding trim_eq_Nil_iff by blast

lemma length_slice [js_length]: "length (slice s i j) = min (j - i) (length s - i)"
  by (simp add: slice_def)

lemma nth_slice: "i + k < j \<Longrightarrow> j \<le> length s \<Longrightarrow> slice s i j ! k = s ! (i + k)"
  by (simp add: slice_def)

lemma slice_mem: "i \<le> k \<Longrightarrow> k < j \<Longrightarrow> j \<le> length s \<Longrightarrow> s ! k \<in> set (slice s i j)"
  unfolding in_set_conv_nth
  by (rule exI [of _ "k - i"]) (simp add: nth_slice length_slice)

lemma startsWith_simps [simp, js_simps]:
  "startsWith s []" "startsWith [] (c # p) = False"
  "startsWith (x # s) (c # p) \<longleftrightarrow> x = c \<and> startsWith s p"
  by (auto simp: startsWith_def)

lemma startsWith_single: "startsWith s [c] \<longleftrightarrow> (\<exists>t. s = c # t)"
  by (cases s) auto

lemma startsWith_append [simp]: "startsWith (p @ s) p"
  by (simp add: startsWith_def)

lemma lastIndexOf_le: "lastIndexOf s p k \<le> int k"
proof (induction k)
  case (Suc k)
  then show ?case by (cases "lastIndexOf s p (Suc k) = int (Suc k)") (auto split: if_splits)
qed simp

lemma startsWith_length: "startsWith s p \<Longrightarrow> length p \<le> length s"
  unfolding startsWith_def by (metis length_take min.cobounded1)

lemma lastIndexOf_bound: "0 \<le> lastIndexOf s p k \<Longrightarrow> nat (lastIndexOf s p k) + length p \<le> length s"
  by (induction k) (auto simp: startsWith_length split: if_splits)

lemma lastIndexOf_occurs:
  "0 \<le> lastIndexOf s p k \<Longrightarrow> startsWith (drop (nat (lastIndexOf s p k)) s) p"
  by (induction k) (auto simp: nat_add_distrib split: if_splits)

lemma split_char_ne [simp]: "split_char c s \<noteq> []"
  by (induction s) (auto split: list.splits)

lemma join_split_char: "join [c] (split_char c s) = s"
proof (induction s)
  case (Cons x xs)
  then show ?case
    by (cases "split_char c xs"; cases "tl (split_char c xs)") auto
qed simp

lemma split_ws_ne [simp]: "split_ws s \<noteq> []"
  by (induction s rule: split_ws.induct) (auto split: list.splits)

lemma toLowerCase_append: "toLowerCase (a @ b) = toLowerCase a @ toLowerCase b"
  by (simp add: toLowerCase_def)

lemma show_nat_digits: "list_all is_digit (show_nat n)"
proof (induction n rule: show_nat.induct)
  case (1 n)
  have d: "is_digit (char_of (48 + m))" if "m < 10" for m :: nat
    using that by (simp add: is_digit_def char_code_char_of)
  show ?case
  proof (cases "n < 10")
    case True
    then show ?thesis using d by (simp add: show_nat.simps [of n])
  next
    case False
    then show ?thesis using 1 d [of "n mod 10"] by (simp add: show_nat.simps [of n])
  qed
qed

lemma show_nat_ne [simp]: "show_nat n \<noteq> []" "[] \<noteq> show_nat n"
  by (simp_all add: show_nat.simps [of n])

lemma show_nat_inj: "show_nat m = show_nat n \<Longrightarrow> m = n"
proof (induction m arbitrary: n rule: show_nat.induct)
  case (1 m)
  have digit: "char_of (48 + i) = char_of (48 + j) \<Longrightarrow> i < 10 \<Longrightarrow> j < 10 \<Longrightarrow> i = j" for i j :: nat
    using char_code_char_of [of "48 + i"] char_code_char_of [of "48 + j"] by simp
  show ?case
  proof (cases "m < 10")
    case m: True
    then have "n < 10" using "1.prems" by (simp add: show_nat.simps [of m] show_nat.simps [of n] split: if_splits)
    with m "1.prems" digit [of m n] show ?thesis by (simp add: show_nat.simps [of m] show_nat.simps [of n])
  next
    case m: False
    then have n: "\<not> n < 10" using "1.prems" by (auto simp: show_nat.simps [of m] show_nat.simps [of n] split: if_splits)
    with m "1.prems" have "show_nat (m div 10) = show_nat (n div 10)" "m mod 10 = n mod 10"
      using digit [of "m mod 10" "n mod 10"] by (simp_all add: show_nat.simps [of m] show_nat.simps [of n])
    then show ?thesis using "1.IH" [OF m] by (metis mod_div_decomp)
  qed
qed

lemma take_digits_show_nat:
  "r = [] \<or> \<not> is_digit (hd r) \<Longrightarrow> takeWhile is_digit (show_nat n @ r) = show_nat n"
proof -
  assume r: "r = [] \<or> \<not> is_digit (hd r)"
  then have "takeWhile is_digit r = []" by (cases r) simp_all
  moreover have "takeWhile is_digit (show_nat n @ r) = show_nat n @ takeWhile is_digit r"
    by (rule takeWhile_append2) (use show_nat_digits [of n] in \<open>simp add: list_all_iff\<close>)
  ultimately show ?thesis by simp
qed

lemma inj_show_nat: "inj show_nat"
  by (rule injI) (rule show_nat_inj)

text \<open>A concatenation has distinct labels when every part has and a label tells its part.\<close>

lemma distinct_concat_keyed:
  assumes "\<And>x. x \<in> set xs \<Longrightarrow> distinct (map g (f x))"
    and "\<And>x y. x \<in> set xs \<Longrightarrow> y \<in> set (f x) \<Longrightarrow> key (g y) = h x"
    and "distinct (map h xs)"
  shows "distinct (map g (concat (map f xs)))"
  using assms
proof (induction xs)
  case (Cons x xs)
  have later: "key (g y) \<in> h ` set xs" if y: "y \<in> set (concat (map f xs))" for y
  proof -
    from y obtain x' where "x' \<in> set xs" "y \<in> set (f x')" by auto
    then show ?thesis using Cons.prems(2) [of x' y] by simp
  qed
  have "g y \<noteq> g z" if "y \<in> set (f x)" "z \<in> set (concat (map f xs))" for y z
  proof
    assume eq: "g y = g z"
    have "key (g y) = h x" using Cons.prems(2) [of x y] that(1) by simp
    with later [OF that(2)] eq have "h x \<in> h ` set xs" by simp
    then show False using Cons.prems(3) by simp
  qed
  then have "g ` set (f x) \<inter> g ` set (concat (map f xs)) = {}" by blast
  moreover have "distinct (map g (concat (map f xs)))"
  proof (rule Cons.IH)
    show "distinct (map g (f x'))" if "x' \<in> set xs" for x' using Cons.prems(1) that by simp
    show "key (g y) = h x'" if "x' \<in> set xs" "y \<in> set (f x')" for x' y using Cons.prems(2) [of x' y] that by simp
    show "distinct (map h xs)" using Cons.prems(3) by simp
  qed
  moreover have "distinct (map g (f x))" using Cons.prems(1) [of x] by simp
  ultimately show ?case unfolding list.map(2) concat.simps(2) map_append distinct_append set_map by blast
qed simp

lemma set_join: "set (join sep xs) \<subseteq> set sep \<union> (\<Union>x \<in> set xs. set x)"
  by (induction sep xs rule: join.induct) auto

lemma includes_mem: "str_includes s p \<Longrightarrow> set p \<subseteq> set s"
proof (induction s p rule: str_includes.induct)
  case (2 c s p)
  then show ?case
    using set_take_subset [of "length p" "c # s"] by (auto simp: startsWith_def)
qed simp



section \<open>Lemmas on numbers and arrays\<close>

lemma set_set_values [simp]: "set (set_values xs) = set xs"
  by (induction xs rule: set_values.induct) auto

lemma set_values_eq_Nil [simp]: "set_values xs = [] \<longleftrightarrow> xs = []"
  by (cases xs) auto

lemma distinct_set_values [simp]: "distinct (set_values xs)"
  by (induction xs rule: set_values.induct) auto

lemma length_set_values [js_length]: "length (set_values xs) = card (set xs)"
  by (metis distinct_card distinct_set_values set_set_values)

lemma length_filter_set_values [js_length]:
  "length (filter P (set_values xs)) = card {x \<in> set xs. P x}"
  by (metis distinct_card distinct_filter distinct_set_values set_filter set_set_values)

lemma js_round_of_int [simp]: "js_round (of_int i) = i"
  by (simp add: js_round_def floor_eq_iff)

lemma js_round_of_nat [simp]: "js_round (of_nat n) = int n"
  using js_round_of_int [of "int n"] by simp

lemma js_round_mono: "x \<le> y \<Longrightarrow> js_round x \<le> js_round y"
  by (simp add: js_round_def floor_mono)

lemma js_round_nonneg: "0 \<le> x \<Longrightarrow> 0 \<le> js_round x"
  by (simp add: js_round_def)

text \<open>The share of common elements of two arrays taken as sets (Jaccard index).\<close>

lemma jaccard_bounds:
  assumes "finite A" "finite B" "A \<union> B \<noteq> {}"
  shows "0 \<le> (of_nat (card {x \<in> A. x \<in> B}) / of_nat (card (A \<union> B)) :: rat)"
    and "(of_nat (card {x \<in> A. x \<in> B}) / of_nat (card (A \<union> B)) :: rat) \<le> 1"
proof -
  have "card {x \<in> A. x \<in> B} \<le> card (A \<union> B)"
    using assms by (intro card_mono) auto
  moreover have "0 < card (A \<union> B)" using assms by (simp add: card_gt_0_iff)
  ultimately show "(of_nat (card {x \<in> A. x \<in> B}) / of_nat (card (A \<union> B)) :: rat) \<le> 1"
    by (simp add: divide_le_eq_1)
qed simp

section \<open>Lemmas on sorting\<close>

lemma set_sort_desc [simp]: "set (sort_desc f xs) = set xs"
  by (simp add: sort_desc_def)

lemma length_sort_desc [simp, js_length]: "length (sort_desc f xs) = length xs"
  by (simp add: sort_desc_def)

lemma distinct_sort_desc [simp]: "distinct (sort_desc f xs) = distinct xs"
  by (simp add: sort_desc_def)

lemma sorted_sort_desc: "sorted_wrt (\<lambda>x y. f y \<le> f x) (sort_desc f xs)"
proof -
  have "sorted (map (\<lambda>x. - f x) (sort_key (\<lambda>x. - f x) xs))" by simp
  then show ?thesis unfolding sort_desc_def sorted_map by simp
qed

text \<open>Taking the first \<open>k\<close> of a descending sort keeps the best: nothing dropped beats anything kept.\<close>

lemma take_sort_desc_best:
  assumes "x \<in> set (take k (sort_desc f xs))" "y \<in> set (drop k (sort_desc f xs))"
  shows "f y \<le> f x"
  using sorted_sort_desc [of f xs] assms
    sorted_wrt_append [of "\<lambda>x y. f y \<le> f x" "take k (sort_desc f xs)" "drop k (sort_desc f xs)"]
  by simp

lemma in_take_or_drop: "x \<in> set xs \<Longrightarrow> x \<in> set (take k xs) \<or> x \<in> set (drop k xs)"
  using append_take_drop_id [of k xs] by (metis Un_iff set_append)

text \<open>The first \<open>k\<close> of a descending sort: an element is among them, or \<open>k\<close> others are at least as good.\<close>

lemma top_k_cover:
  assumes "x \<in> set xs"
  shows "x \<in> set (take k (sort_desc f xs))
    \<or> (length (take k (sort_desc f xs)) = k \<and> (\<forall>y \<in> set (take k (sort_desc f xs)). f x \<le> f y))"
proof -
  from assms have "x \<in> set (sort_desc f xs)" by simp
  then consider "x \<in> set (take k (sort_desc f xs))" | "x \<in> set (drop k (sort_desc f xs))"
    using in_take_or_drop by fast
  then show ?thesis
  proof cases
    case 2
    then have "drop k (sort_desc f xs) \<noteq> []" by (metis empty_iff empty_set)
    then have "length (take k (sort_desc f xs)) = k" by simp
    moreover have "f x \<le> f y" if "y \<in> set (take k (sort_desc f xs))" for y
      using take_sort_desc_best [OF that 2] .
    ultimately show ?thesis by blast
  qed simp
qed

lemma top_k_subset: "set (take k (sort_desc f xs)) \<subseteq> set xs"
  by (metis set_sort_desc set_take_subset)

lemma sort_key_sorted_id: "sorted (map g xs) \<Longrightarrow> sort_key g xs = xs"
  by (induction xs) (auto simp: insort_is_Cons)

lemma sort_desc_sorted_id: "sorted_wrt (\<lambda>x y. f y \<le> f x) xs \<Longrightarrow> sort_desc f xs = xs"
  unfolding sort_desc_def by (rule sort_key_sorted_id) (simp add: sorted_map)

lemma sort_key_map: "sort_key f (map g xs) = map g (sort_key (\<lambda>x. f (g x)) xs)"
proof (induction xs)
  case (Cons x xs)
  have "insort_key f (g x) (map g ys) = map g (insort_key (\<lambda>x. f (g x)) x ys)" for ys
    by (induction ys) auto
  with Cons show ?case by simp
qed simp

lemma sort_desc_map: "sort_desc f (map g xs) = map g (sort_desc (\<lambda>x. f (g x)) xs)"
  unfolding sort_desc_def by (rule sort_key_map)

text \<open>In a descending list the elements above a threshold are a prefix.\<close>

lemma filter_desc_takeWhile:
  fixes f :: "'a \<Rightarrow> 'b::linorder"
  shows
  "sorted_wrt (\<lambda>x y. f y \<le> f x) xs \<Longrightarrow> filter (\<lambda>x. t \<le> f x) xs = takeWhile (\<lambda>x. t \<le> f x) xs"
proof (induction xs)
  case (Cons a xs)
  have "filter (\<lambda>x. t \<le> f x) xs = []" if "\<not> t \<le> f a"
    unfolding filter_empty_conv using that Cons.prems by fastforce
  with Cons show ?case by auto
qed simp

lemma take_filter_desc:
  fixes f :: "'a \<Rightarrow> 'b::linorder"
  assumes "sorted_wrt (\<lambda>x y. f y \<le> f x) xs" "n \<le> m"
  shows "take n (filter (\<lambda>x. t \<le> f x) (take m xs)) = take n (filter (\<lambda>x. t \<le> f x) xs)"
proof -
  have "sorted_wrt (\<lambda>x y. f y \<le> f x) (take m xs)"
    using assms(1) by (rule sorted_wrt_take)
  then have "filter (\<lambda>x. t \<le> f x) (take m xs) = takeWhile (\<lambda>x. t \<le> f x) (take m xs)"
    by (rule filter_desc_takeWhile)
  also have "\<dots> = take m (takeWhile (\<lambda>x. t \<le> f x) xs)"
    by (induction xs arbitrary: m) (auto simp: take_Cons' split: nat.splits)
  finally show ?thesis using assms(2) by (simp add: filter_desc_takeWhile [OF assms(1)] min_absorb1)
qed

lemma update_fresh: "k \<notin> fst ` set al \<Longrightarrow> AList.update k v al = al @ [(k, v)]"
  by (induction al) auto

end
