(* ===== verification/Query_Analyzer.thy ===== *)
theory Query_Analyzer
  imports JS_Prelude
begin

text \<open>
  \<open>graphq-llm/src/services/query-analyzer.ts\<close>: the structural analysis of a GraphQL query
  string. The three regular expressions of the class are translated as the scans a
  backtracking matcher performs; their character classes are disjoint, so a greedy choice is
  never taken back. The lemmas show what the analysis really measures: the field list is the
  list of argument-free selections that open a brace, the depth is 0 or 1, and the complexity
  level depends on the number of fields alone.
\<close>

section \<open>Data\<close>

datatype level = Low | Medium | High

datatype operation = Op_query | Op_mutation | Op_subscription | Op_unknown

datatype opportunity_type = Field_selection | Nested_depth | Filtering | Pagination | Caching

record OptimizationOpportunity =
  opp_type :: opportunity_type
  opp_description :: string
  opp_severity :: level
  opp_suggestion :: "string option"

record ParsedQuery =
  pq_operation :: operation
  pq_fields :: "string list"
  pq_nested :: bool

record ResourceEstimate =
  re_executionTime :: int
  re_memoryUsage :: string

record QueryAnalysis =
  qa_query :: string
  qa_complexity :: level
  qa_fieldCount :: nat
  qa_depth :: nat
  qa_opportunities :: "OptimizationOpportunity list"
  qa_estimatedResourceUsage :: "ResourceEstimate option"


section \<open>Parsing\<close>

text \<open>One attempt of \<open>/\w+\s*\{/\<close> at the start of a string: the match and what follows it.\<close>

definition field_match_at :: "string \<Rightarrow> (string \<times> string) option" where
  "field_match_at s =
     (let w = takeWhile is_word s; r = dropWhile is_word s;
          b = takeWhile is_ws r; r' = dropWhile is_ws r
      in if w \<noteq> [] \<and> startsWith r' ''{'' then Some (w @ b @ ''{'', tl r') else None)"

lemma field_match_at_shorter: "field_match_at s = Some (m, r) \<Longrightarrow> length r < length s"
proof -
  assume "field_match_at s = Some (m, r)"
  then have r: "r = tl (dropWhile is_ws (dropWhile is_word s))"
    and ne: "dropWhile is_ws (dropWhile is_word s) \<noteq> []"
    unfolding field_match_at_def Let_def startsWith_single
    by (force split: if_splits)+
  have "length (dropWhile is_ws (dropWhile is_word s)) \<le> length s"
    using length_dropWhile_le order_trans by blast
  with r ne show ?thesis
    by (metis diff_less length_greater_0_conv length_tl less_le_trans zero_less_one)
qed

text \<open>\<open>query.match(/\w+\s*\{/g) || []\<close>.\<close>

function field_matches :: "string \<Rightarrow> string list" where
  "field_matches s =
     (case s of [] \<Rightarrow> []
      | c # cs \<Rightarrow> (case field_match_at s of
            None \<Rightarrow> field_matches cs
          | Some (m, r) \<Rightarrow> m # field_matches r))"
  by pat_completeness auto
termination
  by (relation "measure length") (auto dest: field_match_at_shorter)

declare field_matches.simps [simp del]

text \<open>\<open>m.replace(/\s*\{/, '')\<close>: the leftmost brace with the white space before it is removed.\<close>

fun remove_ws_brace :: "string \<Rightarrow> string" where
  "remove_ws_brace [] = []"
| "remove_ws_brace (c # cs) =
     (let r = dropWhile is_ws (c # cs)
      in if startsWith r ''{'' then tl r else c # remove_ws_brace cs)"

definition count_braces :: "string \<Rightarrow> nat" where
  "count_braces s = length (filter (\<lambda>c. c = CHR ''{'') s)"

definition parseQuery :: "string \<Rightarrow> ParsedQuery" where
  "parseQuery q =
     (let trimmed = trim q
      in \<lparr>pq_operation =
            (if startsWith trimmed ''query'' \<or> startsWith trimmed ''{'' then Op_query
             else if startsWith trimmed ''mutation'' then Op_mutation
             else if startsWith trimmed ''subscription'' then Op_subscription
             else Op_unknown),
          pq_fields = map (\<lambda>m. trim (remove_ws_brace m)) (field_matches q),
          pq_nested = (count_braces q > 2)\<rparr>)"

definition countFields :: "ParsedQuery \<Rightarrow> nat" where
  "countFields p = length (pq_fields p)"

definition calculateDepth :: "ParsedQuery \<Rightarrow> nat" where
  "calculateDepth p =
     (if \<not> pq_nested p then 1
      else min (count_braces (join '' '' (pq_fields p))) 5)"

definition assessComplexity :: "nat \<Rightarrow> nat \<Rightarrow> level" where
  "assessComplexity fieldCount depth =
     (let score = of_nat fieldCount * (1/2) + of_nat depth * 2 :: rat
      in if score < 5 then Low else if score < 15 then Medium else High)"


section \<open>Opportunities\<close>

text \<open>\<open>/\([^)]*\)/.test(s)\<close>.\<close>

fun has_paren_group :: "string \<Rightarrow> bool" where
  "has_paren_group [] = False"
| "has_paren_group (c # cs) = ((c = CHR ''('' \<and> CHR '')'' \<in> set cs) \<or> has_paren_group cs)"

definition includes_any :: "string list \<Rightarrow> string \<Rightarrow> bool" where
  "includes_any ps s = list_ex (str_includes s) ps"

definition hasFilters :: "string list \<Rightarrow> bool" where
  "hasFilters fs =
     (let queryString = join '' '' fs
      in has_paren_group queryString
         \<or> includes_any [''where'', ''filter'', ''id:'', ''limit'', ''offset'']
             (toLowerCase queryString))"

definition hasPagination :: "string list \<Rightarrow> bool" where
  "hasPagination fs =
     includes_any [''limit'', ''offset'', ''first'', ''last'', ''after'', ''before'']
       (toLowerCase (join '' '' fs))"

definition hasCacheDirectives :: "string list \<Rightarrow> bool" where
  "hasCacheDirectives fs = includes_any [''@cache'', ''@cached''] (join '' '' fs)"

definition identifyOpportunities :: "ParsedQuery \<Rightarrow> nat \<Rightarrow> nat \<Rightarrow> OptimizationOpportunity list" where
  "identifyOpportunities p fieldCount depth =
     (if fieldCount > 10 then
        [\<lparr>opp_type = Field_selection,
          opp_description = ''Query selects '' @ show_nat fieldCount @ '' fields. Consider selecting only needed fields.'',
          opp_severity = (if fieldCount > 20 then High else Medium),
          opp_suggestion = Some ''Use field selection to fetch only required data''\<rparr>] else [])
   @ (if depth > 3 then
        [\<lparr>opp_type = Nested_depth,
          opp_description = ''Query has depth of '' @ show_nat depth @ ''. Deep nesting can impact performance.'',
          opp_severity = (if depth > 4 then High else Medium),
          opp_suggestion = Some ''Consider flattening the query structure or using separate queries''\<rparr>] else [])
   @ (if pq_operation p = Op_query \<and> \<not> hasFilters (pq_fields p) then
        [\<lparr>opp_type = Filtering,
          opp_description = ''Query lacks filtering. Consider adding filters to reduce result size.'',
          opp_severity = Low,
          opp_suggestion = Some ''Add WHERE clauses or filters to limit results''\<rparr>] else [])
   @ (if fieldCount > 5 \<and> \<not> hasPagination (pq_fields p) then
        [\<lparr>opp_type = Pagination,
          opp_description = ''Large query without pagination. May return excessive data.'',
          opp_severity = Medium,
          opp_suggestion = Some ''Implement pagination with limit/offset or cursor-based pagination''\<rparr>] else [])
   @ (if pq_operation p = Op_query \<and> \<not> hasCacheDirectives (pq_fields p) then
        [\<lparr>opp_type = Caching,
          opp_description = ''Query may benefit from caching.'',
          opp_severity = Low,
          opp_suggestion = Some ''Consider adding cache directives for frequently accessed data''\<rparr>] else [])"

definition analyzer_estimateResourceUsage :: "level \<Rightarrow> nat \<Rightarrow> nat \<Rightarrow> ResourceEstimate" where
  "analyzer_estimateResourceUsage complexity fieldCount depth =
     (let t0 = 50 + of_nat fieldCount * 5 + of_nat depth * 20 :: rat;
          t1 = (if complexity = Medium then t0 * (3/2) else t0);
          t2 = (if complexity = High then t1 * 3 else t1)
      in \<lparr>re_executionTime = js_round t2,
          re_memoryUsage = (if complexity = Low then ''< 10MB''
                            else if complexity = Medium then ''10-50MB'' else ''> 50MB'')\<rparr>)"

definition analyze :: "string \<Rightarrow> QueryAnalysis" where
  "analyze q =
     (let parsed = parseQuery q;
          fieldCount = countFields parsed;
          depth = calculateDepth parsed;
          complexity = assessComplexity fieldCount depth
      in \<lparr>qa_query = q, qa_complexity = complexity, qa_fieldCount = fieldCount, qa_depth = depth,
          qa_opportunities = identifyOpportunities parsed fieldCount depth,
          qa_estimatedResourceUsage =
            Some (analyzer_estimateResourceUsage complexity fieldCount depth)\<rparr>)"


section \<open>Comparing two queries\<close>

text \<open>\<open>q.match(/\w+(?=\s*\{|\s*\(|\s*:)/g) || []\<close>: the lookahead is not consumed.\<close>

definition lookahead_ok :: "string \<Rightarrow> bool" where
  "lookahead_ok r =
     (let r' = dropWhile is_ws r
      in startsWith r' ''{'' \<or> startsWith r' ''('' \<or> startsWith r' '':'')"

function key_matches :: "string \<Rightarrow> string list" where
  "key_matches s =
     (case s of [] \<Rightarrow> []
      | c # cs \<Rightarrow>
          (if is_word c \<and> lookahead_ok (dropWhile is_word s)
           then takeWhile is_word s # key_matches (dropWhile is_word s)
           else key_matches cs))"
  by pat_completeness auto
termination
  by (relation "measure length") (auto simp: le_imp_less_Suc length_dropWhile_le)

declare key_matches.simps [simp del]

definition compareQueries :: "string \<Rightarrow> string \<Rightarrow> rat option" where
  "compareQueries query1 query2 =
     (let analysis1 = analyze query1; analysis2 = analyze query2;
          fields1 = set_values (key_matches (qa_query analysis1));
          fields2 = set_values (key_matches (qa_query analysis2));
          intersection = filter (\<lambda>f. f \<in> set fields2) fields1;
          union = set_values (fields1 @ fields2);
          depthDiff = \<bar>int (qa_depth analysis1) - int (qa_depth analysis2)\<bar>
      in (case js_div (of_nat (length intersection)) (of_nat (length union)) of
            None \<Rightarrow> None
          | Some overlap \<Rightarrow>
              Some (min (overlap * (1/2)
                 + (if qa_complexity analysis1 = qa_complexity analysis2 then 3/10 else 0)
                 + (1 - of_int depthDiff / 5) * (1/5)) 1)))"


section \<open>Reference definitions\<close>

text \<open>
  A selection of a GraphQL document: its name, its optional argument list and its
  sub-selections, with a canonical rendering. The names the analyzer extracts from the
  rendering are the names of the selections that have sub-selections and no arguments.
\<close>

datatype selection = Selection string "string option" "selection list"

fun render :: "selection \<Rightarrow> string" where
  "render (Selection n a cs) =
     n @ (case a of None \<Rightarrow> [] | Some t \<Rightarrow> ''('' @ t @ '')'')
       @ (if cs = [] then [] else '' { '' @ join '' '' (map render cs) @ '' }'')"

fun wf_selection :: "selection \<Rightarrow> bool" where
  "wf_selection (Selection n a cs) \<longleftrightarrow>
     n \<noteq> [] \<and> list_all is_word n \<and> (case a of None \<Rightarrow> True | Some t \<Rightarrow> CHR ''{'' \<notin> set t)
     \<and> list_all wf_selection cs"

fun branching_names :: "selection \<Rightarrow> string list" where
  "branching_names (Selection n a cs) =
     (if cs \<noteq> [] \<and> a = None then [n] else []) @ concat (map branching_names cs)"


section \<open>What the field list is\<close>

lemma field_match_at_Some:
  "field_match_at s = Some (m, r) \<longleftrightarrow>
     (\<exists>w b. w \<noteq> [] \<and> list_all is_word w \<and> list_all is_ws b \<and> m = w @ b @ ''{'' \<and> s = w @ b @ ''{'' @ r)"
  (is "?lhs \<longleftrightarrow> ?rhs")
proof
  assume ?lhs
  then obtain t where "takeWhile is_word s \<noteq> []"
    and t: "dropWhile is_ws (dropWhile is_word s) = CHR ''{'' # t" "r = t"
    and m: "m = takeWhile is_word s @ takeWhile is_ws (dropWhile is_word s) @ ''{''"
    unfolding field_match_at_def Let_def startsWith_single by (force split: if_splits)
  moreover have "s = takeWhile is_word s @ takeWhile is_ws (dropWhile is_word s) @ ''{'' @ r"
    using t by (metis append_Cons append_Nil takeWhile_dropWhile_id)
  moreover have "list_all is_word (takeWhile is_word s)"
    "list_all is_ws (takeWhile is_ws (dropWhile is_word s))"
    by (auto simp: list_all_iff dest: set_takeWhileD)
  ultimately show ?rhs by blast
next
  assume ?rhs
  then obtain w b where w: "w \<noteq> []" "list_all is_word w" "list_all is_ws b"
    and m: "m = w @ b @ ''{''" and s: "s = w @ b @ ''{'' @ r" by blast
  have nw: "b = [] \<or> \<not> is_word (hd b)"
    using w(3) by (cases b) (auto simp: ws_not_word)
  have tw: "takeWhile is_word s = w" "dropWhile is_word s = b @ ''{'' @ r"
    using w(2) nw by (cases b; auto simp: s list_all_iff takeWhile_tail)+
  have "takeWhile is_ws (b @ ''{'' @ r) = b" "dropWhile is_ws (b @ ''{'' @ r) = CHR ''{'' # r"
    using w(3) by (simp_all add: list_all_iff)
  then show ?lhs using w(1) by (simp add: field_match_at_def Let_def tw m)
qed

lemma field_matches_Nil [simp]: "field_matches [] = []"
  by (simp add: field_matches.simps)

lemma field_matches_step: "field_match_at s = Some (m, r) \<Longrightarrow> field_matches s = m # field_matches r"
  by (subst field_matches.simps) (cases s; simp add: field_match_at_def)

lemma field_matches_skip: "field_match_at (c # s) = None \<Longrightarrow> field_matches (c # s) = field_matches s"
  by (simp add: field_matches.simps [of "c # s"])

lemma field_matches_match:
  "w \<noteq> [] \<Longrightarrow> list_all is_word w \<Longrightarrow> list_all is_ws b \<Longrightarrow>
     field_matches (w @ b @ ''{'' @ r) = (w @ b @ ''{'') # field_matches r"
  by (rule field_matches_step) (auto simp: field_match_at_Some)

lemma scan_induct [case_names Nil skip match]:
  assumes "P []"
    and "\<And>c s. field_match_at (c # s) = None \<Longrightarrow> P s \<Longrightarrow> P (c # s)"
    and "\<And>w b r. w \<noteq> [] \<Longrightarrow> list_all is_word w \<Longrightarrow> list_all is_ws b \<Longrightarrow> P r \<Longrightarrow> P (w @ b @ ''{'' @ r)"
  shows "P s"
proof (induction s rule: length_induct)
  case (1 s)
  show ?case
  proof (cases "field_match_at s")
    case None
    then show ?thesis using 1 assms(1,2) by (cases s) auto
  next
    case (Some mr)
    obtain m r where mr: "mr = (m, r)" by (cases mr)
    then have "P r" using 1 Some field_match_at_shorter by blast
    with Some mr assms(3) show ?thesis by (auto simp: field_match_at_Some)
  qed
qed

lemma field_matches_shape:
  "m \<in> set (field_matches s) \<Longrightarrow>
     \<exists>w b. w \<noteq> [] \<and> list_all is_word w \<and> list_all is_ws b \<and> m = w @ b @ ''{''"
  by (induction s rule: scan_induct) (auto simp: field_matches_skip field_matches_match [simplified])

lemma count_braces_append: "count_braces (a @ b) = count_braces a + count_braces b"
  by (simp add: count_braces_def)

lemma length_field_matches: "length (field_matches s) \<le> count_braces s"
  by (induction s rule: scan_induct)
    (auto simp: field_matches_skip field_matches_match [simplified] count_braces_def)

lemma remove_ws_brace_match:
  "list_all is_word w \<Longrightarrow> list_all is_ws b \<Longrightarrow> remove_ws_brace (w @ b @ ''{'') = w"
proof (induction w)
  case Nil
  then show ?case by (cases b) (simp_all add: Let_def list_all_iff)
next
  case (Cons c w)
  then have "dropWhile is_ws ((c # w) @ b @ ''{'') = (c # w) @ b @ ''{''"
    by (simp add: word_not_ws)
  moreover have "c \<noteq> CHR ''{''" using Cons.prems by auto
  ultimately show ?case using Cons by (simp add: Let_def)
qed

lemma trim_word: "list_all is_word w \<Longrightarrow> trim w = w"
proof -
  assume w: "list_all is_word w"
  have "dropWhile is_ws u = u" if "list_all is_word u" for u
    using that by (cases u) (auto simp: word_not_ws)
  with w show ?thesis by (simp add: trim_def list_all_iff)
qed

lemma parse_fields_eq: "pq_fields (parseQuery q) = map (takeWhile is_word) (field_matches q)"
proof -
  have "trim (remove_ws_brace m) = takeWhile is_word m" if "m \<in> set (field_matches q)" for m
  proof -
    from field_matches_shape [OF that(1)]
    obtain w b where w: "list_all is_word w" "list_all is_ws b" "m = w @ b @ ''{''"
      by blast
    moreover have "takeWhile is_word (b @ ''{'') = []"
      using w(2) by (cases b) (auto simp: ws_not_word)
    ultimately show ?thesis
      by (simp add: remove_ws_brace_match trim_word list_all_iff)
  qed
  then show ?thesis by (simp add: parseQuery_def Let_def)
qed

lemma parse_fields_words:
  "f \<in> set (pq_fields (parseQuery q)) \<Longrightarrow> f \<noteq> [] \<and> list_all is_word f"
proof -
  assume "f \<in> set (pq_fields (parseQuery q))"
  then obtain m where m: "m \<in> set (field_matches q)" "f = takeWhile is_word m"
    by (auto simp: parse_fields_eq)
  then obtain w b where w: "w \<noteq> []" "list_all is_word w" "m = w @ b @ ''{''"
    using field_matches_shape by blast
  then have "f \<noteq> []" using m(2) by (cases w) auto
  then show ?thesis using m(2) by (auto simp: list_all_iff dest: set_takeWhileD)
qed


text \<open>A prefix without a brace adds no match, when no match can run across its end.\<close>

definition safe_rest :: "string \<Rightarrow> bool" where
  "safe_rest r \<longleftrightarrow> (r = [] \<or> \<not> is_word (hd r)) \<and> \<not> startsWith (dropWhile is_ws r) ''{''"

lemma field_match_at_plain:
  assumes "CHR ''{'' \<notin> set p" "p \<noteq> []" "safe_rest r"
  shows "field_match_at (p @ r) = None"
proof (rule ccontr)
  assume "field_match_at (p @ r) \<noteq> None"
  then obtain m r' w b where w: "w \<noteq> []" "list_all is_word w" "list_all is_ws b"
    and eq: "p @ r = w @ b @ ''{'' @ r'"
    by (auto simp: field_match_at_Some)
  have "\<exists>q. w @ b = p @ q \<and> r = q @ ''{'' @ r'"
    using eq assms(1) by (auto simp: append_eq_append_conv2 append_eq_Cons_conv)
  then obtain q where q: "w @ b = p @ q" "r = q @ ''{'' @ r'" by blast
  show False
  proof (cases "list_all is_ws q")
    case True
    then show False using assms(3) q(2) by (simp add: safe_rest_def list_all_iff)
  next
    case False
    then have "\<exists>u. u \<noteq> [] \<and> q = u @ b"
      using q(1) w(3) by (auto simp: append_eq_append_conv2 list_all_iff)
    then obtain u where u: "u \<noteq> []" "q = u @ b" by blast
    then have "w = p @ u" using q(1) by simp
    then have "is_word (hd u)" using w(2) u(1) by (cases u) auto
    then show False using assms(3) q(2) u by (cases u) (auto simp: safe_rest_def)
  qed
qed

lemma field_matches_plain: "CHR ''{'' \<notin> set p \<Longrightarrow> safe_rest r \<Longrightarrow> field_matches (p @ r) = field_matches r"
proof (induction p)
  case (Cons c p)
  then have "field_match_at (c # p @ r) = None"
    using field_match_at_plain [of "c # p" r] by simp
  with Cons show ?case by (simp add: field_matches_skip)
qed simp

lemma field_match_at_nonword: "\<not> is_word c \<Longrightarrow> field_match_at (c # r) = None"
  by (simp add: field_match_at_def Let_def)

lemma field_matches_nonword: "\<not> is_word c \<Longrightarrow> field_matches (c # r) = field_matches r"
  by (simp add: field_match_at_nonword field_matches_skip)

lemma field_matches_closed:
  "CHR ''{'' \<notin> set p \<Longrightarrow> field_matches (p @ '')'' @ r) = field_matches r"
proof -
  assume p: "CHR ''{'' \<notin> set p"
  have "safe_rest ('')'' @ r)" by (simp add: safe_rest_def)
  then have "field_matches (p @ '')'' @ r) = field_matches ('')'' @ r)"
    by (rule field_matches_plain [OF p])
  also have "\<dots> = field_matches r" using field_matches_nonword [of "CHR '')''" r] by simp
  finally show ?thesis .
qed


lemma render_starts_word: "wf_selection s \<Longrightarrow> \<exists>c t. render s = c # t \<and> is_word c"
  by (cases s; cases "case s of Selection n a cs \<Rightarrow> n") auto

lemma safe_rest_render: "wf_selection s \<Longrightarrow> safe_rest ('' '' @ render s @ r)"
proof -
  assume "wf_selection s"
  then obtain c t where "render s = c # t" "is_word c" using render_starts_word by blast
  then show ?thesis
    by (simp add: safe_rest_def startsWith_single word_not_ws) auto
qed

lemma safe_rest_close: "safe_rest ('' }'' @ r)"
  by (simp add: safe_rest_def)

lemma field_matches_close: "field_matches ('' }'' @ r) = field_matches r"
  using field_matches_nonword [of "CHR '' ''" "''}'' @ r"] field_matches_nonword [of "CHR ''}''" r]
  by simp

lemma field_matches_children:
  assumes child: "\<And>c r. c \<in> set cs \<Longrightarrow> safe_rest r \<Longrightarrow> field_matches (render c @ r) = f c @ field_matches r"
    and wf: "list_all wf_selection cs" and ne: "cs \<noteq> []"
  shows "field_matches (join '' '' (map render cs) @ '' }'' @ r) = concat (map f cs) @ field_matches r"
  using assms
proof (induction cs rule: induct_list012)
  case (2 c)
  then show ?case using safe_rest_close [of r] field_matches_close [of r] by simp
next
  case (3 c d cs)
  let ?rest = "join '' '' (map render (d # cs)) @ '' }'' @ r"
  have "\<exists>u. ?rest = render d @ u" by (cases cs) auto
  then obtain u where u: "?rest = render d @ u" by blast
  have safe: "safe_rest ('' '' @ ?rest)"
    using "3.prems"(2) safe_rest_render [of d u] unfolding u by simp
  have "field_matches (join '' '' (map render (c # d # cs)) @ '' }'' @ r)
      = field_matches (render c @ ('' '' @ ?rest))" by simp
  also have "\<dots> = f c @ field_matches ('' '' @ ?rest)"
    by (rule "3.prems"(1)) (use safe in auto)
  also have "field_matches ('' '' @ ?rest) = field_matches ?rest"
    using field_matches_nonword [of "CHR '' ''" ?rest] by simp
  also have "field_matches ?rest = concat (map f (d # cs)) @ field_matches r"
    by (rule "3.IH"(2)) (use "3.prems" in auto)
  finally show ?case by simp
qed simp

lemma field_matches_render:
  "wf_selection s \<Longrightarrow> safe_rest r \<Longrightarrow>
     field_matches (render s @ r) = map (\<lambda>n. n @ '' {'') (branching_names s) @ field_matches r"
proof (induction s arbitrary: r)
  case (Selection n a cs)
  let ?f = "\<lambda>s. map (\<lambda>n. n @ '' {'') (branching_names s)"
  have n: "n \<noteq> []" "list_all is_word n" "CHR ''{'' \<notin> set n" and wf: "list_all wf_selection cs"
    using Selection.prems(1) by (auto simp: list_all_iff)
  let ?body = "'' '' @ join '' '' (map render cs) @ '' }'' @ r"
  have body: "field_matches ?body = concat (map ?f cs) @ field_matches r" if "cs \<noteq> []"
  proof -
    have "field_matches ?body = field_matches (join '' '' (map render cs) @ '' }'' @ r)"
      using field_matches_nonword [of "CHR '' ''" "join '' '' (map render cs) @ '' }'' @ r"]
      by simp
    also have "\<dots> = concat (map ?f cs) @ field_matches r"
    proof (rule field_matches_children [OF _ wf that])
      fix c r assume "c \<in> set cs" "safe_rest r"
      then show "field_matches (render c @ r) = ?f c @ field_matches r"
        using Selection.IH wf by (simp add: list_all_iff)
    qed
    finally show ?thesis .
  qed
  show ?case
  proof (cases a)
    case None
    show ?thesis
    proof (cases "cs = []")
      case True
      then show ?thesis using None n field_matches_plain Selection.prems(2) by simp
    next
      case False
      have "field_matches (n @ '' '' @ ''{'' @ ?body) = (n @ '' '' @ ''{'') # field_matches ?body"
        by (rule field_matches_match) (use n in simp_all)
      then show ?thesis using None False body by (simp add: map_concat comp_def)
    qed
  next
    case (Some t)
    have pre: "CHR ''{'' \<notin> set (n @ ''('' @ t)" using n(3) Selection.prems(1) Some by simp
    show ?thesis
    proof (cases "cs = []")
      case True
      then show ?thesis using Some field_matches_closed [OF pre, of r] by simp
    next
      case False
      have "field_matches (render (Selection n a cs) @ r) = field_matches ('' {'' @ ?body)"
        using Some False field_matches_closed [OF pre, of "'' {'' @ ?body"] by simp
      also have "\<dots> = field_matches ?body"
        using field_matches_nonword [of "CHR '' ''" "''{'' @ ?body"]
          field_matches_nonword [of "CHR ''{''" ?body] by simp
      finally show ?thesis using Some False body by (simp add: map_concat comp_def)
    qed
  qed
qed

lemma branching_names_words:
  "wf_selection s \<Longrightarrow> n \<in> set (branching_names s) \<Longrightarrow> list_all is_word n"
  by (induction s) (auto simp: list_all_iff split: if_splits)


section \<open>Properties\<close>

text \<open>
  C40. On the canonical rendering of a selection the analyzer extracts exactly the names of the
  selections that have sub-selections and no argument list, in document order: leaf fields and
  selections with arguments are not counted.
\<close>

theorem parse_fields_render:
  assumes "wf_selection s"
  shows "pq_fields (parseQuery (render s)) = branching_names s"
proof -
  have "field_matches (render s @ []) = map (\<lambda>n. n @ '' {'') (branching_names s) @ field_matches []"
    by (rule field_matches_render [OF assms]) (simp add: safe_rest_def)
  then have "field_matches (render s) = map (\<lambda>n. n @ '' {'') (branching_names s)" by simp
  moreover have "takeWhile is_word (n @ '' {'') = n" if "n \<in> set (branching_names s)" for n
    using branching_names_words [OF assms that] by (simp add: list_all_iff)
  ultimately show ?thesis by (simp add: parse_fields_eq map_idI)
qed


theorem parse_fields_render_witness:
  "wf_selection (Selection ''user'' None [Selection ''posts'' (Some ''first: 2'') [Selection ''title'' None []]])
   \<and> pq_fields (parseQuery ''user { posts(first: 2) { title } }'') = [''user'']"
  using parse_fields_render [of "Selection ''user'' None [Selection ''posts'' (Some ''first: 2'') [Selection ''title'' None []]]"]
  by (simp add: js_simps)

lemma joined_fields_chars:
  "c \<in> set (join '' '' (pq_fields (parseQuery q))) \<Longrightarrow> is_word c \<or> c = CHR '' ''"
  using set_join [of "'' ''" "pq_fields (parseQuery q)"] parse_fields_words [of _ q]
  by (fastforce simp: list_all_iff)

lemma count_braces_fields: "count_braces (join '' '' (pq_fields (parseQuery q))) = 0"
  using joined_fields_chars [of "CHR ''{''" q] by (auto simp: count_braces_def filter_empty_conv)

lemma calculateDepth_eq: "calculateDepth (parseQuery q) = (if count_braces q > 2 then 0 else 1)"
  using count_braces_fields [of q] by (simp add: calculateDepth_def parseQuery_def Let_def)

lemma countFields_le: "countFields (parseQuery q) \<le> count_braces q"
  by (simp add: countFields_def parse_fields_eq length_field_matches)

lemma analyze_sel [simp]:
  "qa_query (analyze q) = q" "qa_fieldCount (analyze q) = countFields (parseQuery q)"
  "qa_depth (analyze q) = calculateDepth (parseQuery q)"
  by (simp_all add: analyze_def Let_def)

text \<open>
  The reported nesting depth of a query is 1 when the query has at most two opening
  braces and 0 otherwise, so the opportunity of a deeply nested query is never reported.
\<close>

theorem analyze_depth:
  "qa_depth (analyze q) = (if count_braces q > 2 then 0 else 1)
   \<and> Nested_depth \<notin> opp_type ` set (qa_opportunities (analyze q))"
  by (auto simp: calculateDepth_eq analyze_def Let_def identifyOpportunities_def split: if_splits)

lemma analyze_level:
  "qa_complexity (analyze q) =
     (if countFields (parseQuery q) < 10 then Low
      else if countFields (parseQuery q) < 30 then Medium else High)"
proof -
  let ?n = "countFields (parseQuery q)"
  have score: "(of_nat n * (1/2) < (5::rat)) = (n < 10)" "(of_nat n * (1/2) < (15::rat)) = (n < 30)" for n
    using of_nat_less_iff [of n 10, where 'a = rat] of_nat_less_iff [of n 30, where 'a = rat] by simp_all
  show ?thesis
  proof (cases "count_braces q > 2")
    case True
    then show ?thesis
      by (simp add: analyze_def Let_def calculateDepth_eq assessComplexity_def score)
  next
    case False
    then have n: "?n \<le> 2" using countFields_le [of q] by simp
    then have "(of_nat ?n :: rat) \<le> 2" using of_nat_mono [of ?n 2, where 'a = rat] by simp
    with False n show ?thesis
      by (simp add: analyze_def Let_def calculateDepth_eq assessComplexity_def)
  qed
qed

text \<open>
  The complexity level is a function of the number of extracted fields alone: low below 10,
  medium below 30, high from 30 on.
\<close>

theorem analyze_complexity:
  "qa_complexity (analyze q) =
     (if qa_fieldCount (analyze q) < 10 then Low
      else if qa_fieldCount (analyze q) < 30 then Medium else High)"
  by (simp add: analyze_level)


lemma has_paren_group_mem: "has_paren_group s \<Longrightarrow> CHR ''('' \<in> set s"
  by (induction s) auto

lemma lowered_fields_chars:
  "c \<in> set (toLowerCase (join '' '' (pq_fields (parseQuery q)))) \<Longrightarrow> is_word c \<or> c = CHR '' ''"
proof -
  assume "c \<in> set (toLowerCase (join '' '' (pq_fields (parseQuery q))))"
  then obtain d where "d \<in> set (join '' '' (pq_fields (parseQuery q)))" "c = lower_char d"
    by (auto simp: toLowerCase_def)
  moreover have "lower_char (CHR '' '') = CHR '' ''" by (simp add: js_simps)
  ultimately show ?thesis using joined_fields_chars lower_char_word by fastforce
qed

lemma hasFilters_eq:
  "hasFilters (pq_fields (parseQuery q)) =
     includes_any [''where'', ''filter'', ''limit'', ''offset'']
       (toLowerCase (join '' '' (pq_fields (parseQuery q))))"
proof -
  have "\<not> has_paren_group (join '' '' (pq_fields (parseQuery q)))"
    using has_paren_group_mem joined_fields_chars [of "CHR ''(''" q] by auto
  moreover have "\<not> str_includes (toLowerCase (join '' '' (pq_fields (parseQuery q)))) ''id:''"
    using includes_mem lowered_fields_chars [of "CHR '':''" q] by fastforce
  ultimately show ?thesis by (auto simp: hasFilters_def Let_def includes_any_def)
qed

lemma hasCacheDirectives_False: "\<not> hasCacheDirectives (pq_fields (parseQuery q))"
proof -
  have "CHR ''@'' \<notin> set (join '' '' (pq_fields (parseQuery q)))"
    using joined_fields_chars [of "CHR ''@''" q] by auto
  then have "\<not> str_includes (join '' '' (pq_fields (parseQuery q))) p" if "CHR ''@'' \<in> set p" for p
    using includes_mem that by blast
  then show ?thesis by (simp add: hasCacheDirectives_def includes_any_def)
qed

lemma analyze_opportunity_types:
  "map opp_type (qa_opportunities (analyze q)) =
     (let n = countFields (parseQuery q); fs = pq_fields (parseQuery q);
          isq = (pq_operation (parseQuery q) = Op_query)
      in (if n > 10 then [Field_selection] else [])
         @ (if isq \<and> \<not> includes_any [''where'', ''filter'', ''limit'', ''offset'']
               (toLowerCase (join '' '' fs)) then [Filtering] else [])
         @ (if n > 5 \<and> \<not> hasPagination fs then [Pagination] else [])
         @ (if isq then [Caching] else []))"
  by (simp add: analyze_def Let_def identifyOpportunities_def calculateDepth_eq hasFilters_eq
      hasCacheDirectives_False)

text \<open>
  The list of opportunities: the checks for parenthesised arguments, for \<open>id:\<close> and for
  cache directives run over the extracted names, which hold neither, so a read query is always
  told to add caching and is told to add filters unless a branching field is itself named after
  one; the remaining opportunities depend on the field count.
\<close>

theorem analyze_opportunities:
  "map opp_type (qa_opportunities (analyze q)) =
     (let n = qa_fieldCount (analyze q); fs = pq_fields (parseQuery q);
          isq = (pq_operation (parseQuery q) = Op_query)
      in (if n > 10 then [Field_selection] else [])
         @ (if isq \<and> \<not> includes_any [''where'', ''filter'', ''limit'', ''offset'']
               (toLowerCase (join '' '' fs)) then [Filtering] else [])
         @ (if n > 5 \<and> \<not> hasPagination fs then [Pagination] else [])
         @ (if isq then [Caching] else []))"
  by (simp add: analyze_opportunity_types)

lemma compareQueries_alt:
  "compareQueries q1 q2 =
     (let A = set (key_matches q1); B = set (key_matches q2)
      in if A \<union> B = {} then None
         else Some (min (of_nat (card {x \<in> A. x \<in> B}) / of_nat (card (A \<union> B)) * (1/2)
                 + (if qa_complexity (analyze q1) = qa_complexity (analyze q2) then 3/10 else 0)
                 + (1 - of_int \<bar>int (calculateDepth (parseQuery q1)) - int (calculateDepth (parseQuery q2))\<bar> / 5) * (1/5)) 1))"
proof -
  have "(of_nat (card (set (key_matches q1) \<union> set (key_matches q2))) = (0::rat))
      = (set (key_matches q1) \<union> set (key_matches q2) = {})" by simp
  then show ?thesis
    by (simp add: compareQueries_def js_div_def js_length Let_def)
qed

text \<open>
  The similarity of two queries is a number between 0 and 1, symmetric and 1 on equal
  queries, except that it is \<open>NaN\<close> exactly when neither query has a name followed by a
  brace, a parenthesis or a colon.
\<close>

theorem compareQueries_range:
  "(compareQueries q1 q2 = None \<longleftrightarrow> key_matches q1 = [] \<and> key_matches q2 = [])
   \<and> (\<forall>v. compareQueries q1 q2 = Some v \<longrightarrow> 0 \<le> v \<and> v \<le> 1)
   \<and> compareQueries q1 q2 = compareQueries q2 q1
   \<and> (key_matches q1 \<noteq> [] \<longrightarrow> compareQueries q1 q1 = Some 1)"
proof (intro conjI)
  let ?A = "set (key_matches q1)" let ?B = "set (key_matches q2)"
  let ?d = "int (calculateDepth (parseQuery q1)) - int (calculateDepth (parseQuery q2))"
  show "compareQueries q1 q2 = None \<longleftrightarrow> key_matches q1 = [] \<and> key_matches q2 = []"
    by (simp add: compareQueries_alt Let_def)
  have d: "\<bar>?d\<bar> \<le> 1" by (simp add: calculateDepth_eq)
  then have "(0::rat) \<le> 1 - of_int \<bar>?d\<bar> / 5" by simp
  then show "\<forall>v. compareQueries q1 q2 = Some v \<longrightarrow> 0 \<le> v \<and> v \<le> 1"
    using jaccard_bounds(1) [of ?A ?B] by (auto simp: compareQueries_alt Let_def)
  have "{x \<in> ?A. x \<in> ?B} = {x \<in> ?B. x \<in> ?A}" "?A \<union> ?B = ?B \<union> ?A" by auto
  then show "compareQueries q1 q2 = compareQueries q2 q1"
    unfolding compareQueries_alt Let_def by (simp add: abs_minus_commute eq_commute)
  show "key_matches q1 \<noteq> [] \<longrightarrow> compareQueries q1 q1 = Some 1"
    by (simp add: compareQueries_alt Let_def)
qed

theorem compareQueries_range_witness:
  "compareQueries ''abc'' ''def'' = None \<and> compareQueries ''{ a { b } }'' ''{ a { b } }'' = Some 1"
proof -
  have "key_matches ''abc'' = [] \<and> key_matches ''def'' = []" "key_matches ''{ a { b } }'' \<noteq> []"
    by code_simp+
  then show ?thesis using compareQueries_range by blast
qed

end
