(* ===== verification/Json_Text.thy ===== *)
theory Json_Text
  imports JS_Prelude
begin

text \<open>
  JSON values and \<open>JSON.stringify\<close> (without indentation) as the modelled sources use them: an
  object keeps its properties in order, a number is a decimal \<open>n / 10^k\<close>, and a property whose
  value is \<open>undefined\<close> is simply absent. A scanner that tracks string literals and bracket depth
  gives the structural fact the cache keys rest on: no proper suffix of the text of an object is
  itself the text of a value.
\<close>

section \<open>Values and their text\<close>

datatype json =
    JNull
  | JBool bool
  | JNum int nat
  | JStr string
  | JArr "json list"
  | JObj "(string \<times> json) list"

definition hex_digit :: "nat \<Rightarrow> char" where
  "hex_digit n = (if n < 10 then char_of (48 + n) else char_of (87 + n))"

definition json_escape_char :: "char \<Rightarrow> string" where
  "json_escape_char c =
     (if c = CHR 0x22 then [CHR 0x5C, CHR 0x22]
      else if c = CHR 0x5C then [CHR 0x5C, CHR 0x5C]
      else if c = CHR 0x08 then [CHR 0x5C, CHR ''b'']
      else if c = CHR 0x0C then [CHR 0x5C, CHR ''f'']
      else if c = CHR 0x0A then [CHR 0x5C, CHR ''n'']
      else if c = CHR 0x0D then [CHR 0x5C, CHR ''r'']
      else if c = CHR 0x09 then [CHR 0x5C, CHR ''t'']
      else if char_code c < 32
      then [CHR 0x5C, CHR ''u'', CHR ''0'', CHR ''0'', hex_digit (char_code c div 16), hex_digit (char_code c mod 16)]
      else [c])"

definition json_quote :: "string \<Rightarrow> string" where
  "json_quote s = [CHR 0x22] @ concat (map json_escape_char s) @ [CHR 0x22]"

text \<open>The fraction digits of \<open>n / 10^k\<close>, padded to \<open>k\<close> places.\<close>

definition pad_zeros :: "nat \<Rightarrow> string \<Rightarrow> string" where
  "pad_zeros k s = replicate (k - length s) (CHR ''0'') @ s"

definition show_decimal :: "int \<Rightarrow> nat \<Rightarrow> string" where
  "show_decimal n k =
     (if n < 0 then ''-'' else [])
     @ show_nat (nat \<bar>n\<bar> div 10 ^ k)
     @ (if k = 0 then [] else ''.'' @ pad_zeros k (show_nat (nat \<bar>n\<bar> mod 10 ^ k)))"

text \<open>The text of a number that is a decimal of at most 20 places, exact in that case and cut off otherwise.\<close>

definition show_number :: "rat \<Rightarrow> string" where
  "show_number r =
     (case find (\<lambda>k. snd (quotient_of (r * 10 ^ k)) = 1) [0..<21] of
        Some k \<Rightarrow> show_decimal (fst (quotient_of (r * 10 ^ k))) k
      | None \<Rightarrow> show_decimal \<lfloor>r * 10 ^ 20\<rfloor> 20)"

fun stringify :: "json \<Rightarrow> string" where
  "stringify JNull = ''null''"
| "stringify (JBool b) = (if b then ''true'' else ''false'')"
| "stringify (JNum n k) = show_decimal n k"
| "stringify (JStr s) = json_quote s"
| "stringify (JArr xs) = ''['' @ join '','' (map stringify xs) @ '']''"
| "stringify (JObj ps) =
     ''{'' @ join '','' (map (\<lambda>(k, v). json_quote k @ '':'' @ stringify v) ps) @ ''}''"


section \<open>A scanner for string literals and bracket depth\<close>

datatype scan_state = Out int | In int | Esc int | Bad

fun scan_step :: "scan_state \<Rightarrow> char \<Rightarrow> scan_state" where
  "scan_step (Out d) c =
     (if c = CHR 0x22 then In d
      else if c = CHR 0x5C then Bad
      else if c = CHR ''{'' \<or> c = CHR ''['' then Out (d + 1)
      else if c = CHR ''}'' \<or> c = CHR '']'' then Out (d - 1)
      else Out d)"
| "scan_step (In d) c = (if c = CHR 0x22 then Out d else if c = CHR 0x5C then Esc d else In d)"
| "scan_step (Esc d) c = In d"
| "scan_step Bad c = Bad"

definition scan :: "scan_state \<Rightarrow> string \<Rightarrow> scan_state" where
  "scan q s = foldl scan_step q s"

lemma scan_simps [simp]: "scan q [] = q" "scan q (c # s) = scan (scan_step q c) s"
  "scan q (a @ b) = scan (scan q a) b"
  by (simp_all add: scan_def)

lemma scan_Bad [simp]: "scan Bad s = Bad"
  by (induction s) auto

text \<open>
  A text is closed when scanning it from outside a string returns to the depth it started from,
  never falls below that depth on the way, and, started inside a string, ends inside one (or in
  an impossible state): it flips the string state an even number of times.
\<close>

definition closed_text :: "string \<Rightarrow> bool" where
  "closed_text t \<longleftrightarrow>
     (\<forall>d. scan (Out d) t = Out d)
   \<and> (\<forall>d u v k. t = u @ v \<longrightarrow> scan (Out d) u = Out k \<longrightarrow> d \<le> k)
   \<and> (\<forall>d. scan (In d) t = Bad \<or> (\<exists>k. scan (In d) t = In k))"

lemma closed_textI:
  assumes "\<And>d. scan (Out d) t = Out d"
    and "\<And>d u v k. t = u @ v \<Longrightarrow> scan (Out d) u = Out k \<Longrightarrow> d \<le> k"
    and "\<And>d. scan (In d) t = Bad \<or> (\<exists>k. scan (In d) t = In k)"
  shows "closed_text t"
  using assms by (simp add: closed_text_def)

lemma closed_text_Nil [simp]: "closed_text []"
  by (simp add: closed_text_def)

lemma closed_text_append:
  assumes "closed_text a" "closed_text b"
  shows "closed_text (a @ b)"
proof (rule closed_textI)
  fix d
  show "scan (Out d) (a @ b) = Out d" using assms by (simp add: closed_text_def)
  show "scan (In d) (a @ b) = Bad \<or> (\<exists>k. scan (In d) (a @ b) = In k)"
    using assms unfolding closed_text_def by (metis scan_Bad scan_simps(3))
  fix u v k
  assume eq: "a @ b = u @ v" and k: "scan (Out d) u = Out k"
  from eq consider w where "a = u @ w" | w where "u = a @ w" "b = w @ v"
    by (auto simp: append_eq_append_conv2)
  then show "d \<le> k"
    using assms k unfolding closed_text_def by cases (metis scan_simps(3))+
qed

definition plain_char :: "char \<Rightarrow> bool" where
  "plain_char c \<longleftrightarrow>
     c \<noteq> CHR 0x22 \<and> c \<noteq> CHR 0x5C \<and> c \<noteq> CHR ''{'' \<and> c \<noteq> CHR ''['' \<and> c \<noteq> CHR ''}'' \<and> c \<noteq> CHR '']''"

lemma scan_plain:
  assumes "list_all plain_char t"
  shows "scan (Out d) t = Out d" "scan (In d) t = In d"
  using assms by (induction t) (auto simp: plain_char_def)

lemma closed_text_plain: "list_all plain_char t \<Longrightarrow> closed_text t"
  by (rule closed_textI) (auto simp: scan_plain)

lemma closed_text_join:
  assumes "list_all plain_char sep" "\<And>t. t \<in> set ts \<Longrightarrow> closed_text t"
  shows "closed_text (join sep ts)"
  using assms
  by (induction sep ts rule: join.induct) (simp_all add: closed_text_append closed_text_plain)

lemma closed_text_bracket:
  assumes "closed_text t" "l = CHR ''{'' \<or> l = CHR ''[''" "r = CHR ''}'' \<or> r = CHR '']''"
  shows "closed_text ([l] @ t @ [r])"
proof (rule closed_textI)
  fix d
  have l: "scan_step (Out d) l = Out (d + 1)" "scan_step (In d) l = In d" for d using assms(2) by auto
  have r: "scan_step (Out d) r = Out (d - 1)" "scan_step (In d) r = In d" for d using assms(3) by auto
  have t: "scan (Out d) t = Out d" "t = u @ v \<Longrightarrow> scan (Out d) u = Out k \<Longrightarrow> d \<le> k"
    "scan (In d) t = Bad \<or> (\<exists>k. scan (In d) t = In k)" for d u v k
    using assms(1) unfolding closed_text_def by blast+
  show "scan (Out d) ([l] @ t @ [r]) = Out d" using l r t(1) [of "d + 1"] by simp
  show "scan (In d) ([l] @ t @ [r]) = Bad \<or> (\<exists>k. scan (In d) ([l] @ t @ [r]) = In k)"
    using l r t(3) [of d] by auto
  fix u v k
  assume eq: "[l] @ t @ [r] = u @ v" and k: "scan (Out d) u = Out k"
  then consider "u = []" | w x where "u = l # w" "t = w @ x" | "u = [l] @ t @ [r]"
    by (cases u; cases v rule: rev_cases) (auto simp: append_eq_append_conv2 Cons_eq_append_conv)
  then show "d \<le> k"
  proof cases
    case 2
    then show ?thesis using k l t(2) [where d = "d + 1" and u = w and v = x and k = k] by simp
  next
    case 3
    then show ?thesis using k l r t(1) [of "d + 1"] by simp
  qed (use k in simp)
qed

text \<open>String literals.\<close>

lemma hex_digit_safe: "n < 16 \<Longrightarrow> hex_digit n \<noteq> CHR 0x22 \<and> hex_digit n \<noteq> CHR 0x5C"
proof -
  assume "n < 16"
  then have "char_code (hex_digit n) = (if n < 10 then 48 + n else 87 + n)"
    by (simp add: hex_digit_def char_code_char_of)
  then show ?thesis by (auto simp: char_code_def split: if_splits)
qed

lemma json_escape_char_shape:
  "(json_escape_char c = [c] \<and> c \<noteq> CHR 0x22 \<and> c \<noteq> CHR 0x5C)
   \<or> (\<exists>x r. json_escape_char c = CHR 0x5C # x # r \<and> list_all (\<lambda>y. y \<noteq> CHR 0x22 \<and> y \<noteq> CHR 0x5C) r)"
proof -
  have "hex_digit (char_code c div 16) \<noteq> CHR 0x22 \<and> hex_digit (char_code c div 16) \<noteq> CHR 0x5C" if "char_code c < 32"
    using that by (intro hex_digit_safe) simp
  moreover have "hex_digit (char_code c mod 16) \<noteq> CHR 0x22 \<and> hex_digit (char_code c mod 16) \<noteq> CHR 0x5C"
    by (rule hex_digit_safe) simp
  ultimately show ?thesis by (simp add: json_escape_char_def)
qed

lemma scan_In_safe: "list_all (\<lambda>y. y \<noteq> CHR 0x22 \<and> y \<noteq> CHR 0x5C) r \<Longrightarrow> scan (In d) r = In d"
  by (induction r) auto

lemma scan_In_escape: "scan (In d) (json_escape_char c) = In d"
  using json_escape_char_shape [of c] by (auto simp: scan_In_safe)

lemma scan_In_escape_prefix:
  assumes "json_escape_char c = u @ v"
  shows "scan (In d) u \<noteq> Out k"
  using json_escape_char_shape [of c]
proof
  assume "json_escape_char c = [c] \<and> c \<noteq> CHR 0x22 \<and> c \<noteq> CHR 0x5C"
  then show ?thesis using assms by (cases u) auto
next
  assume "\<exists>x r. json_escape_char c = CHR 0x5C # x # r \<and> list_all (\<lambda>y. y \<noteq> CHR 0x22 \<and> y \<noteq> CHR 0x5C) r"
  then obtain x r where "CHR 0x5C # x # r = u @ v" and safe: "list_all (\<lambda>y. y \<noteq> CHR 0x22 \<and> y \<noteq> CHR 0x5C) r"
    using assms by auto
  then consider "u = []" | "u = [CHR 0x5C]" | w where "u = CHR 0x5C # x # w" "r = w @ v"
    by (auto simp: Cons_eq_append_conv)
  then show ?thesis using safe by cases (auto simp: scan_In_safe)
qed

lemma scan_In_escapes: "scan (In d) (concat (map json_escape_char s)) = In d"
  by (induction s) (simp_all add: scan_In_escape)

lemma scan_In_escapes_prefix: "concat (map json_escape_char s) = u @ v \<Longrightarrow> scan (In d) u \<noteq> Out k"
proof (induction s arbitrary: u)
  case (Cons c s)
  then consider w where "json_escape_char c = u @ w" | w where "u = json_escape_char c @ w" "concat (map json_escape_char s) = w @ v"
    by (auto simp: append_eq_append_conv2)
  then show ?case using Cons.IH by cases (auto simp: scan_In_escape scan_In_escape_prefix)
qed simp

lemma scan_Out_escapes:
  "scan (Out d) (concat (map json_escape_char s)) = Bad \<or> (\<exists>k. scan (Out d) (concat (map json_escape_char s)) = Out k)"
proof (induction s arbitrary: d)
  case (Cons c s)
  have "scan (Out d) (json_escape_char c) = Bad \<or> (\<exists>k. scan (Out d) (json_escape_char c) = Out k)"
  proof (cases "json_escape_char c = [c]")
    case True
    moreover from True have "c \<noteq> CHR 0x22" using json_escape_char_shape [of c] by auto
    ultimately show ?thesis by (cases "scan_step (Out d) c") (auto split: if_splits)
  next
    case False
    then show ?thesis using json_escape_char_shape [of c] by auto
  qed
  then show ?case using Cons.IH by (elim disjE exE; simp)
qed simp

lemma closed_text_quote: "closed_text (json_quote s)"
proof (rule closed_textI)
  let ?e = "concat (map json_escape_char s)"
  fix d
  show "scan (Out d) (json_quote s) = Out d" by (simp add: json_quote_def scan_In_escapes)
  show "scan (In d) (json_quote s) = Bad \<or> (\<exists>k. scan (In d) (json_quote s) = In k)"
    using scan_Out_escapes [of d s] by (auto simp: json_quote_def)
  fix u v k
  assume eq: "json_quote s = u @ v" and k: "scan (Out d) u = Out k"
  from eq consider "u = []" | w x where "u = CHR 0x22 # w" "?e = w @ x" | "u = json_quote s"
    unfolding json_quote_def
    by (cases u; cases v rule: rev_cases) (auto simp: append_eq_append_conv2 Cons_eq_append_conv)
  then show "d \<le> k"
    by cases (use k scan_In_escapes_prefix in \<open>auto simp: json_quote_def scan_In_escapes\<close>)
qed


lemma closed_text_property: "closed_text t \<Longrightarrow> closed_text (json_quote k @ '':'' @ t)"
  by (rule closed_text_append [OF closed_text_quote closed_text_append])
    (simp_all add: closed_text_plain plain_char_def)

lemma digit_plain: "is_digit c \<Longrightarrow> plain_char c"
  by (auto simp: plain_char_def is_digit_def char_code_def)

lemma show_nat_plain: "list_all plain_char (show_nat n)"
  using show_nat_digits [of n] by (auto simp: list_all_iff digit_plain)

lemma closed_text_decimal: "closed_text (show_decimal n k)"
proof (rule closed_text_plain)
  have "plain_char (CHR ''-'')" "plain_char (CHR ''.'')" "plain_char (CHR ''0'')"
    by (simp_all add: plain_char_def)
  then show "list_all plain_char (show_decimal n k)"
    using show_nat_plain by (auto simp: show_decimal_def pad_zeros_def list_all_iff)
qed

lemma closed_text_stringify: "closed_text (stringify j)"
proof (induction j rule: stringify.induct)
  case (5 xs)
  have "closed_text (join '','' (map stringify xs))"
    using 5 by (intro closed_text_join) (auto simp: plain_char_def)
  then show ?case using closed_text_bracket [of _ "CHR ''[''" "CHR '']''"] by simp
next
  case (6 ps)
  then have "closed_text (json_quote k @ '':'' @ stringify v)" if "(k, v) \<in> set ps" for k v
    using that by (intro closed_text_property) blast
  then have "closed_text (join '','' (map (\<lambda>(k, v). json_quote k @ '':'' @ stringify v) ps))"
    by (intro closed_text_join) (auto simp: plain_char_def)
  then show ?case using closed_text_bracket [of _ "CHR ''{''" "CHR ''}''"] by simp
qed (auto intro!: closed_text_plain closed_text_quote closed_text_decimal simp: plain_char_def)

text \<open>No proper suffix of the text of an object is the text of an object.\<close>

lemma object_text_no_suffix:
  assumes "stringify (JObj ps) = u @ stringify (JObj qs)"
  shows "u = []"
proof (rule ccontr)
  assume "u \<noteq> []"
  let ?t = "stringify (JObj qs)"
  obtain t2 where t2: "?t = CHR ''{'' # t2" by simp
  define body where "body = join '','' (map (\<lambda>(k, v). json_quote k @ '':'' @ stringify v) ps)"
  have body: "stringify (JObj ps) = CHR ''{'' # body @ ''}''" by (simp add: body_def)
  have closed: "closed_text body"
    unfolding body_def using closed_text_property closed_text_stringify
    by (intro closed_text_join) (auto simp: plain_char_def)
  have t: "scan (Out d) ?t = Out d" "scan (In d) ?t = Bad \<or> (\<exists>k. scan (In d) ?t = In k)" for d
    using closed_text_stringify [of "JObj qs"] unfolding closed_text_def by blast+
  have final: "scan (scan (Out 0) u) ?t = Out 0"
    using closed_text_stringify [of "JObj ps"] assms unfolding closed_text_def by (metis scan_simps(3))
  show False
  proof (cases "scan (Out 0) u")
    case (Out k)
    from \<open>u \<noteq> []\<close> assms body obtain w where w: "u = CHR ''{'' # w" "body @ ''}'' = w @ ?t"
      by (cases u) auto
    then obtain x where "body = w @ x" using t2
      by (auto simp: append_eq_append_conv2 Cons_eq_append_conv)
    moreover have "scan (Out 1) w = Out k" using Out w by simp
    ultimately have "1 \<le> k" using closed unfolding closed_text_def by blast
    then show False using final Out t(1) by simp
  next
    case (In k)
    then show False using final t(2) [of k] by auto
  next
    case (Esc k)
    then have "scan (In k) ?t = Out 0" using final unfolding t2 by simp
    then show False using t(2) [of k] by auto
  next
    case Bad
    then show False using final by simp
  qed
qed


section \<open>String literals determine their strings\<close>

lemma hex_digit_inj: "hex_digit m = hex_digit n \<Longrightarrow> m < 16 \<Longrightarrow> n < 16 \<Longrightarrow> m = n"
proof -
  assume "hex_digit m = hex_digit n" "m < 16" "n < 16"
  then have "char_code (hex_digit m) = char_code (hex_digit n)" by simp
  with \<open>m < 16\<close> \<open>n < 16\<close> show ?thesis by (auto simp: hex_digit_def char_code_char_of split: if_splits)
qed

lemma hex_code_inj:
  assumes "hex_digit (char_code c div 16) = hex_digit (char_code d div 16)"
    and "hex_digit (char_code c mod 16) = hex_digit (char_code d mod 16)"
    and "char_code c < 32" "char_code d < 32"
  shows "c = d"
proof -
  have "char_code c div 16 = char_code d div 16" using assms(1,3,4) by (intro hex_digit_inj) auto
  moreover have "char_code c mod 16 = char_code d mod 16" using assms(2) by (intro hex_digit_inj) auto
  ultimately have "char_code c = char_code d" by (metis div_mult_mod_eq)
  then show ?thesis by (simp add: char_code_def)
qed

text \<open>The character a one-letter escape stands for.\<close>

definition unescape :: "char \<Rightarrow> char" where
  "unescape x = (if x = CHR ''b'' then CHR 0x08 else if x = CHR ''f'' then CHR 0x0C else if x = CHR ''n'' then CHR 0x0A
     else if x = CHR ''r'' then CHR 0x0D else if x = CHR ''t'' then CHR 0x09 else x)"

lemma json_escape_char_cases:
  obtains (plain) "json_escape_char c = [c]" "c \<noteq> CHR 0x5C"
  | (short) x where "json_escape_char c = [CHR 0x5C, x]" "x \<noteq> CHR ''u''" "c = unescape x"
  | (hex) "char_code c < 32" "json_escape_char c =
      [CHR 0x5C, CHR ''u'', CHR ''0'', CHR ''0'', hex_digit (char_code c div 16), hex_digit (char_code c mod 16)]"
proof -
  define sp where "sp \<longleftrightarrow> c = CHR 0x22 \<or> c = CHR 0x5C \<or> c = CHR 0x08 \<or> c = CHR 0x0C \<or> c = CHR 0x0A \<or> c = CHR 0x0D \<or> c = CHR 0x09"
  show ?thesis
  proof (cases sp)
    case True
    then have "\<exists>x. json_escape_char c = [CHR 0x5C, x] \<and> x \<noteq> CHR ''u'' \<and> c = unescape x"
      unfolding sp_def by (elim disjE) (simp_all add: json_escape_char_def unescape_def)
    then show ?thesis using short by blast
  next
    case False
    then have n: "c \<noteq> CHR 0x22" "c \<noteq> CHR 0x5C" "c \<noteq> CHR 0x08" "c \<noteq> CHR 0x0C" "c \<noteq> CHR 0x0A" "c \<noteq> CHR 0x0D" "c \<noteq> CHR 0x09"
      unfolding sp_def by blast+
    show ?thesis
    proof (cases "char_code c < 32")
      case True
      then show ?thesis using hex n by (simp add: json_escape_char_def)
    next
      case False
      then show ?thesis using plain n by (simp add: json_escape_char_def)
    qed
  qed
qed

lemma json_escape_char_prefix:
  "json_escape_char c @ r = json_escape_char d @ r' \<Longrightarrow> c = d \<and> r = r'"
  by (cases c rule: json_escape_char_cases; cases d rule: json_escape_char_cases) (auto intro: hex_code_inj)

lemma json_escape_char_ne: "json_escape_char c \<noteq> []"
  by (cases c rule: json_escape_char_cases) simp_all

lemma escapes_inj:
  "concat (map json_escape_char s) = concat (map json_escape_char s') \<Longrightarrow> s = s'"
proof (induction s arbitrary: s')
  case Nil
  then show ?case by (cases s') (simp_all add: json_escape_char_ne)
next
  case (Cons c s)
  then obtain d t where s': "s' = d # t" by (cases s') (simp_all add: json_escape_char_ne)
  have "c = d \<and> concat (map json_escape_char s) = concat (map json_escape_char t)"
    by (rule json_escape_char_prefix) (use Cons.prems s' in simp)
  with Cons.IH s' show ?case by blast
qed

text \<open>A string literal at the start of a text can be read off.\<close>

lemma json_quote_longer: "json_quote s = json_quote s' @ u \<Longrightarrow> u = []"
proof (rule ccontr)
  assume eq: "json_quote s = json_quote s' @ u" and "u \<noteq> []"
  then obtain v x where u: "u = v @ [x]" by (metis rev_exhaust)
  let ?w = "concat (map json_escape_char s') @ [CHR 0x22] @ v"
  have "concat (map json_escape_char s) = ?w" using eq by (simp add: json_quote_def u)
  then have "concat (map json_escape_char s) = (concat (map json_escape_char s') @ [CHR 0x22]) @ v" by simp
  from scan_In_escapes_prefix [OF this, of 0 0] show False by (simp add: scan_In_escapes)
qed

lemma json_quote_prefix: "json_quote s @ r = json_quote s' @ r' \<Longrightarrow> s = s' \<and> r = r'"
proof -
  assume eq: "json_quote s @ r = json_quote s' @ r'"
  then consider u where "json_quote s = json_quote s' @ u" | u where "json_quote s' = json_quote s @ u"
    unfolding append_eq_append_conv2 by metis
  then have q: "json_quote s = json_quote s'" by cases (auto dest: json_quote_longer)
  then have "s = s'" by (simp add: json_quote_def escapes_inj)
  with eq q show ?thesis by simp
qed

end
