(* ===== verification/Simple_Cache.thy ===== *)
theory Simple_Cache
  imports Json_Text
begin

text \<open>
  \<open>graphq-llm/src/utils/cache.ts\<close>: the in-memory cache of LLM responses. The \<open>Map\<close> is an
  association list in insertion order, \<open>Date.now()\<close> an argument of every operation. The lemmas
  show that keys of different queries or options never collide, that the expired entries an
  operation leaves behind or removes are unobservable, and that the class therefore implements an
  abstract map with expiry dates.
\<close>

section \<open>The class\<close>

record 'a CacheEntry =
  ce_data :: 'a
  ce_timestamp :: int
  ce_expiresAt :: int

record 'a SimpleCache =
  sc_cache :: "(string \<times> 'a CacheEntry) list"
  sc_defaultTTL :: int

definition new_SimpleCache :: "int option \<Rightarrow> 'a SimpleCache" where
  "new_SimpleCache ttl =
     \<lparr>sc_cache = [], sc_defaultTTL = (case ttl of None \<Rightarrow> 3600000 | Some t \<Rightarrow> t)\<rparr>"

definition generateKey :: "string \<Rightarrow> json option \<Rightarrow> string" where
  "generateKey q opts =
     q @ '':'' @ (case opts of None \<Rightarrow> [] | Some j \<Rightarrow> stringify j)"

definition cache_get :: "'a SimpleCache \<Rightarrow> int \<Rightarrow> string \<Rightarrow> json option \<Rightarrow> 'a option \<times> 'a SimpleCache" where
  "cache_get c now q opts =
     (let key = generateKey q opts
      in case map_of (sc_cache c) key of
           None \<Rightarrow> (None, c)
         | Some entry \<Rightarrow>
             if now > ce_expiresAt entry
             then (None, c\<lparr>sc_cache := AList.delete key (sc_cache c)\<rparr>)
             else (Some (ce_data entry), c))"

text \<open>\<open>ttl || this.defaultTTL\<close>: a missing and a zero time to live both select the default.\<close>

definition effective_ttl :: "'a SimpleCache \<Rightarrow> int option \<Rightarrow> int" where
  "effective_ttl c ttl = (case ttl of Some t \<Rightarrow> (if t = 0 then sc_defaultTTL c else t) | None \<Rightarrow> sc_defaultTTL c)"

definition cache_set :: "'a SimpleCache \<Rightarrow> int \<Rightarrow> string \<Rightarrow> 'a \<Rightarrow> json option \<Rightarrow> int option \<Rightarrow> 'a SimpleCache" where
  "cache_set c now q d opts ttl =
     c\<lparr>sc_cache := AList.update (generateKey q opts)
        \<lparr>ce_data = d, ce_timestamp = now, ce_expiresAt = now + effective_ttl c ttl\<rparr> (sc_cache c)\<rparr>"

definition clearExpired :: "'a SimpleCache \<Rightarrow> int \<Rightarrow> 'a SimpleCache" where
  "clearExpired c now = c\<lparr>sc_cache := filter (\<lambda>(key, entry). \<not> now > ce_expiresAt entry) (sc_cache c)\<rparr>"

definition cache_clear :: "'a SimpleCache \<Rightarrow> 'a SimpleCache" where
  "cache_clear c = c\<lparr>sc_cache := []\<rparr>"

definition cache_size :: "'a SimpleCache \<Rightarrow> nat" where
  "cache_size c = length (sc_cache c)"


section \<open>Abstract map with expiry dates\<close>

text \<open>Operations of the class, and their effect on the concrete and on the abstract state.\<close>

datatype 'a cache_op =
    OpGet string "json option"
  | OpSet string 'a "json option" "int option"
  | OpClearExpired
  | OpClear

fun cache_step :: "'a SimpleCache \<Rightarrow> int \<Rightarrow> 'a cache_op \<Rightarrow> 'a option \<times> 'a SimpleCache" where
  "cache_step c now (OpGet q opts) = cache_get c now q opts"
| "cache_step c now (OpSet q d opts ttl) = (None, cache_set c now q d opts ttl)"
| "cache_step c now OpClearExpired = (None, clearExpired c now)"
| "cache_step c now OpClear = (None, cache_clear c)"

fun cache_run :: "'a SimpleCache \<Rightarrow> (int \<times> 'a cache_op) list \<Rightarrow> 'a option list" where
  "cache_run c [] = []"
| "cache_run c ((now, op) # ops) = (let (r, c') = cache_step c now op in r # cache_run c' ops)"

type_synonym 'a expiry_map = "string \<rightharpoonup> 'a \<times> int"

definition live :: "'a expiry_map \<Rightarrow> int \<Rightarrow> string \<Rightarrow> 'a option" where
  "live m now k = (case m k of None \<Rightarrow> None | Some (d, e) \<Rightarrow> if now \<le> e then Some d else None)"

text \<open>The specification never removes an entry except on \<open>clear\<close>.\<close>

fun spec_step :: "int \<Rightarrow> 'a expiry_map \<Rightarrow> int \<Rightarrow> 'a cache_op \<Rightarrow> 'a option \<times> 'a expiry_map" where
  "spec_step dttl m now (OpGet q opts) = (live m now (generateKey q opts), m)"
| "spec_step dttl m now (OpSet q d opts ttl) =
     (None, m(generateKey q opts \<mapsto> (d, now + (if ttl = None \<or> ttl = Some 0 then dttl else the ttl))))"
| "spec_step dttl m now OpClearExpired = (None, m)"
| "spec_step dttl m now OpClear = (None, Map.empty)"

fun spec_run :: "int \<Rightarrow> 'a expiry_map \<Rightarrow> (int \<times> 'a cache_op) list \<Rightarrow> 'a option list" where
  "spec_run dttl m [] = []"
| "spec_run dttl m ((now, op) # ops) = (let (r, m') = spec_step dttl m now op in r # spec_run dttl m' ops)"

fun clock_ok :: "int \<Rightarrow> (int \<times> 'b) list \<Rightarrow> bool" where
  "clock_ok t [] = True"
| "clock_ok t ((now, op) # ops) = (t \<le> now \<and> clock_ok now ops)"

definition cache_abs :: "'a SimpleCache \<Rightarrow> 'a expiry_map" where
  "cache_abs c k = map_option (\<lambda>e. (ce_data e, ce_expiresAt e)) (map_of (sc_cache c) k)"

definition cache_wf :: "'a SimpleCache \<Rightarrow> bool" where
  "cache_wf c \<longleftrightarrow> distinct (map fst (sc_cache c))"

definition same_from :: "int \<Rightarrow> 'a expiry_map \<Rightarrow> 'a expiry_map \<Rightarrow> bool" where
  "same_from t m m' \<longleftrightarrow> (\<forall>t' k. t \<le> t' \<longrightarrow> live m t' k = live m' t' k)"


section \<open>Lemmas\<close>

lemma map_of_filter_value:
  assumes "distinct (map fst xs)"
  shows "map_of (filter (\<lambda>(k, v). P v) xs) k = (case map_of xs k of Some v \<Rightarrow> if P v then Some v else None | None \<Rightarrow> None)"
  using assms by (induction xs) (auto simp: map_of_eq_None_iff split: option.splits)

lemma cache_abs_set:
  "cache_abs (cache_set c now q d opts ttl) = (cache_abs c)(generateKey q opts \<mapsto> (d, now + effective_ttl c ttl))"
  by (rule ext) (simp add: cache_abs_def cache_set_def update_conv')

lemma cache_wf_step: "cache_wf c \<Longrightarrow> cache_wf (snd (cache_step c now op))"
  by (cases op)
    (auto simp: cache_wf_def cache_get_def cache_set_def clearExpired_def cache_clear_def Let_def
      distinct_update distinct_delete distinct_map_filter split: option.splits)

lemma step_defaultTTL [simp]: "sc_defaultTTL (snd (cache_step c now op)) = sc_defaultTTL c"
  by (cases op)
    (auto simp: cache_get_def cache_set_def clearExpired_def cache_clear_def Let_def split: option.splits)

lemma live_get: "fst (cache_get c now q opts) = live (cache_abs c) now (generateKey q opts)"
  by (auto simp: cache_get_def live_def cache_abs_def Let_def split: option.splits)

lemma same_get: "same_from now (cache_abs (snd (cache_get c now q opts))) (cache_abs c)"
  by (auto simp: same_from_def cache_get_def live_def cache_abs_def Let_def delete_conv' split: option.splits if_splits)

lemma same_clearExpired: "cache_wf c \<Longrightarrow> same_from now (cache_abs (clearExpired c now)) (cache_abs c)"
  unfolding same_from_def clearExpired_def live_def cache_abs_def cache_wf_def
  by (auto simp: map_of_filter_value [where P = "\<lambda>e. \<not> now > ce_expiresAt e", simplified] split: option.splits)

lemma same_from_upd: "same_from t m m' \<Longrightarrow> same_from t (m(k \<mapsto> v)) (m'(k \<mapsto> v))"
  by (auto simp: same_from_def live_def)

lemma same_from_later: "same_from t m m' \<Longrightarrow> t \<le> t' \<Longrightarrow> same_from t' m m'"
  by (auto simp: same_from_def)

lemma same_from_trans: "same_from t a b \<Longrightarrow> same_from t b c \<Longrightarrow> same_from t a c"
  by (auto simp: same_from_def)

lemma step_simulates:
  assumes "cache_wf c" "same_from now (cache_abs c) m"
  shows "fst (cache_step c now op) = fst (spec_step (sc_defaultTTL c) m now op)"
    and "same_from now (cache_abs (snd (cache_step c now op))) (snd (spec_step (sc_defaultTTL c) m now op))"
proof -
  show "fst (cache_step c now op) = fst (spec_step (sc_defaultTTL c) m now op)"
    using assms(2) by (cases op) (auto simp: live_get same_from_def)
  show "same_from now (cache_abs (snd (cache_step c now op))) (snd (spec_step (sc_defaultTTL c) m now op))"
  proof (cases op)
    case (OpGet q opts)
    then show ?thesis using same_from_trans [OF same_get assms(2)] by simp
  next
    case (OpSet q d opts ttl)
    then show ?thesis
      using same_from_upd [OF assms(2)] by (cases ttl) (simp_all add: cache_abs_set effective_ttl_def)
  next
    case OpClearExpired
    then show ?thesis using same_from_trans [OF same_clearExpired [OF assms(1)] assms(2)] by simp
  next
    case OpClear
    then show ?thesis by (simp add: cache_clear_def cache_abs_def same_from_def live_def)
  qed
qed


section \<open>Interface for clients\<close>

text \<open>
  What a client of a response cache relies on: a lookup answers from the view at the current time
  and does not change any later view, and a stored value is visible under every key with the same
  text until its lifetime ends.
\<close>

locale response_cache =
  fixes get :: "'c \<Rightarrow> int \<Rightarrow> 'k \<Rightarrow> 'v option \<times> 'c"
    and put :: "'c \<Rightarrow> int \<Rightarrow> 'k \<Rightarrow> 'v \<Rightarrow> 'c"
    and view :: "'c \<Rightarrow> int \<Rightarrow> 'k \<Rightarrow> 'v option"
    and lifetime :: "'c \<Rightarrow> int"
    and same_key :: "'k \<Rightarrow> 'k \<Rightarrow> bool"
  assumes get_result: "fst (get c t k) = view c t k"
    and get_view: "t \<le> t' \<Longrightarrow> view (snd (get c t k)) t' k' = view c t' k'"
    and put_view: "view (put c t k v) t' k' =
      (if same_key k k' then (if t' \<le> t + lifetime c then Some v else None) else view c t' k')"
    and lifetime_get: "lifetime (snd (get c t k)) = lifetime c"
    and same_key_refl: "same_key k k"
begin

lemma hit_after_put: "t' \<le> t + lifetime c \<Longrightarrow> fst (get (put c t k v) t' k) = Some v"
  by (simp add: get_result put_view same_key_refl)

lemma miss_after_expiry: "t + lifetime c < t' \<Longrightarrow> fst (get (put c t k v) t' k) = None"
  by (simp add: get_result put_view same_key_refl)

lemma put_other_key: "\<not> same_key k k' \<Longrightarrow> fst (get (put c t k v) t' k') = fst (get c t' k')"
  by (simp add: get_result put_view)

text \<open>A value computed after a miss is the answer to every lookup of its lifetime.\<close>

lemma hit_after_miss:
  "t \<le> u \<Longrightarrow> t' \<le> u + lifetime c \<Longrightarrow> fst (get (put (snd (get c t k)) u k v) t' k) = Some v"
  using hit_after_put [of t' u "snd (get c t k)" k v] by (simp add: lifetime_get)

end

definition get_pair :: "'a SimpleCache \<Rightarrow> int \<Rightarrow> string \<times> json option \<Rightarrow> 'a option \<times> 'a SimpleCache" where
  "get_pair c now k = cache_get c now (fst k) (snd k)"

definition set_pair :: "'a SimpleCache \<Rightarrow> int \<Rightarrow> string \<times> json option \<Rightarrow> 'a \<Rightarrow> 'a SimpleCache" where
  "set_pair c now k v = cache_set c now (fst k) v (snd k) None"

definition view_pair :: "'a SimpleCache \<Rightarrow> int \<Rightarrow> string \<times> json option \<Rightarrow> 'a option" where
  "view_pair c now k = live (cache_abs c) now (generateKey (fst k) (snd k))"

definition same_text :: "string \<times> json option \<Rightarrow> string \<times> json option \<Rightarrow> bool" where
  "same_text k k' \<longleftrightarrow> generateKey (fst k) (snd k) = generateKey (fst k') (snd k')"

lemma live_upd: "live (m(k \<mapsto> (d, e))) t k' = (if k' = k then (if t \<le> e then Some d else None) else live m t k')"
  by (simp add: live_def)

interpretation sc: response_cache get_pair set_pair view_pair sc_defaultTTL same_text
proof
  fix c :: "'a SimpleCache" and t t' :: int and k k' :: "string \<times> json option" and v :: 'a
  show "fst (get_pair c t k) = view_pair c t k"
    by (simp add: get_pair_def view_pair_def live_get)
  show "t \<le> t' \<Longrightarrow> view_pair (snd (get_pair c t k)) t' k' = view_pair c t' k'"
    using same_get [of t c "fst k" "snd k"] by (simp add: get_pair_def view_pair_def same_from_def)
  show "view_pair (set_pair c t k v) t' k' =
      (if same_text k k' then (if t' \<le> t + sc_defaultTTL c then Some v else None) else view_pair c t' k')"
    by (auto simp: set_pair_def view_pair_def same_text_def cache_abs_set effective_ttl_def live_upd)
  show "sc_defaultTTL (snd (get_pair c t k)) = sc_defaultTTL c"
    using step_defaultTTL [of c t "OpGet (fst k) (snd k)"] by (simp add: get_pair_def)
  show "same_text k k" by (simp add: same_text_def)
qed


text \<open>A key determines the query and the text of the options.\<close>

lemma generateKey_text:
  assumes "generateKey q opts = generateKey q' opts'"
    and "case opts of None \<Rightarrow> True | Some j \<Rightarrow> (\<exists>ps. j = JObj ps)"
    and "case opts' of None \<Rightarrow> True | Some j \<Rightarrow> (\<exists>ps. j = JObj ps)"
  shows "q = q' \<and> map_option stringify opts = map_option stringify opts'"
proof (cases opts)
  case None
  then show ?thesis using assms by (cases opts') (auto simp: generateKey_def dest: arg_cong [of _ _ last])
next
  case (Some j)
  then obtain ps where ps: "opts = Some (JObj ps)" using assms(2) by auto
  then obtain qs where qs: "opts' = Some (JObj qs)"
    using assms by (cases opts') (auto simp: generateKey_def dest: arg_cong [of _ _ last])
  have eq: "(q @ '':'') @ stringify (JObj ps) = (q' @ '':'') @ stringify (JObj qs)"
    using assms(1) ps qs by (simp add: generateKey_def)
  then consider u where "stringify (JObj ps) = u @ stringify (JObj qs)" "q' @ '':'' = (q @ '':'') @ u"
    | u where "stringify (JObj qs) = u @ stringify (JObj ps)" "q @ '':'' = (q' @ '':'') @ u"
    unfolding append_eq_append_conv2 by metis
  then show ?thesis
    by cases (use object_text_no_suffix ps qs in \<open>auto simp del: stringify.simps\<close>)
qed


section \<open>Properties\<close>

text \<open>
  Cache keys do not collide: two requests whose options are absent or an object have the same
  key only if they have the same query text and the same options text.
\<close>

theorem generateKey_inj:
  assumes "generateKey q opts = generateKey q' opts'"
    and "case opts of None \<Rightarrow> True | Some j \<Rightarrow> (\<exists>ps. j = JObj ps)"
    and "case opts' of None \<Rightarrow> True | Some j \<Rightarrow> (\<exists>ps. j = JObj ps)"
  shows "q = q' \<and> map_option stringify opts = map_option stringify opts'"
  by (rule generateKey_text [OF assms])

theorem generateKey_inj_witness:
  "\<exists>opts opts'. generateKey ''{ a }'' opts = generateKey ''{ a }'' opts' \<and> opts \<noteq> None
     \<and> ''{ a }'' = ''{ a }'' \<and> map_option stringify opts = map_option stringify opts'"
proof -
  let ?o = "Some (JObj [(''detailed'', JBool True), (''minSimilarity'', JNum 3 1)])"
  have "''{ a }'' = ''{ a }'' \<and> map_option stringify ?o = map_option stringify ?o"
    by (rule generateKey_inj [where opts = ?o and opts' = ?o]) auto
  then show ?thesis by blast
qed

text \<open>
  C7. The class implements the abstract map with expiry dates: on every sequence of operations
  whose clock does not run backwards, started from a cache with distinct keys, the answers are
  those of a map that stores the expiry date and never evicts. Evicting an expired entry, on a
  lookup or in \<open>clearExpired\<close>, cannot be observed.
\<close>

theorem cache_refines_spec:
  assumes "cache_wf c" "clock_ok t ops"
  shows "cache_run c ops = spec_run (sc_defaultTTL c) (cache_abs c) ops"
proof -
  have "cache_run c ops = spec_run (sc_defaultTTL c) m ops"
    if "cache_wf c" "clock_ok t ops" "same_from t (cache_abs c) m" for m
    using that
  proof (induction ops arbitrary: c m t)
    case (Cons p ops)
    obtain now op where p: "p = (now, op)" by (cases p)
    have now: "t \<le> now" "clock_ok now ops" using Cons.prems(2) p by auto
    note sim = step_simulates [OF Cons.prems(1) same_from_later [OF Cons.prems(3) now(1)], of op]
    show ?case
      using Cons.IH [OF cache_wf_step [OF Cons.prems(1)] now(2) sim(2)] sim(1) p
      by (simp add: case_prod_unfold Let_def)
  qed simp
  then show ?thesis using assms by (simp add: same_from_def)
qed

theorem cache_refines_spec_witness:
  "let ops = [(0, OpSet ''{ a }'' (7::nat) None (Some 10)), (5, OpGet ''{ a }'' None),
              (11, OpGet ''{ a }'' None), (12, OpClearExpired)]
   in cache_run (new_SimpleCache None) ops = [None, Some 7, None, None]
      \<and> cache_run (new_SimpleCache None) ops = spec_run 3600000 Map.empty ops"
proof -
  let ?ops = "[(0, OpSet ''{ a }'' (7::nat) None (Some 10)), (5, OpGet ''{ a }'' None),
              (11, OpGet ''{ a }'' None), (12, OpClearExpired)]"
  have "cache_run (new_SimpleCache None) ?ops = spec_run 3600000 Map.empty ?ops"
    using cache_refines_spec [of "new_SimpleCache None" 0 ?ops]
    by (simp add: new_SimpleCache_def cache_wf_def cache_abs_def [abs_def])
  moreover have "spec_run 3600000 Map.empty ?ops = [None, Some 7, None, None]"
    by (simp add: live_def)
  ultimately show ?thesis by simp
qed

text \<open>
  A stored response is returned, under the same query and options, exactly until its time to
  live has passed, where a time to live of zero or none means the default; storing it leaves every
  other key untouched.
\<close>

theorem cache_get_set:
  "fst (cache_get (cache_set c now q d opts ttl) now' q' opts') =
     (if generateKey q' opts' = generateKey q opts
      then (if now' \<le> now + (if ttl = None \<or> ttl = Some 0 then sc_defaultTTL c else the ttl) then Some d else None)
      else fst (cache_get c now' q' opts'))"
  by (cases ttl) (auto simp: live_get cache_abs_set live_upd effective_ttl_def)

text \<open>
  After \<open>clearExpired\<close> the size of the cache is the number of keys that still answer.
\<close>

theorem clearExpired_size:
  assumes "cache_wf c"
  shows "cache_size (clearExpired c now) = card {k. live (cache_abs c) now k \<noteq> None}"
proof -
  let ?c = "clearExpired c now"
  have wf: "distinct (map fst (sc_cache ?c))"
    using cache_wf_step [OF assms, of now OpClearExpired] by (simp add: cache_wf_def)
  have "{k. live (cache_abs c) now k \<noteq> None} = {k. live (cache_abs ?c) now k \<noteq> None}"
    using same_clearExpired [OF assms, of now] by (simp add: same_from_def)
  also have "\<dots> = set (map fst (sc_cache ?c))"
  proof -
    have "live (cache_abs ?c) now k \<noteq> None \<longleftrightarrow> map_of (sc_cache ?c) k \<noteq> None" for k
    proof (cases "map_of (sc_cache ?c) k")
      case None
      then show ?thesis by (simp add: live_def cache_abs_def)
    next
      case (Some e)
      then have "(k, e) \<in> set (sc_cache ?c)" by (rule map_of_SomeD)
      then have "now \<le> ce_expiresAt e" by (simp add: clearExpired_def)
      with Some show ?thesis by (simp add: live_def cache_abs_def)
    qed
    then show ?thesis by (simp only: map_of_eq_None_iff) auto
  qed
  finally show ?thesis using distinct_card [OF wf] by (simp add: cache_size_def)
qed

theorem clearExpired_size_witness:
  "let c = cache_set (cache_set (new_SimpleCache None) 0 ''a'' (1::nat) None (Some 5)) 0 ''b'' 2 None None
   in cache_wf c \<and> cache_size (clearExpired c 6) = card {k. live (cache_abs c) 6 k \<noteq> None}
      \<and> cache_size (clearExpired c 6) = 1"
proof -
  let ?c = "cache_set (cache_set (new_SimpleCache None) 0 ''a'' (1::nat) None (Some 5)) 0 ''b'' 2 None None"
  have "cache_wf ?c" by (simp add: cache_wf_def cache_set_def new_SimpleCache_def generateKey_def)
  moreover have "cache_size (clearExpired ?c 6) = 1"
    by (simp add: cache_size_def clearExpired_def cache_set_def new_SimpleCache_def generateKey_def effective_ttl_def)
  ultimately show ?thesis using clearExpired_size [of ?c 6] by simp
qed

end
