(* ===== verification/ResLens_Client.thy ===== *)
theory ResLens_Client
  imports JS_Prelude
begin

text \<open>
  \<open>graphq-llm/src/reslens/client.ts\<close>: the store of query execution metrics. The client keeps
  every metric in a \<open>Map\<close> by query id and the latest hundred in an array, newest first; when a
  ResLens API is configured the reads go there first and fall back to the local state. The API
  is a service outside the repository: its response is an argument of the operation.
\<close>

section \<open>Data\<close>

record ResourceUsage =
  ru_cpu :: "rat option"
  ru_memory :: "rat option"
  ru_network :: "rat option"

record QueryExecutionMetrics =
  m_queryId :: string
  m_query :: string
  m_executionTime :: rat
  m_timestamp :: int
  m_success :: bool
  m_error :: "string option"
  m_resultSize :: "nat option"
  m_cacheHit :: "bool option"
  m_resourceUsage :: "ResourceUsage option"

text \<open>\<open>Partial<QueryExecutionMetrics>\<close>: the properties that are present.\<close>

record PartialMetrics =
  pm_queryId :: "string option"
  pm_query :: "string option"
  pm_executionTime :: "rat option"
  pm_timestamp :: "int option"
  pm_success :: "bool option"
  pm_error :: "string option"
  pm_resultSize :: "nat option"
  pm_cacheHit :: "bool option"
  pm_resourceUsage :: "ResourceUsage option"

definition no_data :: PartialMetrics where
  "no_data = \<lparr>pm_queryId = None, pm_query = None, pm_executionTime = None, pm_timestamp = None,
     pm_success = None, pm_error = None, pm_resultSize = None, pm_cacheHit = None, pm_resourceUsage = None\<rparr>"

record ResLensClient =
  rl_metricsStorage :: "(string \<times> QueryExecutionMetrics) list"
  rl_recentQueries :: "QueryExecutionMetrics list"
  rl_apiUrl :: "string option"

text \<open>
  What a request to the API gives: it throws (also when the body cannot be parsed), answers with a
  status in the 2xx range and a body, or with another status. A metric in an array body has an
  optional time stamp.
\<close>

datatype 'b api_response = ApiThrows | ApiOk 'b | ApiStatus nat

datatype list_body = BodyArray "(int option \<times> QueryExecutionMetrics) list" | BodyOther

definition new_ResLensClient :: "string option \<Rightarrow> ResLensClient" where
  "new_ResLensClient url = \<lparr>rl_metricsStorage = [], rl_recentQueries = [], rl_apiUrl = url\<rparr>"

text \<open>\<open>this.useApi && this.apiUrl\<close>: an empty URL counts as no URL.\<close>

definition use_api :: "ResLensClient \<Rightarrow> bool" where
  "use_api c \<longleftrightarrow> rl_apiUrl c \<noteq> None \<and> rl_apiUrl c \<noteq> Some []"


section \<open>Operations\<close>

definition captureMetrics ::
  "ResLensClient \<Rightarrow> int \<Rightarrow> string \<Rightarrow> string \<Rightarrow> rat \<Rightarrow> bool \<Rightarrow> PartialMetrics \<Rightarrow> QueryExecutionMetrics \<times> ResLensClient" where
  "captureMetrics c now queryId query executionTime success extra =
     (let metrics =
        \<lparr>m_queryId = or_default (pm_queryId extra) queryId,
         m_query = or_default (pm_query extra) query,
         m_executionTime = or_default (pm_executionTime extra) executionTime,
         m_timestamp = or_default (pm_timestamp extra) now,
         m_success = or_default (pm_success extra) success,
         m_error = pm_error extra,
         m_resultSize = pm_resultSize extra,
         m_cacheHit = pm_cacheHit extra,
         m_resourceUsage = pm_resourceUsage extra\<rparr>;
          recent = metrics # rl_recentQueries c
      in (metrics,
          c\<lparr>rl_metricsStorage := AList.update queryId metrics (rl_metricsStorage c),
            rl_recentQueries := (if length recent > 100 then take 100 recent else recent)\<rparr>))"

definition getMetrics ::
  "ResLensClient \<Rightarrow> QueryExecutionMetrics api_response \<Rightarrow> string \<Rightarrow> QueryExecutionMetrics option" where
  "getMetrics c resp queryId =
     (let local_value = map_of (rl_metricsStorage c) queryId
      in if use_api c
         then (case resp of
                 ApiOk m \<Rightarrow> Some m
               | ApiStatus st \<Rightarrow> if st = 404 then None else local_value
               | ApiThrows \<Rightarrow> local_value)
         else local_value)"

text \<open>\<open>timestamp: m.timestamp ? new Date(m.timestamp) : new Date()\<close>.\<close>

definition stamp_all :: "int \<Rightarrow> (int option \<times> QueryExecutionMetrics) list \<Rightarrow> QueryExecutionMetrics list" where
  "stamp_all now ms = map (\<lambda>(t, m). m\<lparr>m_timestamp := or_default t now\<rparr>) ms"

definition list_response ::
  "ResLensClient \<Rightarrow> int \<Rightarrow> list_body api_response \<Rightarrow> QueryExecutionMetrics list \<Rightarrow> QueryExecutionMetrics list" where
  "list_response c now resp local_value =
     (if use_api c
      then (case resp of
              ApiOk (BodyArray ms) \<Rightarrow> stamp_all now ms
            | ApiOk BodyOther \<Rightarrow> []
            | ApiStatus st \<Rightarrow> local_value
            | ApiThrows \<Rightarrow> local_value)
      else local_value)"

definition getQueryStats ::
  "ResLensClient \<Rightarrow> int \<Rightarrow> list_body api_response \<Rightarrow> string \<Rightarrow> QueryExecutionMetrics list" where
  "getQueryStats c now resp pattern =
     list_response c now resp
       (filter (\<lambda>m. str_includes (m_query m) pattern) (map snd (rl_metricsStorage c)))"

definition getRecentQueries ::
  "ResLensClient \<Rightarrow> int \<Rightarrow> list_body api_response \<Rightarrow> nat \<Rightarrow> QueryExecutionMetrics list" where
  "getRecentQueries c now resp limit = list_response c now resp (take limit (rl_recentQueries c))"

definition reslens_healthCheck :: "ResLensClient \<Rightarrow> unit api_response \<Rightarrow> bool" where
  "reslens_healthCheck c resp =
     (if use_api c then (case resp of ApiOk u \<Rightarrow> True | ApiStatus st \<Rightarrow> False | ApiThrows \<Rightarrow> False) else True)"

definition clearStorage :: "ResLensClient \<Rightarrow> ResLensClient" where
  "clearStorage c = c\<lparr>rl_metricsStorage := [], rl_recentQueries := []\<rparr>"

definition getAllMetrics :: "ResLensClient \<Rightarrow> QueryExecutionMetrics list" where
  "getAllMetrics c = map snd (rl_metricsStorage c)"



section \<open>A sequence of captures\<close>

record Capture =
  cp_now :: int
  cp_id :: string
  cp_query :: string
  cp_time :: rat
  cp_success :: bool
  cp_extra :: PartialMetrics

definition capture :: "ResLensClient \<Rightarrow> Capture \<Rightarrow> ResLensClient" where
  "capture c x = snd (captureMetrics c (cp_now x) (cp_id x) (cp_query x) (cp_time x) (cp_success x) (cp_extra x))"

definition captured :: "Capture \<Rightarrow> QueryExecutionMetrics" where
  "captured x =
     fst (captureMetrics (new_ResLensClient None) (cp_now x) (cp_id x) (cp_query x) (cp_time x) (cp_success x) (cp_extra x))"

lemma captureMetrics_fst:
  "fst (captureMetrics c now i q t s e) = fst (captureMetrics c' now i q t s e)"
  by (simp add: captureMetrics_def Let_def)

lemma capture_storage: "rl_metricsStorage (capture c x) = AList.update (cp_id x) (captured x) (rl_metricsStorage c)"
  by (simp add: capture_def captured_def captureMetrics_def Let_def)

lemma capture_recent: "rl_recentQueries (capture c x) = take 100 (captured x # rl_recentQueries c)"
  by (simp add: capture_def captured_def captureMetrics_def Let_def)

lemma capture_apiUrl [simp]: "rl_apiUrl (capture c x) = rl_apiUrl c"
  by (simp add: capture_def captureMetrics_def Let_def)

lemma captures_apiUrl [simp]: "rl_apiUrl (foldl capture c xs) = rl_apiUrl c"
  by (induction xs arbitrary: c) auto

lemma captures_storage:
  "map_of (rl_metricsStorage (foldl capture c xs)) k =
     (case map_of (rev (map (\<lambda>x. (cp_id x, captured x)) xs)) k of
        Some m \<Rightarrow> Some m | None \<Rightarrow> map_of (rl_metricsStorage c) k)"
  by (induction xs arbitrary: c) (auto simp: capture_storage update_conv' map_add_def split: option.splits)

lemma captures_recent:
  "xs \<noteq> [] \<Longrightarrow> rl_recentQueries (foldl capture c xs) = take 100 (rev (map captured xs) @ rl_recentQueries c)"
proof (induction xs rule: rev_induct)
  case (snoc x xs)
  show ?case
  proof (cases xs)
    case Nil
    then show ?thesis by (simp add: capture_recent)
  next
    case (Cons y ys)
    then show ?thesis using snoc by (simp add: capture_recent take_Cons' min_def)
  qed
qed simp

lemma captures_keys: "fst ` set (rl_metricsStorage (foldl capture c xs)) = fst ` set (rl_metricsStorage c) \<union> cp_id ` set xs"
  by (induction xs arbitrary: c) (auto simp: capture_storage dom_update)


section \<open>Properties\<close>

text \<open>
  C37. The array of recent queries is a window of one hundred: when no API is configured, what is
  read after any non-empty sequence of captures is the newest hundred of what was captured,
  newest first, cut to the requested limit.
\<close>

theorem recent_queries_window:
  assumes "xs \<noteq> []" "\<not> use_api c"
  shows "getRecentQueries (foldl capture c xs) now resp limit
           = take (min limit 100) (rev (map captured xs) @ rl_recentQueries c)"
proof -
  have "\<not> use_api (foldl capture c xs)" using assms(2) by (simp add: use_api_def)
  then show ?thesis using captures_recent [OF assms(1)]
    by (simp add: getRecentQueries_def list_response_def del: take_append)
qed

theorem recent_queries_window_witness:
  "let x = \<lparr>cp_now = 0, cp_id = ''q1'', cp_query = ''{ a }'', cp_time = 5, cp_success = True, cp_extra = no_data\<rparr>
   in getRecentQueries (foldl capture (new_ResLensClient None) [x, x]) 0 ApiThrows 1 = [captured x]"
  using recent_queries_window [of "[x, x]" "new_ResLensClient None" 0 ApiThrows 1 for x]
  by (simp add: use_api_def new_ResLensClient_def Let_def)

text \<open>
  A metric is found under its query id: the local lookup after any sequence of captures gives
  the last metric captured under that id, and the map of metrics, unlike the array, keeps one
  entry for every id ever captured.
\<close>

theorem metrics_by_id:
  assumes "rl_metricsStorage c = []" "\<not> use_api c"
  shows "getMetrics (foldl capture c xs) resp k = map_of (rev (map (\<lambda>x. (cp_id x, captured x)) xs)) k
    \<and> length (getAllMetrics (foldl capture c xs)) \<ge> card (cp_id ` set xs)"
proof
  have "\<not> use_api (foldl capture c xs)" using assms(2) by (simp add: use_api_def)
  then show "getMetrics (foldl capture c xs) resp k = map_of (rev (map (\<lambda>x. (cp_id x, captured x)) xs)) k"
    using captures_storage [of c xs k] assms(1) by (simp add: getMetrics_def split: option.splits)
  have "card (cp_id ` set xs) = card (fst ` set (rl_metricsStorage (foldl capture c xs)))"
    using captures_keys [of c xs] assms(1) by simp
  also have "\<dots> \<le> length (rl_metricsStorage (foldl capture c xs))"
    by (metis card_image_le card_length finite_set order_trans)
  finally show "card (cp_id ` set xs) \<le> length (getAllMetrics (foldl capture c xs))"
    by (simp add: getAllMetrics_def)
qed

theorem metrics_by_id_witness:
  "let x = \<lparr>cp_now = 0, cp_id = ''q1'', cp_query = ''{ a }'', cp_time = 5, cp_success = True, cp_extra = no_data\<rparr>;
       y = x\<lparr>cp_time := 7\<rparr>
   in getMetrics (foldl capture (new_ResLensClient None) [x, y]) ApiThrows ''q1'' = Some (captured y)"
  using metrics_by_id [of "new_ResLensClient None" "[x, y]" ApiThrows "''q1''" for x y]
  by (simp add: use_api_def new_ResLensClient_def Let_def)

end
