(* ===== verification/Efficiency_Estimator.thy ===== *)
theory Efficiency_Estimator
  imports Query_Analyzer ResLens_Client
begin

text \<open>
  \<open>graphq-llm/src/services/efficiency-estimator.ts\<close>: execution time, resource use, score,
  confidence and category of a query, from its structural analysis and from the metrics of
  similar queries. The estimator relies on the analyzer through the interface
  \<open>structural_analysis\<close> and on the metrics store through the list it returns.
\<close>

section \<open>Data\<close>

record SimilarQuery =
  sq_query :: string
  sq_executionTime :: rat
  sq_similarity :: rat

record UsageEstimate =
  ue_cpu :: "int option"
  ue_memory :: "int option"
  ue_network :: "int option"

datatype category = Excellent | Good | Moderate | Poor | Critical

record EfficiencyEstimate =
  ee_estimatedExecutionTime :: int
  ee_estimatedResourceUsage :: UsageEstimate
  ee_efficiencyScore :: int
  ee_confidence :: rat
  ee_similarQueries :: "SimilarQuery list option"
  ee_performanceCategory :: category
  ee_recommendations :: "string list option"

record EstimationOptions =
  eo_includeSimilarQueries :: "bool option"
  eo_useLiveStats :: "bool option"


section \<open>Similar queries\<close>

text \<open>One attempt of \<open>/(?:query|mutation|subscription)\s+(\w+)/i\<close>: the captured name.\<close>

definition operation_at :: "string \<Rightarrow> string option" where
  "operation_at s =
     (let l = toLowerCase s;
          kw = (if startsWith l ''query'' then Some 5 else if startsWith l ''mutation'' then Some 8
                else if startsWith l ''subscription'' then Some 12 else None)
      in case kw of
           None \<Rightarrow> None
         | Some n \<Rightarrow>
             (let r = drop n s; w = takeWhile is_word (dropWhile is_ws r)
              in if takeWhile is_ws r \<noteq> [] \<and> w \<noteq> [] then Some w else None))"

fun operation_match :: "string \<Rightarrow> string option" where
  "operation_match [] = None"
| "operation_match (c # cs) =
     (case operation_at (c # cs) of Some w \<Rightarrow> Some w | None \<Rightarrow> operation_match cs)"

text \<open>\<open>/\{?\s*(\w+)/\<close>: an optional brace, white space, a name.\<close>

definition first_field_at :: "string \<Rightarrow> string option" where
  "first_field_at s =
     (let r = (if startsWith s ''{'' then tl s else s); w = takeWhile is_word (dropWhile is_ws r)
      in if w \<noteq> [] then Some w else None)"

fun first_field_match :: "string \<Rightarrow> string option" where
  "first_field_match [] = None"
| "first_field_match (c # cs) =
     (case first_field_at (c # cs) of Some w \<Rightarrow> Some w | None \<Rightarrow> first_field_match cs)"

definition extractQueryPattern :: "string \<Rightarrow> string" where
  "extractQueryPattern q =
     (case operation_match q of
        Some w \<Rightarrow> w
      | None \<Rightarrow> (case first_field_match q of Some w \<Rightarrow> w | None \<Rightarrow> take 50 q))"

definition query_words :: "string \<Rightarrow> string list" where
  "query_words q = set_values (split_ws (trim (collapse_ws (toLowerCase q))))"

definition calculateQuerySimilarity :: "string \<Rightarrow> string \<Rightarrow> rat option" where
  "calculateQuerySimilarity query1 query2 =
     (let words1 = query_words query1; words2 = query_words query2;
          intersection = filter (\<lambda>w. w \<in> set words2) words1;
          union = set_values (words1 @ words2)
      in js_div (of_nat (length intersection)) (of_nat (length union)))"

text \<open>A comparison with \<open>NaN\<close> is false, so an undefined similarity would be filtered out.\<close>

definition rank_similar :: "string \<Rightarrow> QueryExecutionMetrics list \<Rightarrow> SimilarQuery list" where
  "rank_similar q metrics =
     take 5 (sort_desc sq_similarity
       (filter (\<lambda>sq. sq_similarity sq \<ge> 3/10)
         (concat (map (\<lambda>m. case calculateQuerySimilarity q (m_query m) of
                         None \<Rightarrow> []
                       | Some s \<Rightarrow> [\<lparr>sq_query = m_query m, sq_executionTime = m_executionTime m, sq_similarity = s\<rparr>])
            metrics))))"


section \<open>The estimate\<close>

definition estimateExecutionTime :: "QueryAnalysis \<Rightarrow> SimilarQuery list \<Rightarrow> int" where
  "estimateExecutionTime a similar =
     (let baseTime = of_nat (qa_fieldCount a) * 10 + of_nat (qa_depth a) * 20
            + (if qa_complexity a = High then 50 else if qa_complexity a = Medium then 25 else 0) :: rat;
          totalSimilarity = foldl (\<lambda>s sq. s + sq_similarity sq) 0 similar;
          weightedTime = foldl (\<lambda>s sq. s + sq_executionTime sq * sq_similarity sq) 0 similar
      in if similar \<noteq> [] \<and> totalSimilarity > 0
         then js_round (weightedTime / totalSimilarity * (7/10) + baseTime * (3/10))
         else js_round baseTime)"

definition estimateResourceUsage :: "QueryAnalysis \<Rightarrow> int \<Rightarrow> UsageEstimate" where
  "estimateResourceUsage a executionTime =
     (let cpu = min 100 (of_nat (qa_fieldCount a) * 2 + of_int executionTime / 10) :: rat;
          memory = of_nat (qa_fieldCount a) * 5 + of_nat (qa_depth a) * 10 :: rat;
          network = of_nat (qa_fieldCount a) * 2 :: rat
      in \<lparr>ue_cpu = Some (js_round cpu), ue_memory = Some (js_round memory), ue_network = Some (js_round network)\<rparr>)"

text \<open>\<open>u && u > n\<close>: absent and zero are both false.\<close>

definition exceeds :: "int option \<Rightarrow> int \<Rightarrow> bool" where
  "exceeds u n \<longleftrightarrow> (case u of None \<Rightarrow> False | Some x \<Rightarrow> x \<noteq> 0 \<and> x > n)"

definition calculateEfficiencyScore :: "QueryAnalysis \<Rightarrow> int \<Rightarrow> UsageEstimate \<Rightarrow> int" where
  "calculateEfficiencyScore a executionTime usage =
     (let s0 = 100 :: int;
          s1 = s0 - (if executionTime > 1000 then 30 else if executionTime > 500 then 20
                     else if executionTime > 200 then 10 else 0);
          s2 = s1 - (if exceeds (ue_cpu usage) 80 then 15 else if exceeds (ue_cpu usage) 50 then 10 else 0);
          s3 = s2 - (if exceeds (ue_memory usage) 100 then 15 else if exceeds (ue_memory usage) 50 then 10 else 0);
          s4 = s3 - (if qa_fieldCount a > 30 then 20 else if qa_fieldCount a > 15 then 10 else 0);
          s5 = s4 - (if qa_depth a > 5 then 20 else if qa_depth a > 3 then 10 else 0);
          s6 = s5 - (if qa_complexity a = High then 15 else if qa_complexity a = Medium then 10 else 0);
          s7 = s6 - min 20 (int (length (qa_opportunities a)) * 5)
      in max 0 (min 100 s7))"

definition calculateConfidence :: "QueryAnalysis \<Rightarrow> SimilarQuery list \<Rightarrow> bool \<Rightarrow> rat" where
  "calculateConfidence a similar useLiveStats =
     min 1 (5/10 + (if similar \<noteq> [] then 3/10 else 0)
        + (if qa_fieldCount a < 10 \<and> qa_depth a < 3 then 1/10 else 0)
        + (if useLiveStats then 1/10 else 0))"

definition determinePerformanceCategory :: "int \<Rightarrow> int \<Rightarrow> category" where
  "determinePerformanceCategory efficiencyScore executionTime =
     (if efficiencyScore \<ge> 80 \<and> executionTime < 200 then Excellent
      else if efficiencyScore \<ge> 60 \<and> executionTime < 500 then Good
      else if efficiencyScore \<ge> 40 \<and> executionTime < 1000 then Moderate
      else if efficiencyScore \<ge> 20 then Poor
      else Critical)"

definition generateRecommendations :: "QueryAnalysis \<Rightarrow> int \<Rightarrow> int \<Rightarrow> string list" where
  "generateRecommendations a efficiencyScore executionTime =
     (if efficiencyScore < 60 then [''Consider optimizing this query to improve performance''] else [])
   @ (if executionTime > 1000 then [''Query execution time is high - consider adding filters or pagination''] else [])
   @ (if qa_fieldCount a > 20 then [''Reduce the number of fields requested (over-fetching)''] else [])
   @ (if qa_depth a > 5 then [''Reduce query depth to avoid N+1 problems''] else [])
   @ (if length (qa_opportunities a) > 0 then take 3 (map opp_description (qa_opportunities a)) else [])"

definition some_if_ne :: "'a list \<Rightarrow> 'a list option" where
  "some_if_ne xs = (if length xs > 0 then Some xs else None)"

definition estimateEfficiency ::
  "ResLensClient \<Rightarrow> bool \<Rightarrow> int \<Rightarrow> list_body api_response \<Rightarrow> string \<Rightarrow> EstimationOptions \<Rightarrow> EfficiencyEstimate" where
  "estimateEfficiency client liveMode now resp q opts =
     (let analysis = analyze q;
          similar = (if or_default (eo_includeSimilarQueries opts) True
                     then rank_similar q (getQueryStats client now resp (extractQueryPattern q)) else []);
          time = estimateExecutionTime analysis similar;
          usage = estimateResourceUsage analysis time;
          score = calculateEfficiencyScore analysis time usage;
          recs = generateRecommendations analysis score time
      in \<lparr>ee_estimatedExecutionTime = time,
          ee_estimatedResourceUsage = usage,
          ee_efficiencyScore = score,
          ee_confidence = calculateConfidence analysis similar (or_default (eo_useLiveStats opts) liveMode),
          ee_similarQueries = some_if_ne similar,
          ee_performanceCategory = determinePerformanceCategory score time,
          ee_recommendations = some_if_ne recs\<rparr>)"

definition estimator_checkAvailability :: "ResLensClient \<Rightarrow> unit api_response \<Rightarrow> bool \<times> bool" where
  "estimator_checkAvailability client resp = (reslens_healthCheck client resp, True)"



section \<open>Interface to the analyzer\<close>

text \<open>
  What the estimator gets from a structural analysis: the analysed query itself, a depth of at
  most 1, at most four opportunities, and a level that is low below ten fields.
\<close>

locale structural_analysis =
  fixes analysis :: "string \<Rightarrow> QueryAnalysis"
  assumes analysed: "qa_query (analysis q) = q"
    and depth_le: "qa_depth (analysis q) \<le> 1"
    and opportunities_le: "length (qa_opportunities (analysis q)) \<le> 4"
    and low_iff: "qa_complexity (analysis q) = Low \<longleftrightarrow> qa_fieldCount (analysis q) < 10"
begin

lemma no_depth_recommendation:
  "''Reduce query depth to avoid N+1 problems'' \<in> set (generateRecommendations (analysis q) s t) \<Longrightarrow>
     ''Reduce query depth to avoid N+1 problems'' \<in> opp_description ` set (qa_opportunities (analysis q))"
  using depth_le [of q] by (auto simp: generateRecommendations_def split: if_splits dest: in_set_takeD)

lemma recommendations_le: "length (generateRecommendations (analysis q) s t) \<le> 6"
  using depth_le [of q] by (simp add: generateRecommendations_def min_le_iff_disj)

lemma confidence_simple:
  "calculateConfidence (analysis q) similar live =
     5/10 + (if similar \<noteq> [] then 3/10 else 0) + (if qa_complexity (analysis q) = Low then 1/10 else 0)
          + (if live then 1/10 else 0)"
  using depth_le [of q] by (simp add: calculateConfidence_def low_iff)

lemma score_small_query:
  assumes "qa_fieldCount (analysis q) < 10" "t \<le> 200"
  shows "calculateEfficiencyScore (analysis q) t (estimateResourceUsage (analysis q) t) \<ge> 70"
proof -
  let ?a = "analysis q"
  have f: "(of_nat (qa_fieldCount ?a) :: rat) \<le> 9"
    using assms(1) of_nat_mono [of "qa_fieldCount ?a" 9, where 'a = rat] by simp
  have t: "(of_int t :: rat) \<le> 200" using assms(2) of_int_le_iff [of t 200, where 'a = rat] by simp
  have "js_round (min 100 (of_nat (qa_fieldCount ?a) * 2 + of_int t / 10)) \<le> js_round (of_int 38)"
    using f t by (intro js_round_mono) simp
  then have cpu: "\<not> exceeds (ue_cpu (estimateResourceUsage ?a t)) 50" "\<not> exceeds (ue_cpu (estimateResourceUsage ?a t)) 80"
    unfolding js_round_of_int by (simp_all add: exceeds_def estimateResourceUsage_def Let_def)
  have d: "(of_nat (qa_depth ?a) :: rat) \<le> 1"
    using depth_le [of q] of_nat_mono [of "qa_depth ?a" 1, where 'a = rat] by simp
  have "js_round (of_nat (qa_fieldCount ?a) * 5 + of_nat (qa_depth ?a) * 10) \<le> js_round (of_int 55)"
    using f d by (intro js_round_mono) simp
  then have mem: "\<not> exceeds (ue_memory (estimateResourceUsage ?a t)) 100"
    unfolding js_round_of_int by (simp add: exceeds_def estimateResourceUsage_def Let_def)
  have "qa_complexity ?a = Low" using assms(1) by (simp add: low_iff)
  then show ?thesis
    using assms depth_le [of q] opportunities_le [of q] cpu mem
    by (simp add: calculateEfficiencyScore_def Let_def)
qed

end

interpretation qa: structural_analysis analyze
proof
  fix q
  show "qa_query (analyze q) = q" by simp
  show "qa_depth (analyze q) \<le> 1" by (simp add: calculateDepth_eq)
  have "length (map opp_type (qa_opportunities (analyze q))) \<le> 4"
    by (simp only: analyze_opportunity_types) (simp add: Let_def)
  then show "length (qa_opportunities (analyze q)) \<le> 4" by simp
  show "qa_complexity (analyze q) = Low \<longleftrightarrow> qa_fieldCount (analyze q) < 10"
    by (simp add: analyze_level)
qed


section \<open>Lemmas\<close>

lemma query_words_ne [simp]: "query_words q \<noteq> []"
  by (simp add: query_words_def)

lemma similarity_alt:
  "calculateQuerySimilarity q1 q2 =
     Some (of_nat (card {w \<in> set (query_words q1). w \<in> set (query_words q2)})
           / of_nat (card (set (query_words q1) \<union> set (query_words q2))))"
proof -
  have "length (filter (\<lambda>w. w \<in> set (query_words q2)) (query_words q1)) = card {w \<in> set (query_words q1). w \<in> set (query_words q2)}"
    unfolding query_words_def by (simp add: js_length)
  then show ?thesis by (simp add: calculateQuerySimilarity_def js_div_def js_length Let_def)
qed

definition to_similar :: "string \<Rightarrow> QueryExecutionMetrics \<Rightarrow> SimilarQuery" where
  "to_similar q m = \<lparr>sq_query = m_query m, sq_executionTime = m_executionTime m,
     sq_similarity = the (calculateQuerySimilarity q (m_query m))\<rparr>"

lemma to_similar_sel [simp]:
  "sq_query (to_similar q m) = m_query m" "sq_executionTime (to_similar q m) = m_executionTime m"
  by (simp_all add: to_similar_def)

lemma similarity_Some: "calculateQuerySimilarity q (m_query m) = Some (sq_similarity (to_similar q m))"
  by (simp add: to_similar_def similarity_alt)

lemma rank_similar_eq:
  "rank_similar q ms =
     take 5 (sort_desc sq_similarity (filter (\<lambda>sq. sq_similarity sq \<ge> 3/10) (map (to_similar q) ms)))"
proof -
  have "(case calculateQuerySimilarity q (m_query m) of None \<Rightarrow> []
         | Some s \<Rightarrow> [\<lparr>sq_query = m_query m, sq_executionTime = m_executionTime m, sq_similarity = s\<rparr>])
       = [to_similar q m]" for m
    unfolding to_similar_def by (simp add: similarity_alt)
  then show ?thesis unfolding rank_similar_def by (simp only: concat_map_singleton)
qed

lemma foldl_sum: "foldl (\<lambda>s x. s + f x) (a::rat) xs = a + sum_list (map f xs)"
  by (induction xs arbitrary: a) simp_all

lemma weighted_average_bounds:
  assumes "\<forall>x \<in> set xs. 0 < w x" "\<forall>x \<in> set xs. lo \<le> v x \<and> v x \<le> (hi::rat)" "xs \<noteq> []"
  shows "0 < sum_list (map w xs)"
    "lo \<le> sum_list (map (\<lambda>x. v x * w x) xs) / sum_list (map w xs)"
    "sum_list (map (\<lambda>x. v x * w x) xs) / sum_list (map w xs) \<le> hi"
proof -
  show pos: "0 < sum_list (map w xs)"
    using assms(3,1)
  proof (induction xs rule: list_nonempty_induct)
    case (cons x xs)
    then show ?case by (simp add: add_pos_pos)
  qed simp
  have "lo * sum_list (map w xs) \<le> sum_list (map (\<lambda>x. v x * w x) xs)"
    unfolding sum_list_const_mult [symmetric]
    by (rule sum_list_mono) (use assms in \<open>auto intro: mult_right_mono less_imp_le\<close>)
  then show "lo \<le> sum_list (map (\<lambda>x. v x * w x) xs) / sum_list (map w xs)"
    using pos by (simp add: pos_le_divide_eq)
  have "sum_list (map (\<lambda>x. v x * w x) xs) \<le> hi * sum_list (map w xs)"
    unfolding sum_list_const_mult [symmetric]
    by (rule sum_list_mono) (use assms in \<open>auto intro: mult_right_mono less_imp_le\<close>)
  then show "sum_list (map (\<lambda>x. v x * w x) xs) / sum_list (map w xs) \<le> hi"
    using pos by (simp add: pos_divide_le_eq)
qed

text \<open>The score as 100 minus independent penalties.\<close>

definition time_penalty :: "int \<Rightarrow> int" where
  "time_penalty t = (if t > 1000 then 30 else if t > 500 then 20 else if t > 200 then 10 else 0)"

definition cpu_penalty :: "int option \<Rightarrow> int" where
  "cpu_penalty u = (if exceeds u 80 then 15 else if exceeds u 50 then 10 else 0)"

definition structure_penalty :: "QueryAnalysis \<Rightarrow> int option \<Rightarrow> int" where
  "structure_penalty a memory =
     (if exceeds memory 100 then 15 else if exceeds memory 50 then 10 else 0)
   + (if qa_fieldCount a > 30 then 20 else if qa_fieldCount a > 15 then 10 else 0)
   + (if qa_depth a > 5 then 20 else if qa_depth a > 3 then 10 else 0)
   + (if qa_complexity a = High then 15 else if qa_complexity a = Medium then 10 else 0)
   + min 20 (int (length (qa_opportunities a)) * 5)"

lemma penalties_nonneg: "0 \<le> time_penalty t" "0 \<le> cpu_penalty u" "0 \<le> structure_penalty a m"
  by (simp_all add: time_penalty_def cpu_penalty_def structure_penalty_def)

lemma efficiencyScore_penalties:
  "calculateEfficiencyScore a t u
     = max 0 (100 - time_penalty t - cpu_penalty (ue_cpu u) - structure_penalty a (ue_memory u))"
proof -
  have "calculateEfficiencyScore a t u
     = max 0 (min 100 (100 - time_penalty t - cpu_penalty (ue_cpu u) - structure_penalty a (ue_memory u)))"
    unfolding calculateEfficiencyScore_def Let_def time_penalty_def cpu_penalty_def structure_penalty_def
    by (simp only: diff_diff_eq add.assoc)
  then show ?thesis
    using penalties_nonneg(1) [of t] penalties_nonneg(2) [of "ue_cpu u"] penalties_nonneg(3) [of a "ue_memory u"]
    by simp
qed

lemma time_penalty_mono: "t \<le> t' \<Longrightarrow> time_penalty t \<le> time_penalty t'"
  by (simp add: time_penalty_def)

lemma cpu_penalty_mono: "x \<le> y \<Longrightarrow> cpu_penalty (Some x) \<le> cpu_penalty (Some y)"
  by (simp add: cpu_penalty_def exceeds_def)

lemma cpu_mono:
  assumes "t \<le> t'"
  shows "the (ue_cpu (estimateResourceUsage a t)) \<le> the (ue_cpu (estimateResourceUsage a t'))"
proof -
  have "(of_int t :: rat) \<le> of_int t'" using assms by simp
  then have "js_round (min 100 (of_nat (qa_fieldCount a) * 2 + of_int t / 10)) \<le> js_round (min 100 (of_nat (qa_fieldCount a) * 2 + of_int t' / 10))"
    by (intro js_round_mono min.mono) simp_all
  then show ?thesis by (simp add: estimateResourceUsage_def Let_def)
qed



section \<open>Properties\<close>

text \<open>
  The word-overlap similarity of two queries is always a number between 0 and 1 (never
  \<open>NaN\<close>, since splitting any string gives at least one word), is symmetric, and is 1 exactly
  when the two queries have the same set of words.
\<close>

theorem similarity_range:
  "\<exists>s. calculateQuerySimilarity q1 q2 = Some s \<and> calculateQuerySimilarity q2 q1 = Some s
     \<and> 0 \<le> s \<and> s \<le> 1 \<and> (s = 1 \<longleftrightarrow> set (query_words q1) = set (query_words q2))"
proof -
  let ?A = "set (query_words q1)" let ?B = "set (query_words q2)"
  let ?s = "of_nat (card {w \<in> ?A. w \<in> ?B}) / of_nat (card (?A \<union> ?B)) :: rat"
  have ne: "?A \<union> ?B \<noteq> {}" by simp
  have sym: "{w \<in> ?B. w \<in> ?A} = {w \<in> ?A. w \<in> ?B}" "?B \<union> ?A = ?A \<union> ?B" by auto
  have "?s = 1 \<longleftrightarrow> card {w \<in> ?A. w \<in> ?B} = card (?A \<union> ?B)" using ne by auto
  also have "\<dots> \<longleftrightarrow> {w \<in> ?A. w \<in> ?B} = ?A \<union> ?B"
    using card_subset_eq [of "?A \<union> ?B" "{w \<in> ?A. w \<in> ?B}"] by auto
  also have "\<dots> \<longleftrightarrow> ?A = ?B" by auto
  finally have one: "?s = 1 \<longleftrightarrow> ?A = ?B" .
  show ?thesis
    using jaccard_bounds [of ?A ?B] ne one sym by (intro exI [of _ ?s]) (simp add: similarity_alt)
qed

text \<open>
  The similar queries used by an estimate are the best five: at most five, each of similarity
  at least 0.3, in descending order, and no metric that was left out although it reaches the
  threshold is more similar than one that was kept.
\<close>

theorem rank_similar_best:
  "length (rank_similar q ms) \<le> 5
   \<and> sorted_wrt (\<lambda>a b. sq_similarity b \<le> sq_similarity a) (rank_similar q ms)
   \<and> (\<forall>sq \<in> set (rank_similar q ms). 3/10 \<le> sq_similarity sq
         \<and> (\<exists>m \<in> set ms. sq_query sq = m_query m \<and> sq_executionTime sq = m_executionTime m
               \<and> calculateQuerySimilarity q (m_query m) = Some (sq_similarity sq)))
   \<and> (\<forall>m \<in> set ms. \<forall>s. calculateQuerySimilarity q (m_query m) = Some s \<longrightarrow> 3/10 \<le> s \<longrightarrow>
         m_query m \<in> sq_query ` set (rank_similar q ms)
         \<or> (length (rank_similar q ms) = 5 \<and> (\<forall>sq \<in> set (rank_similar q ms). s \<le> sq_similarity sq)))"
proof (intro conjI ballI allI impI)
  let ?xs = "filter (\<lambda>sq. sq_similarity sq \<ge> 3/10) (map (to_similar q) ms)"
  have r: "rank_similar q ms = take 5 (sort_desc sq_similarity ?xs)" by (rule rank_similar_eq)
  show "length (rank_similar q ms) \<le> 5" by (simp add: r)
  show "sorted_wrt (\<lambda>a b. sq_similarity b \<le> sq_similarity a) (rank_similar q ms)"
    unfolding r by (intro sorted_wrt_take sorted_sort_desc)
  fix sq assume "sq \<in> set (rank_similar q ms)"
  then have "sq \<in> set ?xs" unfolding r by (rule subsetD [OF top_k_subset])
  then show "3/10 \<le> sq_similarity sq"
    "\<exists>m \<in> set ms. sq_query sq = m_query m \<and> sq_executionTime sq = m_executionTime m
       \<and> calculateQuerySimilarity q (m_query m) = Some (sq_similarity sq)"
    using similarity_Some by auto
next
  fix m s assume m: "m \<in> set ms" "calculateQuerySimilarity q (m_query m) = Some s" "3/10 \<le> s"
  let ?xs = "filter (\<lambda>sq. sq_similarity sq \<ge> 3/10) (map (to_similar q) ms)"
  have x: "to_similar q m \<in> set ?xs" and s: "sq_similarity (to_similar q m) = s"
    using m similarity_Some [of q m] by simp_all
  have "m_query m \<in> sq_query ` A" if "to_similar q m \<in> A" for A
    using imageI [OF that, of sq_query] by simp
  then show "m_query m \<in> sq_query ` set (rank_similar q ms)
       \<or> (length (rank_similar q ms) = 5 \<and> (\<forall>sq \<in> set (rank_similar q ms). s \<le> sq_similarity sq))"
    using top_k_cover [OF x, of 5 sq_similarity] unfolding rank_similar_eq s by blast
qed

theorem rank_similar_best_witness:
  "let m = \<lparr>m_queryId = ''1'', m_query = ''{ a b }'', m_executionTime = 40, m_timestamp = 0, m_success = True,
            m_error = None, m_resultSize = None, m_cacheHit = None, m_resourceUsage = None\<rparr>
   in calculateQuerySimilarity ''{ a c }'' (m_query m) = Some (3/5) \<and> ''{ a b }'' \<in> sq_query ` set (rank_similar ''{ a c }'' [m])"
proof -
  let ?m = "\<lparr>m_queryId = ''1'', m_query = ''{ a b }'', m_executionTime = 40, m_timestamp = 0, m_success = True,
            m_error = None, m_resultSize = None, m_cacheHit = None, m_resourceUsage = None\<rparr>"
  have s: "calculateQuerySimilarity ''{ a c }'' ''{ a b }'' = Some (3/5)" by code_simp
  have "length (rank_similar ''{ a c }'' [?m]) \<le> 1" by (simp add: rank_similar_eq)
  then have "m_query ?m \<in> sq_query ` set (rank_similar ''{ a c }'' [?m])"
    using rank_similar_best [of "''{ a c }''" "[?m]", THEN conjunct2, THEN conjunct2, THEN conjunct2,
        rule_format, of ?m "3/5"] s by simp
  then show ?thesis using s by simp
qed


definition base_time :: "QueryAnalysis \<Rightarrow> nat" where
  "base_time a = qa_fieldCount a * 10 + qa_depth a * 20
     + (case qa_complexity a of High \<Rightarrow> 50 | Medium \<Rightarrow> 25 | Low \<Rightarrow> 0)"

lemma base_time_rat:
  "of_nat (qa_fieldCount a) * 10 + of_nat (qa_depth a) * 20
     + (if qa_complexity a = High then 50 else if qa_complexity a = Medium then 25 else 0) = (of_nat (base_time a) :: rat)"
  by (cases "qa_complexity a") (simp_all add: base_time_def)

text \<open>
  With similar queries at hand the estimated time is a blend: when their execution times lie
  between two bounds, the estimate lies between the blends (70 percent of the bound and 30 percent
  of the structural base time) of the two bounds, rounded; without them it is the base time.
\<close>

theorem estimateExecutionTime_blend:
  assumes "\<forall>sq \<in> set similar. 0 < sq_similarity sq \<and> lo \<le> sq_executionTime sq \<and> sq_executionTime sq \<le> hi"
  shows "if similar = [] then estimateExecutionTime a similar = int (base_time a)
    else js_round (lo * (7/10) + of_nat (base_time a) * (3/10)) \<le> estimateExecutionTime a similar
       \<and> estimateExecutionTime a similar \<le> js_round (hi * (7/10) + of_nat (base_time a) * (3/10))"
proof (cases "similar = []")
  case True
  then show ?thesis unfolding estimateExecutionTime_def base_time_rat by (simp add: Let_def)
next
  case False
  let ?t = "sum_list (map sq_similarity similar)"
  let ?w = "sum_list (map (\<lambda>x. sq_executionTime x * sq_similarity x) similar)"
  have b: "0 < ?t" "lo \<le> ?w / ?t" "?w / ?t \<le> hi"
    using weighted_average_bounds [of similar sq_similarity lo sq_executionTime hi] assms False by auto
  then have "estimateExecutionTime a similar = js_round (?w / ?t * (7/10) + of_nat (base_time a) * (3/10))"
    using False unfolding estimateExecutionTime_def base_time_rat foldl_sum by (simp add: Let_def)
  then show ?thesis using False b by (auto intro!: js_round_mono)
qed

theorem estimateExecutionTime_blend_witness:
  "let sqs = [\<lparr>sq_query = ''{ a }'', sq_executionTime = 100, sq_similarity = 1/2\<rparr>,
              \<lparr>sq_query = ''{ b }'', sq_executionTime = 200, sq_similarity = 1/2\<rparr>]
   in 79 \<le> estimateExecutionTime (analyze ''{ a { b } }'') sqs \<and> estimateExecutionTime (analyze ''{ a { b } }'') sqs \<le> 149"
proof -
  let ?sqs = "[\<lparr>sq_query = ''{ a }'', sq_executionTime = 100, sq_similarity = 1/2\<rparr>,
              \<lparr>sq_query = ''{ b }'', sq_executionTime = 200, sq_similarity = 1/2\<rparr>]"
  have "base_time (analyze ''{ a { b } }'') = 30" by code_simp
  moreover have "\<lfloor>159/2 :: rat\<rfloor> = 79" "\<lfloor>299/2 :: rat\<rfloor> = 149" by (simp_all add: floor_eq_iff)
  ultimately show ?thesis
    using estimateExecutionTime_blend [of ?sqs 100 200 "analyze ''{ a { b } }''"]
    by (simp add: js_round_def Let_def)
qed

text \<open>
  The efficiency score is between 0 and 100 and does not improve when the estimated time
  grows, the processor share that follows from the time included.
\<close>

theorem efficiencyScore_antitone:
  assumes "t \<le> t'"
  shows "0 \<le> calculateEfficiencyScore a t' (estimateResourceUsage a t')
    \<and> calculateEfficiencyScore a t' (estimateResourceUsage a t')
        \<le> calculateEfficiencyScore a t (estimateResourceUsage a t)
    \<and> calculateEfficiencyScore a t (estimateResourceUsage a t) \<le> 100"
proof -
  have "cpu_penalty (ue_cpu (estimateResourceUsage a t)) \<le> cpu_penalty (ue_cpu (estimateResourceUsage a t'))"
    using cpu_penalty_mono [OF cpu_mono [OF assms, of a]] by (simp add: estimateResourceUsage_def Let_def)
  moreover have "ue_memory (estimateResourceUsage a t) = ue_memory (estimateResourceUsage a t')"
    by (simp add: estimateResourceUsage_def Let_def)
  ultimately show ?thesis
    using time_penalty_mono [OF assms] penalties_nonneg(1) [of t]
      penalties_nonneg(2) [of "ue_cpu (estimateResourceUsage a t)"]
      penalties_nonneg(3) [of a "ue_memory (estimateResourceUsage a t')"]
    unfolding efficiencyScore_penalties by (simp add: max_def)
qed

theorem efficiencyScore_antitone_witness:
  "calculateEfficiencyScore (analyze ''{ a { b } }'') 1200 (estimateResourceUsage (analyze ''{ a { b } }'') 1200)
     \<le> calculateEfficiencyScore (analyze ''{ a { b } }'') 30 (estimateResourceUsage (analyze ''{ a { b } }'') 30)"
  using efficiencyScore_antitone [of 30 1200 "analyze ''{ a { b } }''"] by simp

text \<open>
  A whole estimate is coherent: its score is between 0 and 100, its confidence between 0.5
  and 1 and at least 0.8 exactly when similar queries were found, at most five of them; the
  category is critical exactly for scores below 20 and excellent exactly for scores of at least
  80 with a time below 200; and there are at most six recommendations.
\<close>

theorem estimateEfficiency_coherent:
  "let e = estimateEfficiency client liveMode now resp q opts
   in 0 \<le> ee_efficiencyScore e \<and> ee_efficiencyScore e \<le> 100
    \<and> 1/2 \<le> ee_confidence e \<and> ee_confidence e \<le> 1
    \<and> (8/10 \<le> ee_confidence e \<longleftrightarrow> ee_similarQueries e \<noteq> None)
    \<and> (case ee_similarQueries e of None \<Rightarrow> True | Some sqs \<Rightarrow> 0 < length sqs \<and> length sqs \<le> 5)
    \<and> (ee_performanceCategory e = Critical \<longleftrightarrow> ee_efficiencyScore e < 20)
    \<and> (ee_performanceCategory e = Excellent \<longleftrightarrow> 80 \<le> ee_efficiencyScore e \<and> ee_estimatedExecutionTime e < 200)
    \<and> (case ee_recommendations e of None \<Rightarrow> True | Some rs \<Rightarrow> length rs \<le> 6)"
proof -
  define similar where "similar = (if or_default (eo_includeSimilarQueries opts) True
     then rank_similar q (getQueryStats client now resp (extractQueryPattern q)) else [])"
  have len: "length similar \<le> 5" by (simp add: similar_def rank_similar_eq)
  have e: "estimateEfficiency client liveMode now resp q opts =
     (let time = estimateExecutionTime (analyze q) similar;
          usage = estimateResourceUsage (analyze q) time;
          score = calculateEfficiencyScore (analyze q) time usage
      in \<lparr>ee_estimatedExecutionTime = time, ee_estimatedResourceUsage = usage, ee_efficiencyScore = score,
          ee_confidence = calculateConfidence (analyze q) similar (or_default (eo_useLiveStats opts) liveMode),
          ee_similarQueries = some_if_ne similar,
          ee_performanceCategory = determinePerformanceCategory score time,
          ee_recommendations = some_if_ne (generateRecommendations (analyze q) score time)\<rparr>)"
    unfolding estimateEfficiency_def similar_def Let_def by (rule refl)
  have score: "0 \<le> calculateEfficiencyScore a t u \<and> calculateEfficiencyScore a t u \<le> 100" for a t u
    using penalties_nonneg(1) [of t] penalties_nonneg(2) [of "ue_cpu u"] penalties_nonneg(3) [of a "ue_memory u"]
    unfolding efficiencyScore_penalties by simp
  let ?conf = "calculateConfidence (analyze q) similar (or_default (eo_useLiveStats opts) liveMode)"
  have conf: "1/2 \<le> ?conf" "?conf \<le> 1" "8/10 \<le> ?conf \<longleftrightarrow> similar \<noteq> []"
    unfolding qa.confidence_simple by simp_all
  have cat: "determinePerformanceCategory s t = Critical \<longleftrightarrow> s < 20"
    "determinePerformanceCategory s t = Excellent \<longleftrightarrow> 80 \<le> s \<and> t < 200" for s t
    by (simp_all add: determinePerformanceCategory_def)
  show ?thesis
    unfolding e Let_def EfficiencyEstimate.simps cat
    using len score conf qa.recommendations_le [of q] by (intro conjI) (simp_all add: some_if_ne_def)
qed

end
