(* ===== verification/Live_Stats.thy ===== *)
theory Live_Stats
  imports ResLens_Client
begin

text \<open>
  Model of \<open>services/live-stats-service.ts\<close>: periodic polling of ResLens and the statistics
  computed from it. \<open>startPolling\<close> waits twice, for the health check and for the first poll, and
  other calls can run in between: the state records how many calls wait at each point and which
  interval timers of the event loop are active, and an event is one uninterrupted stretch of
  code. The theory bounds the statistics and shows that timers and the polling flag agree when
  calls do not overlap, and that they do not when two starts overlap.
\<close>

section \<open>Statistics\<close>

record LiveStats =
  lt_systemMetrics :: "ResourceUsage option"
  lt_recentQueries :: "QueryExecutionMetrics list option"
  lt_avgExecutionTime :: "int option"
  lt_throughput :: "rat option"
  lt_cacheHitRatio :: "rat option"
  lt_lastUpdated :: int

record LiveStatsOptions =
  lo_enabled :: bool
  lo_pollInterval :: nat
  lo_maxRecentQueries :: nat
  lo_queryPattern :: string

text \<open>\<open>Math.round(x * 10) / 10\<close>.\<close>

definition round1 :: "rat \<Rightarrow> rat" where
  "round1 x = of_int (js_round (x * 10)) / 10"

definition average :: "rat list \<Rightarrow> rat" where
  "average xs = foldl (+) 0 xs / of_nat (length xs)"

definition calculateThroughput :: "QueryExecutionMetrics list \<Rightarrow> rat option" where
  "calculateThroughput queries =
     (if length queries < 2 then None
      else (let sorted = sort_key m_timestamp queries;
                first = m_timestamp (hd sorted); final = m_timestamp (last sorted);
                timeSpan = (of_int (final - first) / 1000 :: rat)
            in if timeSpan \<le> 0 then None
               else Some (round1 (of_nat (length sorted) / timeSpan))))"

definition calculateCacheHitRatio :: "QueryExecutionMetrics list \<Rightarrow> rat option" where
  "calculateCacheHitRatio queries =
     (if queries = [] then None
      else Some (round1 (of_nat (length (filter (\<lambda>q. m_cacheHit q = Some True) queries))
                         / of_nat (length queries) * 100)))"

definition extractSystemMetrics :: "QueryExecutionMetrics list \<Rightarrow> ResourceUsage option" where
  "extractSystemMetrics queries =
     (let usages = List.map_filter m_resourceUsage queries;
          mean = (\<lambda>f. round1 (average (map (\<lambda>u. case f u of None \<Rightarrow> 0 | Some x \<Rightarrow> x) usages)))
      in if usages = [] then None
         else Some \<lparr>ru_cpu = Some (mean ru_cpu), ru_memory = Some (mean ru_memory), ru_network = Some (mean ru_network)\<rparr>)"

definition avg_time :: "QueryExecutionMetrics list \<Rightarrow> int option" where
  "avg_time queries =
     (if queries = [] \<or> average (map m_executionTime queries) = 0 then None
      else Some (js_round (average (map m_executionTime queries))))"

definition matching :: "string \<Rightarrow> QueryExecutionMetrics list \<Rightarrow> QueryExecutionMetrics list" where
  "matching pattern queries =
     (if pattern \<noteq> [] then filter (\<lambda>q. str_includes (m_query q) pattern) queries else queries)"

definition poll_stats :: "LiveStatsOptions \<Rightarrow> int \<Rightarrow> QueryExecutionMetrics list \<Rightarrow> LiveStats" where
  "poll_stats opts now recentQueries =
     (let filteredQueries = matching (lo_queryPattern opts) recentQueries
      in \<lparr>lt_systemMetrics = extractSystemMetrics filteredQueries,
          lt_recentQueries = Some (take (lo_maxRecentQueries opts) filteredQueries),
          lt_avgExecutionTime = avg_time filteredQueries,
          lt_throughput = calculateThroughput filteredQueries,
          lt_cacheHitRatio = calculateCacheHitRatio filteredQueries,
          lt_lastUpdated = now\<rparr>)"


section \<open>The service and its event loop\<close>

record LiveStatsService =
  lv_client :: ResLensClient
  lv_cachedStats :: LiveStats
  lv_options :: LiveStatsOptions
  lv_isPolling :: bool
  lv_pollInterval :: "nat option"
  lv_awaitHealth :: nat
  lv_awaitPoll :: nat
  lv_timers :: "nat list"
  lv_nextTimer :: nat

definition empty_stats :: "int \<Rightarrow> LiveStats" where
  "empty_stats now = \<lparr>lt_systemMetrics = None, lt_recentQueries = None, lt_avgExecutionTime = None,
     lt_throughput = None, lt_cacheHitRatio = None, lt_lastUpdated = now\<rparr>"

text \<open>Options as given by the caller; the environment supplies the defaults of the first two.\<close>

record PartialOptions =
  po_enabled :: "bool option"
  po_pollInterval :: "nat option"
  po_maxRecentQueries :: "nat option"
  po_queryPattern :: "string option"

definition new_LiveStatsService :: "ResLensClient \<Rightarrow> int \<Rightarrow> bool \<Rightarrow> nat \<Rightarrow> PartialOptions \<Rightarrow> LiveStatsService" where
  "new_LiveStatsService client now liveMode envInterval opts =
     \<lparr>lv_client = client, lv_cachedStats = empty_stats now,
      lv_options = \<lparr>lo_enabled = or_default (po_enabled opts) liveMode,
        lo_pollInterval = or_default (po_pollInterval opts) (if envInterval = 0 then 5000 else envInterval),
        lo_maxRecentQueries = or_default (po_maxRecentQueries opts) 50,
        lo_queryPattern = or_default (po_queryPattern opts) []\<rparr>,
      lv_isPolling = False, lv_pollInterval = None, lv_awaitHealth = 0, lv_awaitPoll = 0,
      lv_timers = [], lv_nextTimer = 0\<rparr>"

text \<open>\<open>startPolling\<close> up to the wait for the health check.\<close>

definition start_call :: "LiveStatsService \<Rightarrow> LiveStatsService" where
  "start_call st =
     (if lv_isPolling st \<or> \<not> lo_enabled (lv_options st) then st
      else st\<lparr>lv_awaitHealth := lv_awaitHealth st + 1\<rparr>)"

text \<open>From the reply of the health check to the wait for the first poll.\<close>

definition health_reply :: "unit api_response \<Rightarrow> LiveStatsService \<Rightarrow> LiveStatsService" where
  "health_reply resp st =
     (if lv_awaitHealth st = 0 then st
      else if reslens_healthCheck (lv_client st) resp
      then st\<lparr>lv_awaitHealth := lv_awaitHealth st - 1, lv_isPolling := True, lv_awaitPoll := lv_awaitPoll st + 1\<rparr>
      else st\<lparr>lv_awaitHealth := lv_awaitHealth st - 1\<rparr>)"

definition poll :: "int \<Rightarrow> list_body api_response \<Rightarrow> LiveStatsService \<Rightarrow> LiveStatsService" where
  "poll now resp st =
     st\<lparr>lv_cachedStats := poll_stats (lv_options st) now
          (getRecentQueries (lv_client st) now resp (lo_maxRecentQueries (lv_options st)))\<rparr>"

text \<open>From the end of the first poll to the end of \<open>startPolling\<close>: the timer is set.\<close>

definition first_poll :: "int \<Rightarrow> list_body api_response \<Rightarrow> LiveStatsService \<Rightarrow> LiveStatsService" where
  "first_poll now resp st =
     (if lv_awaitPoll st = 0 then st
      else (let st' = poll now resp st
            in st'\<lparr>lv_awaitPoll := lv_awaitPoll st - 1, lv_pollInterval := Some (lv_nextTimer st),
                   lv_timers := lv_timers st @ [lv_nextTimer st], lv_nextTimer := lv_nextTimer st + 1\<rparr>))"

definition stopPolling :: "LiveStatsService \<Rightarrow> LiveStatsService" where
  "stopPolling st =
     (case lv_pollInterval st of
        None \<Rightarrow> st\<lparr>lv_isPolling := False\<rparr>
      | Some timer \<Rightarrow> st\<lparr>lv_timers := removeAll timer (lv_timers st), lv_pollInterval := None, lv_isPolling := False\<rparr>)"

definition merge_options :: "PartialOptions \<Rightarrow> LiveStatsOptions \<Rightarrow> LiveStatsOptions" where
  "merge_options p opts =
     \<lparr>lo_enabled = or_default (po_enabled p) (lo_enabled opts),
      lo_pollInterval = or_default (po_pollInterval p) (lo_pollInterval opts),
      lo_maxRecentQueries = or_default (po_maxRecentQueries p) (lo_maxRecentQueries opts),
      lo_queryPattern = or_default (po_queryPattern p) (lo_queryPattern opts)\<rparr>"

definition updateOptions :: "PartialOptions \<Rightarrow> LiveStatsService \<Rightarrow> LiveStatsService" where
  "updateOptions p st =
     (let wasPolling = lv_isPolling st;
          st1 = (if wasPolling then stopPolling st else st);
          st2 = st1\<lparr>lv_options := merge_options p (lv_options st1)\<rparr>
      in if wasPolling \<and> lo_enabled (lv_options st2) then start_call st2 else st2)"

definition live_isAvailable :: "LiveStatsService \<Rightarrow> bool" where
  "live_isAvailable st \<longleftrightarrow> lv_isPolling st \<and> lo_enabled (lv_options st)"

definition live_getRecentQueries ::
  "LiveStatsService \<Rightarrow> int \<Rightarrow> list_body api_response \<Rightarrow> string option \<Rightarrow> nat option \<Rightarrow> QueryExecutionMetrics list" where
  "live_getRecentQueries st now resp pattern limit =
     matching (or_default pattern []) (getRecentQueries (lv_client st) now resp (or_default limit 10))"

datatype live_event =
    StartCall
  | HealthReply "unit api_response"
  | FirstPoll int "list_body api_response"
  | Tick nat int "list_body api_response"
  | StopCall
  | UpdateCall PartialOptions

fun live_step :: "live_event \<Rightarrow> LiveStatsService \<Rightarrow> LiveStatsService" where
  "live_step StartCall st = start_call st"
| "live_step (HealthReply resp) st = health_reply resp st"
| "live_step (FirstPoll now resp) st = first_poll now resp st"
| "live_step (Tick timer now resp) st = (if timer \<in> set (lv_timers st) then poll now resp st else st)"
| "live_step StopCall st = stopPolling st"
| "live_step (UpdateCall p) st = updateOptions p st"

text \<open>A call of the service is in order when no earlier start is still waiting.\<close>

fun in_order :: "live_event \<Rightarrow> LiveStatsService \<Rightarrow> bool" where
  "in_order StartCall st \<longleftrightarrow> lv_awaitHealth st = 0 \<and> lv_awaitPoll st = 0"
| "in_order StopCall st \<longleftrightarrow> lv_awaitHealth st = 0 \<and> lv_awaitPoll st = 0"
| "in_order (UpdateCall p) st \<longleftrightarrow> lv_awaitHealth st = 0 \<and> lv_awaitPoll st = 0"
| "in_order _ st \<longleftrightarrow> True"

inductive live_reachable :: "LiveStatsService \<Rightarrow> bool" where
  created: "live_reachable (new_LiveStatsService client now liveMode envInterval opts)"
| happens: "live_reachable st \<Longrightarrow> in_order e st \<Longrightarrow> live_reachable (live_step e st)"


section \<open>Timers\<close>

definition timers_agree :: "LiveStatsService \<Rightarrow> bool" where
  "timers_agree st \<longleftrightarrow>
     lv_awaitHealth st + lv_awaitPoll st \<le> 1
     \<and> lv_timers st = (case lv_pollInterval st of None \<Rightarrow> [] | Some timer \<Rightarrow> [timer])
     \<and> (lv_awaitHealth st = 1 \<longrightarrow> \<not> lv_isPolling st)
     \<and> (lv_isPolling st \<longleftrightarrow> lv_pollInterval st \<noteq> None \<or> lv_awaitPoll st = 1)
     \<and> (lv_awaitPoll st = 1 \<longrightarrow> lv_pollInterval st = None)"

lemma stopPolling_agree: "timers_agree st \<Longrightarrow> lv_awaitPoll st = 0 \<Longrightarrow> timers_agree (stopPolling st)"
  by (auto simp: timers_agree_def stopPolling_def split: option.splits)

lemma start_call_agree: "timers_agree st \<Longrightarrow> lv_awaitHealth st = 0 \<Longrightarrow> lv_awaitPoll st = 0 \<Longrightarrow> timers_agree (start_call st)"
  by (auto simp: timers_agree_def start_call_def)

lemma options_agree: "timers_agree st \<Longrightarrow> timers_agree (st\<lparr>lv_options := o'\<rparr>)"
  by (auto simp: timers_agree_def)

lemma stopPolling_awaits [simp]:
  "lv_awaitHealth (stopPolling st) = lv_awaitHealth st" "lv_awaitPoll (stopPolling st) = lv_awaitPoll st"
  by (simp_all add: stopPolling_def split: option.splits)

lemma live_step_agree: "timers_agree st \<Longrightarrow> in_order e st \<Longrightarrow> timers_agree (live_step e st)"
proof (cases e)
  case (HealthReply resp)
  assume "timers_agree st"
  with HealthReply show ?thesis by (auto simp: timers_agree_def health_reply_def)
next
  case (FirstPoll now resp)
  assume "timers_agree st"
  with FirstPoll show ?thesis by (auto simp: timers_agree_def first_poll_def poll_def Let_def)
next
  case (Tick timer now resp)
  assume "timers_agree st"
  with Tick show ?thesis by (auto simp: timers_agree_def poll_def)
next
  case (UpdateCall p)
  assume "timers_agree st" "in_order e st"
  with UpdateCall show ?thesis
    by (auto simp: updateOptions_def Let_def intro!: start_call_agree options_agree stopPolling_agree)
qed (auto intro: start_call_agree stopPolling_agree)

lemma reachable_agree: "live_reachable st \<Longrightarrow> timers_agree st"
  by (induction rule: live_reachable.induct)
    (auto simp: live_step_agree, simp add: timers_agree_def new_LiveStatsService_def)


section \<open>Bounds\<close>

lemma round1_bounds:
  assumes x: "of_int a \<le> x" "x \<le> of_int b"
  shows "of_int a \<le> round1 x \<and> round1 x \<le> of_int b"
proof -
  have r: "js_round (of_int (i * 10)) = i * 10" for i :: int by (rule js_round_of_int)
  have "js_round (of_int (a * 10)) \<le> js_round (x * 10)" "js_round (x * 10) \<le> js_round (of_int (b * 10))"
    using x by (auto intro!: js_round_mono)
  then have "of_int (a * 10) \<le> (of_int (js_round (x * 10)) :: rat)" "(of_int (js_round (x * 10)) :: rat) \<le> of_int (b * 10)"
    unfolding r of_int_le_iff .
  then show ?thesis by (simp add: round1_def)
qed

lemma foldl_plus: "foldl (+) a xs = a + sum_list (xs :: rat list)"
  by (induction xs arbitrary: a) (simp_all add: add.assoc)

lemma average_bounds:
  assumes "xs \<noteq> []" "\<And>x. x \<in> set xs \<Longrightarrow> lo \<le> x \<and> x \<le> hi"
  shows "lo \<le> average xs \<and> average xs \<le> hi"
proof -
  have "of_nat (length xs) * lo \<le> sum_list xs \<and> sum_list xs \<le> of_nat (length xs) * hi"
    using assms(2) by (induction xs) (auto simp: algebra_simps add_mono)
  moreover have "0 < (of_nat (length xs) :: rat)" using assms(1) by simp
  ultimately show ?thesis by (simp add: average_def foldl_plus le_divide_eq divide_le_eq mult.commute)
qed


section \<open>Properties\<close>

text \<open>
  C34. When the calls of the service do not overlap with a start that is still waiting, at most one
  interval timer is ever active, it is the one the service remembers, the service reports
  polling exactly when a timer runs or the first poll is awaited, and stopping leaves no timer.
\<close>

theorem polling_timers:
  assumes "live_reachable st"
  shows "length (lv_timers st) \<le> 1 \<and> set (lv_timers st) = set_option (lv_pollInterval st)
    \<and> (lv_isPolling st \<longleftrightarrow> lv_timers st \<noteq> [] \<or> lv_awaitPoll st = 1)
    \<and> lv_timers (stopPolling st) = []"
  using reachable_agree [OF assms] by (auto simp: timers_agree_def stopPolling_def split: option.splits)

theorem polling_timers_witness:
  "live_reachable (live_step (FirstPoll 5 ApiThrows) (live_step (HealthReply ApiThrows) (live_step StartCall
      (new_LiveStatsService (new_ResLensClient None) 0 True 0 \<lparr>po_enabled = None, po_pollInterval = None, po_maxRecentQueries = None, po_queryPattern = None\<rparr>))))
   \<and> length (lv_timers (live_step (FirstPoll 5 ApiThrows) (live_step (HealthReply ApiThrows) (live_step StartCall
      (new_LiveStatsService (new_ResLensClient None) 0 True 0 \<lparr>po_enabled = None, po_pollInterval = None, po_maxRecentQueries = None, po_queryPattern = None\<rparr>))))) \<le> 1"
proof -
  let ?s = "live_step (FirstPoll 5 ApiThrows) (live_step (HealthReply ApiThrows) (live_step StartCall
      (new_LiveStatsService (new_ResLensClient None) 0 True 0 \<lparr>po_enabled = None, po_pollInterval = None, po_maxRecentQueries = None, po_queryPattern = None\<rparr>)))"
  have r: "live_reachable ?s"
    by (intro live_reachable.intros) (simp_all add: new_LiveStatsService_def)
  with polling_timers [OF r] show ?thesis by blast
qed

text \<open>
  Overlapping starts leak a timer: when \<open>startPolling\<close> is called twice before the health check
  of the first call has answered, both calls set a timer and the service remembers only the
  second; after \<open>stopPolling\<close> the first timer goes on polling while the service reports that it
  does not poll.
\<close>

theorem overlapping_starts_leak:
  assumes "\<not> lv_isPolling st" "lo_enabled (lv_options st)" "lv_timers st = []" "lv_pollInterval st = None"
    and "lv_awaitHealth st = 0" "lv_awaitPoll st = 0" "reslens_healthCheck (lv_client st) resp"
  shows "let st' = fold live_step [StartCall, StartCall, HealthReply resp, HealthReply resp,
            FirstPoll t1 r1, FirstPoll t2 r2, StopCall] st
    in \<not> lv_isPolling st' \<and> lv_timers st' = [lv_nextTimer st] \<and> lv_pollInterval st' = None"
  using assms by (simp add: start_call_def health_reply_def first_poll_def poll_def stopPolling_def Let_def)

theorem overlapping_starts_leak_witness:
  "lv_timers (fold live_step [StartCall, StartCall, HealthReply ApiThrows, HealthReply ApiThrows, FirstPoll 1 ApiThrows,
      FirstPoll 2 ApiThrows, StopCall]
     (new_LiveStatsService (new_ResLensClient None) 0 True 0 \<lparr>po_enabled = None, po_pollInterval = None, po_maxRecentQueries = None, po_queryPattern = None\<rparr>)) = [0]"
  using overlapping_starts_leak [of "new_LiveStatsService (new_ResLensClient None) 0 True 0 \<lparr>po_enabled = None, po_pollInterval = None, po_maxRecentQueries = None, po_queryPattern = None\<rparr>" ApiThrows 1 ApiThrows 2 ApiThrows]
  by (simp add: new_LiveStatsService_def new_ResLensClient_def reslens_healthCheck_def use_api_def or_default_def Let_def)

text \<open>
  The statistics of a poll stay in range: at most the configured number of queries, a cache
  hit ratio between 0 and 100, and an average that lies between any bounds on the execution
  times, rounded.
\<close>

theorem poll_stats_bounds:
  assumes "\<forall>q \<in> set queries. of_int lo \<le> m_executionTime q \<and> m_executionTime q \<le> of_int hi"
  shows "let s = poll_stats opts now queries
    in (case lt_recentQueries s of None \<Rightarrow> False | Some qs \<Rightarrow> length qs \<le> lo_maxRecentQueries opts \<and> set qs \<subseteq> set queries)
      \<and> (case lt_cacheHitRatio s of None \<Rightarrow> True | Some r \<Rightarrow> 0 \<le> r \<and> r \<le> 100)
      \<and> (case lt_avgExecutionTime s of None \<Rightarrow> True | Some a \<Rightarrow> lo \<le> a \<and> a \<le> hi)"
proof -
  let ?q = "matching (lo_queryPattern opts) queries"
  have sub: "set ?q \<subseteq> set queries" by (auto simp: matching_def)
  have ratio: "case calculateCacheHitRatio qs of None \<Rightarrow> True | Some r \<Rightarrow> 0 \<le> r \<and> r \<le> 100" for qs
  proof (cases "qs = []")
    case False
    let ?x = "of_nat (length (filter (\<lambda>q. m_cacheHit q = Some True) qs)) / of_nat (length qs) * 100 :: rat"
    have "of_nat (length (filter (\<lambda>q. m_cacheHit q = Some True) qs)) \<le> (of_nat (length qs) :: rat)"
      by (simp add: length_filter_le)
    then have "0 \<le> ?x" "?x \<le> 100" using False by (simp_all add: divide_le_eq)
    then show ?thesis
      using round1_bounds [of 0 ?x 100] False by (simp add: calculateCacheHitRatio_def)
  qed (simp add: calculateCacheHitRatio_def)
  have "case avg_time ?q of None \<Rightarrow> True | Some a \<Rightarrow> lo \<le> a \<and> a \<le> hi"
  proof (cases "?q = []")
    case False
    then have "of_int lo \<le> average (map m_executionTime ?q) \<and> average (map m_executionTime ?q) \<le> of_int hi"
      using assms sub by (intro average_bounds) auto
    then have "lo \<le> js_round (average (map m_executionTime ?q)) \<and> js_round (average (map m_executionTime ?q)) \<le> hi"
      using js_round_mono [of "of_int lo"] js_round_mono [of _ "of_int hi"] by (metis js_round_of_int)
    then show ?thesis by (simp add: avg_time_def)
  qed (simp add: avg_time_def)
  moreover have "set (take (lo_maxRecentQueries opts) ?q) \<subseteq> set queries" using sub set_take_subset by fast
  ultimately show ?thesis using ratio [of ?q] by (simp add: poll_stats_def Let_def)
qed

theorem poll_stats_bounds_witness:
  "let s = poll_stats \<lparr>lo_enabled = True, lo_pollInterval = 5000, lo_maxRecentQueries = 1, lo_queryPattern = []\<rparr> 9
       [\<lparr>m_queryId = ''1'', m_query = ''{ a }'', m_executionTime = 40, m_timestamp = 0, m_success = True, m_error = None,
         m_resultSize = None, m_cacheHit = Some True, m_resourceUsage = None\<rparr>]
   in (case lt_cacheHitRatio s of None \<Rightarrow> True | Some r \<Rightarrow> r \<le> 100)"
  using poll_stats_bounds [of "[\<lparr>m_queryId = ''1'', m_query = ''{ a }'', m_executionTime = 40, m_timestamp = 0, m_success = True, m_error = None,
         m_resultSize = None, m_cacheHit = Some True, m_resourceUsage = None\<rparr>]" 40 40
      "\<lparr>lo_enabled = True, lo_pollInterval = 5000, lo_maxRecentQueries = 1, lo_queryPattern = []\<rparr>" 9]
  by (auto simp: Let_def split: option.splits)

end
