(* ===== verification/Embedding_Service.thy ===== *)
theory Embedding_Service
  imports JS_Prelude
begin

text \<open>
  Model of \<open>rag/embedding-service.ts\<close>. The Hugging Face SDK, the inference endpoint and the local
  transformer pipeline are not part of the repository: their replies are arguments, functions of
  the number of the call and of the texts sent. The theory shows that the vectors of a batch
  request come back in the order of the texts whatever the batch size, and when a request fails.
\<close>

type_synonym vector = "real list"

datatype provider = HuggingFace | Local

record EmbeddingService =
  es_hfClient :: bool
  es_model :: string
  es_dimension :: nat
  es_provider :: provider

text \<open>
  A JSON body: an array of numbers, an array whose elements are vectors or something else, or no
  array at all. An empty array is \<open>BRows []\<close>.
\<close>

datatype row = RVec vector | ROther
datatype body = BNums vector | BRows "row list" | BOther

datatype sdk_reply = SdkThrows string | SdkOk body
datatype http_reply = HttpFails string | HttpStatus nat string | HttpOk body

text \<open>The pipeline's output: an array with a first vector, a tensor with its data, or neither.\<close>

datatype local_reply = LThrows string | LArray vector | LData vector | LOther

definition new_EmbeddingService :: "provider \<Rightarrow> EmbeddingService" where
  "new_EmbeddingService p =
     \<lparr>es_hfClient = (p \<noteq> Local), es_model = ''sentence-transformers/all-MiniLM-L6-v2'',
      es_dimension = 384, es_provider = p\<rparr>"

definition isAvailable :: "EmbeddingService \<Rightarrow> bool" where
  "isAvailable es = (if es_provider es = Local then True else es_hfClient es)"

definition setModel :: "EmbeddingService \<Rightarrow> string \<Rightarrow> nat \<Rightarrow> EmbeddingService" where
  "setModel es model dimension = es\<lparr>es_model := model, es_dimension := dimension\<rparr>"


section \<open>One text\<close>

definition http_error :: "nat \<Rightarrow> string \<Rightarrow> string" where
  "http_error status txt =
     (if status = 429 then ''Rate limit exceeded: '' @ txt
      else if status = 401 \<or> status = 403 then ''Authentication failed: '' @ txt
      else if status = 503 then ''Model is loading, please wait: '' @ txt
      else ''HTTP '' @ show_nat status @ '': '' @ txt)"

definition fetchEmbeddingDirect :: "http_reply \<Rightarrow> string + row list" where
  "fetchEmbeddingDirect reply =
     (case reply of
        HttpFails msg \<Rightarrow> Inl msg
      | HttpStatus status txt \<Rightarrow> Inl (http_error status txt)
      | HttpOk (BRows (RVec v # rows)) \<Rightarrow> Inr (RVec v # rows)
      | HttpOk (BNums (x # xs)) \<Rightarrow> Inr [RVec (x # xs)]
      | HttpOk _ \<Rightarrow> Inl ''Invalid response format from Hugging Face API'')"

definition generateEmbeddingLocal :: "local_reply \<Rightarrow> string + vector" where
  "generateEmbeddingLocal reply =
     (case reply of
        LThrows msg \<Rightarrow> Inl msg
      | LArray v \<Rightarrow> Inr v
      | LData v \<Rightarrow> Inr v
      | LOther \<Rightarrow> Inl ''Failed to generate embedding locally'')"

text \<open>Whether an SDK error sends the request to the endpoint instead.\<close>

definition provider_error :: "string \<Rightarrow> bool" where
  "provider_error msg \<longleftrightarrow> str_includes msg ''Inference Providers'' \<or> str_includes msg ''permissions''"

definition sdk_single :: "sdk_reply \<Rightarrow> string + vector" where
  "sdk_single reply =
     (case reply of
        SdkThrows msg \<Rightarrow> Inl msg
      | SdkOk (BNums []) \<Rightarrow> Inl ''No embedding returned''
      | SdkOk (BRows []) \<Rightarrow> Inl ''No embedding returned''
      | SdkOk (BNums xs) \<Rightarrow> Inr xs
      | SdkOk (BRows (RVec v # _)) \<Rightarrow> Inr v
      | SdkOk _ \<Rightarrow> Inl ''Invalid response format'')"

definition explain_error :: "string \<Rightarrow> string" where
  "explain_error msg =
     (if str_includes msg ''rate limit'' \<or> str_includes msg ''429''
      then ''Hugging Face rate limit reached. Set HUGGINGFACE_API_KEY for higher limits. Original error: '' @ msg
      else if str_includes msg ''401'' \<or> str_includes msg ''Unauthorized''
      then ''Hugging Face authentication failed. Check your HUGGINGFACE_API_KEY. Original error: '' @ msg
      else ''Failed to generate embedding with Hugging Face: '' @ msg
        @ ''. Note: Public API may be rate-limited. Consider setting HUGGINGFACE_API_KEY for better reliability.'')"

definition generateEmbeddingHuggingFace ::
  "EmbeddingService \<Rightarrow> sdk_reply \<Rightarrow> http_reply \<Rightarrow> string + vector" where
  "generateEmbeddingHuggingFace es sdk direct =
     (if \<not> es_hfClient es
      then Inl ''Hugging Face client not initialized. Please set HUGGINGFACE_API_KEY environment variable (optional for public access).''
      else case sdk_single sdk of
          Inr v \<Rightarrow> Inr v
        | Inl sdkError \<Rightarrow>
            if provider_error sdkError
            then (case fetchEmbeddingDirect direct of
                    Inl msg \<Rightarrow> Inl (explain_error msg)
                  | Inr (RVec (x # xs) # _) \<Rightarrow> Inr (x # xs)
                  | Inr _ \<Rightarrow> Inl (explain_error sdkError))
            else Inl (explain_error sdkError))"

definition generateEmbedding ::
  "EmbeddingService \<Rightarrow> (string \<Rightarrow> local_reply) \<Rightarrow> (string \<Rightarrow> sdk_reply) \<Rightarrow> (string \<Rightarrow> http_reply)
     \<Rightarrow> string \<Rightarrow> string + vector" where
  "generateEmbedding es local sdk direct txt =
     (if trim txt = [] then Inl ''Text cannot be empty''
      else if es_provider es = Local then generateEmbeddingLocal (local (trim txt))
      else generateEmbeddingHuggingFace es (sdk (trim txt)) (direct (trim txt)))"


section \<open>Many texts\<close>

text \<open>\<open>validTexts\<close>: the trimmed texts that are not empty, each with its index.\<close>

definition validTexts :: "string list \<Rightarrow> (string \<times> nat) list" where
  "validTexts texts = filter (\<lambda>(t, _). t \<noteq> []) (map (\<lambda>(t, i). (trim t, i)) (zip texts [0..<length texts]))"

text \<open>The embeddings array, \<^const>\<open>None\<close> standing for \<open>null\<close>, and the errors pushed so far.\<close>

type_synonym batch_state = "vector option list \<times> string list"

definition local_error :: "nat \<Rightarrow> string \<Rightarrow> string" where
  "local_error index msg = ''Local embedding failed for chunk '' @ show_nat (index + 1) @ '': '' @ msg"

definition local_step :: "(string \<Rightarrow> local_reply) \<Rightarrow> string \<times> nat \<Rightarrow> batch_state \<Rightarrow> batch_state" where
  "local_step local item st =
     (case generateEmbeddingLocal (local (fst item)) of
        Inr v \<Rightarrow> ((fst st)[snd item := Some v], snd st)
      | Inl msg \<Rightarrow> ((fst st)[snd item := Some []], snd st @ [local_error (snd item) msg]))"

definition sdk_batch :: "sdk_reply \<Rightarrow> string + vector list" where
  "sdk_batch reply =
     (case reply of
        SdkThrows msg \<Rightarrow> Inl msg
      | SdkOk (BNums xs) \<Rightarrow> Inr (map (\<lambda>x. [x]) xs)
      | SdkOk (BRows rows) \<Rightarrow> Inr (map (case_row (\<lambda>v. v) []) rows)
      | SdkOk BOther \<Rightarrow> Inl ''Invalid batch response format'')"

definition batch_embeddings :: "sdk_reply \<Rightarrow> http_reply \<Rightarrow> string + vector list" where
  "batch_embeddings sdk direct =
     (case sdk_batch sdk of
        Inr vs \<Rightarrow> Inr vs
      | Inl msg \<Rightarrow>
          if provider_error msg
          then (case fetchEmbeddingDirect direct of
                  Inl e \<Rightarrow> Inl e | Inr rows \<Rightarrow> Inr (map (case_row (\<lambda>v. v) []) rows))
          else Inl msg)"

text \<open>Mapping the rows of a batch back to the original indices; a missing row gives an empty vector.\<close>

fun place_batch :: "(string \<times> nat) list \<Rightarrow> vector list \<Rightarrow> vector option list \<Rightarrow> vector option list" where
  "place_batch [] vs emb = emb"
| "place_batch ((_, i) # items) [] emb = place_batch items [] (emb[i := Some []])"
| "place_batch ((_, i) # items) (v # vs) emb = place_batch items vs (emb[i := Some v])"

text \<open>The batch loop; \<open>k\<close> counts the batches. The batch size is positive.\<close>

function hf_loop ::
  "(nat \<Rightarrow> string list \<Rightarrow> sdk_reply) \<Rightarrow> (nat \<Rightarrow> string list \<Rightarrow> http_reply) \<Rightarrow> nat \<Rightarrow> nat
     \<Rightarrow> (string \<times> nat) list \<Rightarrow> batch_state \<Rightarrow> batch_state" where
  "hf_loop sdk direct bsize k items st =
     (if items = [] \<or> bsize = 0 then st
      else (let batch = take bsize items; batchTexts = map fst batch
            in hf_loop sdk direct bsize (Suc k) (drop bsize items)
                 (case batch_embeddings (sdk k batchTexts) (direct k batchTexts) of
                    Inr vs \<Rightarrow> (place_batch batch vs (fst st), snd st)
                  | Inl msg \<Rightarrow> (fst st, snd st @ [''Batch '' @ show_nat (k + 1) @ '': '' @ msg]))))"
  by pat_completeness auto
termination
  by (relation "measure (\<lambda>(_, _, _, _, items, _). length items)") auto

declare hf_loop.simps [simp del]

datatype batch_error = NoValidTexts | AllBatchesFailed "string list" | BatchLoopDiverges

definition generateEmbeddings ::
  "EmbeddingService \<Rightarrow> (string \<Rightarrow> local_reply) \<Rightarrow> (nat \<Rightarrow> string list \<Rightarrow> sdk_reply)
     \<Rightarrow> (nat \<Rightarrow> string list \<Rightarrow> http_reply) \<Rightarrow> string list \<Rightarrow> nat \<Rightarrow> batch_error + vector list" where
  "generateEmbeddings es local sdk direct texts batchSize =
     (if texts = [] then Inr []
      else (let valid = validTexts texts;
                init = (replicate (length texts) None, [])
            in if valid = [] then Inl NoValidTexts
               else if es_provider es \<noteq> Local \<and> batchSize = 0 then Inl BatchLoopDiverges
               else (let (emb, errors) =
                       (if es_provider es = Local then fold (local_step local) valid init
                        else hf_loop sdk direct batchSize 0 valid init)
                     in if errors \<noteq> [] \<and> batchSize \<noteq> 0 \<and> length errors = (length valid + batchSize - 1) div batchSize
                        then Inl (AllBatchesFailed errors)
                        else Inr (map (\<lambda>v. case v of None \<Rightarrow> [] | Some x \<Rightarrow> x) emb))))"



section \<open>Placing vectors by index\<close>

definition place :: "(string \<Rightarrow> vector) \<Rightarrow> string \<times> nat \<Rightarrow> vector option list \<Rightarrow> vector option list" where
  "place f item emb = emb[snd item := Some (f (fst item))]"

definition indexed :: "nat \<Rightarrow> (string \<times> nat) list \<Rightarrow> bool" where
  "indexed n items \<longleftrightarrow> distinct (map snd items) \<and> (\<forall>item \<in> set items. snd item < n)"

lemma place_Pair [simp]: "place f (t, j) emb = emb[j := Some (f t)]" "length (place f item emb) = length emb"
  by (simp_all add: place_def)

lemma length_fold_place [simp]: "length (fold (place f) items emb) = length emb"
  by (induction items arbitrary: emb) simp_all

lemma nth_fold_place:
  "indexed (length emb) items \<Longrightarrow> i < length emb \<Longrightarrow>
     fold (place f) items emb ! i =
       (case map_of (map (\<lambda>(t, j). (j, t)) items) i of None \<Rightarrow> emb ! i | Some t \<Rightarrow> Some (f t))"
proof (induction items arbitrary: emb)
  case (Cons item items)
  obtain t j where item: "item = (t, j)" by (cases item)
  have "indexed (length (place f item emb)) items" using Cons.prems by (simp add: indexed_def)
  from Cons.IH [OF this] Cons.prems
  have "fold (place f) (item # items) emb ! i =
      (case map_of (map (\<lambda>(t, j). (j, t)) items) i of None \<Rightarrow> emb[j := Some (f t)] ! i | Some t \<Rightarrow> Some (f t))"
    by (simp add: item cong: option.case_cong)
  moreover have "map_of (map (\<lambda>(t, j). (j, t)) items) j = None"
    using Cons.prems(1) unfolding map_of_eq_None_iff by (force simp: item indexed_def)
  ultimately show ?case using Cons.prems
    by (cases "i = j") (auto simp: item indexed_def cong: option.case_cong)
qed simp

lemma indexed_validTexts: "indexed (length texts) (validTexts texts)"
proof -
  let ?zs = "map (\<lambda>(t, i). (trim t, i)) (zip texts [0..<length texts])"
  have "map snd ?zs = [0..<length texts]" by (simp add: comp_def case_prod_beta')
  then have "distinct (map snd ?zs)" "\<forall>z \<in> set ?zs. snd z < length texts"
    by (metis distinct_upt) (auto simp: set_zip)
  then show ?thesis unfolding indexed_def validTexts_def
    by (auto simp: distinct_map_filter)
qed

lemma validTexts_lookup:
  assumes "i < length texts"
  shows "map_of (map (\<lambda>(t, j). (j, t)) (validTexts texts)) i = (if trim (texts ! i) = [] then None else Some (trim (texts ! i)))"
proof -
  have mem: "(t, i) \<in> set (validTexts texts) \<longleftrightarrow> t = trim (texts ! i) \<and> t \<noteq> []" for t
    using assms by (auto simp: validTexts_def set_zip image_iff) (metis add_0 diff_zero fst_conv length_upt nth_upt snd_conv)
  have d: "distinct (map fst (map (\<lambda>(t, j). (j, t)) (validTexts texts)))"
    using indexed_validTexts [of texts] by (simp add: indexed_def comp_def case_prod_beta')
  show ?thesis
  proof (cases "trim (texts ! i) = []")
    case True
    then have "i \<notin> fst ` set (map (\<lambda>(t, j). (j, t)) (validTexts texts))" using mem by force
    with True show ?thesis by (simp only: map_of_eq_None_iff if_True simp_thms)
  next
    case False
    then have "(i, trim (texts ! i)) \<in> set (map (\<lambda>(t, j). (j, t)) (validTexts texts))" using mem by force
    with False d show ?thesis by (simp only: map_of_eq_Some_iff if_False)
  qed
qed

text \<open>What all batch paths compute when they place the same vectors.\<close>

definition aligned :: "(string \<Rightarrow> vector) \<Rightarrow> string list \<Rightarrow> vector list" where
  "aligned f texts = map (\<lambda>t. if trim t = [] then [] else f (trim t)) texts"

lemma placed_aligned:
  "map (\<lambda>v. case v of None \<Rightarrow> [] | Some x \<Rightarrow> x) (fold (place f) (validTexts texts) (replicate (length texts) None))
     = aligned f texts"
  using indexed_validTexts [of texts]
  by (intro nth_equalityI) (simp_all add: nth_fold_place validTexts_lookup aligned_def)

lemma place_batch_map: "place_batch items (map (\<lambda>item. f (fst item)) items) emb = fold (place f) items emb"
  by (induction items arbitrary: emb) auto

lemma hf_loop_pointwise:
  assumes "0 < bsize"
    and "\<And>k batch. batch_embeddings (sdk k batch) (direct k batch) = Inr (map f batch)"
  shows "hf_loop sdk direct bsize k items st = (fold (place f) items (fst st), snd st)"
proof (induction items arbitrary: k st rule: measure_induct_rule [of length])
  case (less items)
  show ?case
  proof (cases "items = []")
    case True
    then show ?thesis by (simp add: hf_loop.simps)
  next
    case False
    let ?b = "take bsize items"
    have "map f (map fst ?b) = map (\<lambda>item. f (fst item)) ?b" by simp
    then have "hf_loop sdk direct bsize k items st
        = hf_loop sdk direct bsize (Suc k) (drop bsize items) (fold (place f) ?b (fst st), snd st)"
      using False assms by (subst hf_loop.simps) (simp add: Let_def place_batch_map del: map_map)
    also have "\<dots> = (fold (place f) (drop bsize items) (fold (place f) ?b (fst st)), snd st)"
      using less [of "drop bsize items"] False assms(1) by simp
    also have "fold (place f) (drop bsize items) (fold (place f) ?b (fst st)) = fold (place f) items (fst st)"
      using fold_append [of "place f" ?b "drop bsize items"] by (simp add: fun_eq_iff)
    finally show ?thesis .
  qed
qed

text \<open>The local path places a vector for every text and records one error per text that failed.\<close>

definition local_vector :: "(string \<Rightarrow> local_reply) \<Rightarrow> string \<Rightarrow> vector" where
  "local_vector local t = (case generateEmbeddingLocal (local t) of Inr v \<Rightarrow> v | Inl _ \<Rightarrow> [])"

definition local_fails :: "(string \<Rightarrow> local_reply) \<Rightarrow> string \<Rightarrow> bool" where
  "local_fails local t = (case generateEmbeddingLocal (local t) of Inr v \<Rightarrow> False | Inl _ \<Rightarrow> True)"

lemma fold_local_step:
  "fst (fold (local_step local) items st) = fold (place (local_vector local)) items (fst st)
   \<and> length (snd (fold (local_step local) items st))
       = length (snd st) + length (filter (local_fails local) (map fst items))"
  by (induction items arbitrary: st)
    (auto simp: local_step_def place_def local_vector_def local_fails_def split: sum.splits)

lemma ceil_div_le: "0 < n \<Longrightarrow> n \<le> (b::nat) \<Longrightarrow> (n + b - 1) div b = 1"
  by (intro div_nat_eqI) auto

lemma map_fst_validTexts: "map fst (validTexts texts) = filter (\<lambda>t. t \<noteq> []) (map trim texts)"
proof -
  have "map fst (filter (\<lambda>(t, _). t \<noteq> []) zs) = filter (\<lambda>t. t \<noteq> []) (map fst zs)" for zs :: "(string \<times> nat) list"
    by (induction zs) auto
  moreover have "map fst (map (\<lambda>(t, i). (trim t, i)) (zip texts [0..<length texts])) = map trim texts"
    by (rule nth_equalityI) simp_all
  ultimately show ?thesis unfolding validTexts_def by metis
qed


lemma local_failures:
  assumes "es_provider es = Local" "texts \<noteq> []" "\<forall>t \<in> set texts. trim t \<noteq> []" "length texts \<le> batchSize"
  shows "if length (filter (local_fails local) (map trim texts)) = 1
    then \<exists>errors. generateEmbeddings es local sdk direct texts batchSize = Inl (AllBatchesFailed errors)
    else generateEmbeddings es local sdk direct texts batchSize = Inr (map (\<lambda>t. local_vector local (trim t)) texts)"
proof -
  have valid: "map fst (validTexts texts) = map trim texts"
    unfolding map_fst_validTexts using assms(3) by (auto simp: filter_id_conv)
  then have len: "length (validTexts texts) = length texts" by (metis length_map)
  have ceil: "(length (validTexts texts) + batchSize - 1) div batchSize = 1"
    using assms(2,4) by (intro ceil_div_le) (simp_all add: len)
  obtain emb errors where st: "fold (local_step local) (validTexts texts) (replicate (length texts) None, []) = (emb, errors)"
    by (cases "fold (local_step local) (validTexts texts) (replicate (length texts) None, [])")
  have "emb = fold (place (local_vector local)) (validTexts texts) (replicate (length texts) None)"
    and n: "length errors = length (filter (local_fails local) (map trim texts))"
    using fold_local_step [of local "validTexts texts" "(replicate (length texts) None, [])"] st valid by auto
  then have out: "map (\<lambda>v. case v of None \<Rightarrow> [] | Some x \<Rightarrow> x) emb = map (\<lambda>t. local_vector local (trim t)) texts"
    using placed_aligned [of "local_vector local" texts] assms(3) by (simp add: aligned_def)
  have "validTexts texts \<noteq> []" using len assms(2) by auto
  then have g: "generateEmbeddings es local sdk direct texts batchSize =
      (if length errors = 1 then Inl (AllBatchesFailed errors) else Inr (map (\<lambda>t. local_vector local (trim t)) texts))"
    using assms(1,2) ceil st assms(4)
    by (auto simp: generateEmbeddings_def Let_def out)
  show ?thesis unfolding g n by simp
qed

lemma length_place_batch: "length (place_batch items vs emb) = length emb"
  by (induction items vs emb rule: place_batch.induct) simp_all

lemma length_hf_loop: "length (fst (hf_loop sdk direct bsize k items st)) = length (fst st)"
proof (induction sdk direct bsize k items st rule: hf_loop.induct)
  case (1 sdk direct bsize k items st)
  then show ?case
    by (subst hf_loop.simps) (auto simp: Let_def length_place_batch split: sum.splits)
qed

lemma length_generateEmbeddings:
  assumes "generateEmbeddings es local sdk direct texts bsize = Inr vs"
  shows "length vs = length texts"
proof -
  let ?init = "(replicate (length texts) (None :: vector option), [] :: string list)"
  have l: "length (fst (fold (local_step local) (validTexts texts) ?init)) = length texts"
    using fold_local_step [of local "validTexts texts" ?init] by simp
  have h: "length (fst (hf_loop sdk direct bsize 0 (validTexts texts) ?init)) = length texts"
    using length_hf_loop [of sdk direct bsize 0 "validTexts texts" ?init] by simp
  show ?thesis using assms l h
    by (auto simp: generateEmbeddings_def Let_def split: if_splits prod.splits)
qed

lemma generateEmbeddings_valid:
  "t \<in> set texts \<Longrightarrow> trim t \<noteq> [] \<Longrightarrow> generateEmbeddings es local sdk direct texts bsize \<noteq> Inl NoValidTexts"
proof -
  assume "t \<in> set texts" "trim t \<noteq> []"
  then have "filter (\<lambda>t. t \<noteq> []) (map trim texts) \<noteq> []" by (auto simp: filter_empty_conv)
  then have "validTexts texts \<noteq> []" by (metis map_fst_validTexts list.map_disc_iff)
  then show ?thesis by (simp add: generateEmbeddings_def Let_def split: prod.splits)
qed


section \<open>Interface: embedding a batch\<close>

text \<open>
  What a client of the batch operation relies on: one vector per text, and no complaint about
  blank texts when there is a text that is not blank.
\<close>

locale batch_embedder =
  fixes embed_batch :: "string list \<Rightarrow> batch_error + vector list"
  assumes one_per_text: "embed_batch texts = Inr vs \<Longrightarrow> length vs = length texts"
    and accepts: "t \<in> set texts \<Longrightarrow> trim t \<noteq> [] \<Longrightarrow> embed_batch texts \<noteq> Inl NoValidTexts"
begin

lemma pairs_cover: "embed_batch (map f xs) = Inr vs \<Longrightarrow> map fst (zip xs vs) = xs"
  using one_per_text [of "map f xs" vs] by simp

lemma nonblank_batch: "xs \<noteq> [] \<Longrightarrow> (\<And>x. x \<in> set xs \<Longrightarrow> trim (f x) \<noteq> []) \<Longrightarrow> embed_batch (map f xs) \<noteq> Inl NoValidTexts"
  using accepts [of "f (hd xs)" "map f xs"] by (cases xs) auto

end

interpretation be: batch_embedder "\<lambda>texts. generateEmbeddings es local sdk direct texts bsize"
  by unfold_locales (auto dest: length_generateEmbeddings generateEmbeddings_valid)


section \<open>Properties\<close>

text \<open>
  C19. Batching is invisible: if the service answers every batch with one vector per text, the
  result has the vector of each text at the position of the text and an empty vector for each
  blank text, for every batch size.
\<close>

theorem embeddings_aligned:
  assumes "es_provider es = HuggingFace" "0 < batchSize"
    and "\<And>k batch. sdk k batch = SdkOk (BRows (map (\<lambda>t. RVec (f t)) batch))"
    and "\<exists>t \<in> set texts. trim t \<noteq> []"
  shows "generateEmbeddings es local sdk direct texts batchSize
    = Inr (map (\<lambda>t. if trim t = [] then [] else f (trim t)) texts)"
proof -
  have b: "batch_embeddings (sdk k batch) (direct k batch) = Inr (map f batch)" for k batch
    by (simp add: assms(3) batch_embeddings_def sdk_batch_def comp_def)
  have "map fst (validTexts texts) \<noteq> []" using assms(4) by (auto simp: map_fst_validTexts filter_empty_conv)
  then have "validTexts texts \<noteq> []" by auto
  moreover have "texts \<noteq> []" using assms(4) by auto
  ultimately show ?thesis
    using assms(1,2) hf_loop_pointwise [OF assms(2) b] placed_aligned [of f texts]
    by (simp add: generateEmbeddings_def aligned_def)
qed

theorem embeddings_aligned_witness:
  "generateEmbeddings (new_EmbeddingService HuggingFace) (\<lambda>_. LOther)
     (\<lambda>k batch. SdkOk (BRows (map (\<lambda>t. RVec [real (length t), 1]) batch))) (\<lambda>k batch. HttpFails ''down'')
     [''ab'', '' '', ''cde ''] 1 = Inr [[2, 1], [], [3, 1]]"
proof -
  have "trim ''ab'' = ''ab''" "trim '' '' = []" "trim ''cde '' = ''cde''" by code_simp+
  then show ?thesis
    using embeddings_aligned [of "new_EmbeddingService HuggingFace" 1
      "\<lambda>k batch. SdkOk (BRows (map (\<lambda>t. RVec [real (length t), 1]) batch))" "\<lambda>t. [real (length t), 1]"
      "[''ab'', '' '', ''cde '']" "\<lambda>_. LOther" "\<lambda>k batch. HttpFails ''down''"]
    by (simp add: new_EmbeddingService_def)
qed

text \<open>
  With the local provider, which has no batches, the check for failed batches counts texts:
  a request of at most one batch size of texts fails exactly when one text failed, and answers
  with empty vectors when two or more failed, even when all did.
\<close>

theorem local_failure_count:
  assumes "es_provider es = Local" "texts \<noteq> []" "\<forall>t \<in> set texts. trim t \<noteq> []" "length texts \<le> batchSize"
  shows "if length (filter (local_fails local) (map trim texts)) = 1
    then \<exists>errors. generateEmbeddings es local sdk direct texts batchSize = Inl (AllBatchesFailed errors)
    else generateEmbeddings es local sdk direct texts batchSize = Inr (map (\<lambda>t. local_vector local (trim t)) texts)"
  by (rule local_failures [OF assms])

theorem local_failure_count_witness:
  "generateEmbeddings (new_EmbeddingService Local) (\<lambda>_. LThrows ''no model'') (\<lambda>k batch. SdkThrows ''x'')
     (\<lambda>k batch. HttpFails ''x'') [''a'', ''b''] 100 = Inr [[], []]"
proof -
  have "trim ''a'' = ''a''" "trim ''b'' = ''b''" by code_simp+
  then show ?thesis
    using local_failure_count [of "new_EmbeddingService Local" "[''a'', ''b'']" 100 "\<lambda>_. LThrows ''no model''"
      "\<lambda>k batch. SdkThrows ''x''" "\<lambda>k batch. HttpFails ''x''"]
    by (simp add: new_EmbeddingService_def local_fails_def local_vector_def generateEmbeddingLocal_def)
qed

end
