(* ===== verification/Vector_Store.thy ===== *)
theory Vector_Store
  imports Embedding_Service
begin

text \<open>
  Model of \<open>rag/resilientdb-vector-store.ts\<close>: document chunks with their embeddings kept in
  ResilientDB. What the GraphQL server, the HTTP wrapper and the random generator answer are
  arguments. Numbers are reals, and the arithmetic of the similarity rounds every result with a function
  that is an argument, as floating point does where nothing overflows. The theory shows that, whatever the rounding, a
  search returns the chunks of the highest computed similarity in order, and what makes it fail.
\<close>

record StoredMetadata =
  sm_documentId :: string
  sm_section :: "string option"
  sm_type :: string
  sm_timestamp :: "string option"

record StoredChunk =
  st_id :: string
  st_chunkText :: string
  st_embedding :: vector
  st_source :: string
  st_chunkIndex :: nat
  st_metadata :: StoredMetadata

text \<open>The parts of an asset object that are read; \<^const>\<open>None\<close> is a missing field.\<close>

record AssetMetadata =
  am_documentId :: "string option"
  am_section :: "string option"
  am_type :: "string option"
  am_timestamp :: "string option"

record Asset =
  as_id :: "string option"
  as_type :: "string option"
  as_chunkText :: "string option"
  as_embedding :: "vector option"
  as_source :: "string option"
  as_chunkIndex :: "nat option"
  as_metadata :: "AssetMetadata option"

text \<open>An asset field: missing or null, text that is not JSON, an object (possibly from JSON text), or a plain value.\<close>

datatype asset_val = AssetMissing | AssetBadJson string | AssetObject Asset | AssetPlain

record Transaction =
  tx_id :: string
  tx_timestamp :: "string option"
  tx_asset :: asset_val

datatype gql_result = GqlThrows string | GqlNoArray | GqlArray "Transaction list"

datatype list_item = ItemText string | ItemWithId string | ItemOther string
datatype list_reply = ListFails string | ListArray "list_item list" | ListObject "string list" | ListOther

record Detail =
  dt_id :: "string option"
  dt_value :: "asset_val option"
  dt_self :: Asset
  dt_timestamp :: "string option"

record VectorStore =
  vs_schemaCache :: "(string list \<times> string list) option"
  vs_mutationName :: "string option"
  vs_queryName :: "string option"

definition new_VectorStore :: VectorStore where
  "new_VectorStore = \<lparr>vs_schemaCache = None, vs_mutationName = None, vs_queryName = None\<rparr>"

text \<open>JavaScript's \<open>||\<close> on an optional string: the empty string counts as missing.\<close>

definition or_str :: "string option \<Rightarrow> string \<Rightarrow> string" where
  "or_str s d = (case s of None \<Rightarrow> d | Some x \<Rightarrow> if x = [] then d else x)"

definition or_opt :: "string option \<Rightarrow> string option \<Rightarrow> string option" where
  "or_opt s d = (case s of None \<Rightarrow> d | Some x \<Rightarrow> if x = [] then d else Some x)"

definition truthy :: "string option \<Rightarrow> bool" where
  "truthy s = (case s of None \<Rightarrow> False | Some x \<Rightarrow> x \<noteq> [])"


section \<open>Schema discovery\<close>

definition possibleMutations :: "string list" where
  "possibleMutations = [''posttransaction'', ''createtransaction'', ''createasset'', ''addtransaction'', ''addasset'']"

definition possibleQueries :: "string list" where
  "possibleQueries = [''transactions'', ''gettransactions'', ''alltransactions'', ''assets'', ''getassets'',
     ''allassets'', ''querytransactions'', ''gettransaction'']"

text \<open>The actual name of the first pattern that some name of the schema matches.\<close>

fun find_name :: "string list \<Rightarrow> string list \<Rightarrow> string option" where
  "find_name [] names = None"
| "find_name (p # ps) names =
     (case find (\<lambda>n. toLowerCase n = p) names of Some n \<Rightarrow> Some n | None \<Rightarrow> find_name ps names)"

definition or_keep :: "'a option \<Rightarrow> 'a option \<Rightarrow> 'a option" where
  "or_keep new old = (case new of None \<Rightarrow> old | Some x \<Rightarrow> Some x)"

text \<open>\<open>introspect\<close> is the client's answer: mutation and query names, or \<^const>\<open>None\<close> when it throws.\<close>

definition discoverSchema :: "(string list \<times> string list) option \<Rightarrow> VectorStore \<Rightarrow> VectorStore" where
  "discoverSchema introspect vs =
     (if vs_schemaCache vs \<noteq> None \<and> truthy (vs_mutationName vs) \<and> truthy (vs_queryName vs) then vs
      else case introspect of
          None \<Rightarrow> vs
        | Some (mutations, queries) \<Rightarrow>
            vs\<lparr>vs_schemaCache := Some (mutations, queries),
               vs_mutationName := or_keep (find_name possibleMutations mutations) (vs_mutationName vs),
               vs_queryName := or_keep (find_name possibleQueries queries) (vs_queryName vs)\<rparr>)"


section \<open>Storing\<close>

text \<open>\<open>url.replace(/:\d+$/, '')\<close>.\<close>

definition drop_port :: "string \<Rightarrow> string" where
  "drop_port url =
     (let digits = takeWhile is_digit (rev url); rest = dropWhile is_digit (rev url)
      in if digits \<noteq> [] \<and> rest \<noteq> [] \<and> hd rest = CHR '':'' then rev (tl rest) else url)"

definition wrapper_url :: "string \<Rightarrow> string" where
  "wrapper_url graphqlUrl =
     (let u = replace_first graphqlUrl ''/graphql'' []
      in if str_includes u '':5001'' then replace_first u '':5001'' '':18001''
         else if str_includes u '':18000'' then replace_first u '':18000'' '':18001''
         else if \<not> str_includes u '':18001'' then drop_port u @ '':18001''
         else u)"

datatype store_reply = StoreFails string | StoreStatus nat string | StoreOk "string option"

definition chunk_id :: "int \<Rightarrow> nat \<Rightarrow> string \<Rightarrow> string" where
  "chunk_id now index rand = ''chunk_'' @ show_int now @ ''_'' @ show_nat index @ ''_'' @ rand"

definition store_error :: "string \<Rightarrow> string \<Rightarrow> string" where
  "store_error graphqlUrl msg =
     ''Failed to store chunk in ResilientDB via HTTP API.'' @ [CHR 0x0A] @ ''HTTP Error: '' @ msg @ [CHR 0x0A]
     @ ''Please verify ResilientDB KV service is running and accessible at ''
     @ replace_first (replace_first graphqlUrl ''/graphql'' []) '':5001'' '':18000''"

record ChunkInput =
  ci_chunkText :: string
  ci_embedding :: vector
  ci_source :: string
  ci_chunkIndex :: nat
  ci_metadata :: AssetMetadata

definition chunkData :: "string \<Rightarrow> string \<Rightarrow> ChunkInput \<Rightarrow> Asset" where
  "chunkData chunkId stamp chunk =
     \<lparr>as_id = Some chunkId, as_type = Some ''DocumentChunk'', as_chunkText = Some (ci_chunkText chunk),
      as_embedding = Some (ci_embedding chunk), as_source = Some (ci_source chunk),
      as_chunkIndex = Some (ci_chunkIndex chunk),
      as_metadata = Some ((ci_metadata chunk)\<lparr>am_timestamp := Some stamp\<rparr>)\<rparr>"

text \<open>\<open>storeChunk\<close>: \<open>post url id asset\<close> is what the wrapper answers to the request.\<close>

definition storeChunk ::
  "string \<Rightarrow> (string list \<times> string list) option \<Rightarrow> (string \<Rightarrow> string \<Rightarrow> Asset \<Rightarrow> store_reply) \<Rightarrow> int \<Rightarrow> string
     \<Rightarrow> string \<Rightarrow> ChunkInput \<Rightarrow> VectorStore \<Rightarrow> (string + string) \<times> VectorStore" where
  "storeChunk graphqlUrl introspect post now stamp rand chunk vs =
     (let vs' = discoverSchema introspect vs; chunkId = chunk_id now (ci_chunkIndex chunk) rand
      in (case post (wrapper_url graphqlUrl @ ''/v1/transactions/commit'') chunkId (chunkData chunkId stamp chunk) of
            StoreOk rid \<Rightarrow> Inr (or_str rid chunkId)
          | StoreStatus status txt \<Rightarrow> Inl (store_error graphqlUrl (''HTTP '' @ show_nat status @ '': '' @ txt))
          | StoreFails msg \<Rightarrow> Inl (store_error graphqlUrl msg), vs'))"


section \<open>Reading all chunks\<close>

definition is_valid_asset :: "Asset \<Rightarrow> bool" where
  "is_valid_asset a \<longleftrightarrow> as_type a = Some ''DocumentChunk''
     \<and> truthy (as_chunkText a) \<and> as_embedding a \<noteq> None \<and> truthy (as_source a)"

definition asset_chunk :: "string \<Rightarrow> string option \<Rightarrow> Asset \<Rightarrow> StoredChunk" where
  "asset_chunk txId txTimestamp a =
     (let field = (\<lambda>f. case as_metadata a of None \<Rightarrow> None | Some m \<Rightarrow> f m)
      in \<lparr>st_id = or_str (as_id a) txId, st_chunkText = the (as_chunkText a),
          st_embedding = the (as_embedding a), st_source = the (as_source a),
          st_chunkIndex = (case as_chunkIndex a of None \<Rightarrow> 0 | Some i \<Rightarrow> i),
          st_metadata = \<lparr>sm_documentId = or_str (field am_documentId) [], sm_section = field am_section,
             sm_type = or_str (field am_type) ''documentation'', sm_timestamp = or_opt (field am_timestamp) txTimestamp\<rparr>\<rparr>)"

text \<open>The transactions of a GraphQL answer; text that is not JSON throws and gives up the pattern.\<close>

fun parse_transactions :: "Transaction list \<Rightarrow> string + StoredChunk list" where
  "parse_transactions [] = Inr []"
| "parse_transactions (t # ts) =
     (case tx_asset t of
        AssetBadJson msg \<Rightarrow> Inl msg
      | AssetObject a \<Rightarrow>
          (case parse_transactions ts of
             Inl e \<Rightarrow> Inl e
           | Inr cs \<Rightarrow> Inr (if is_valid_asset a then asset_chunk (tx_id t) (tx_timestamp t) a # cs else cs))
      | _ \<Rightarrow> parse_transactions ts)"

text \<open>The query texts, line by line as in the template literals.\<close>

definition template :: "string list \<Rightarrow> string" where
  "template ls = join [CHR 0x0A] ls"

definition allTransactions_query :: "string" where
  "allTransactions_query = template
    [[],
     ''            query GetAllChunks($limit: Int) {'',
     ''              getAllTransactions(limit: $limit) {'',
     ''                id'',
     ''                asset'',
     ''              }'',
     ''            }'',
     ''          '']"

definition pattern1_query :: "string \<Rightarrow> string" where
  "pattern1_query query = template
    [[],
     ''            query GetDocumentChunks($limit: Int, $type: String) {'',
     ''              '' @ query @ ''(limit: $limit, filter: { assetType: $type }) {'',
     ''                id'',
     ''                timestamp'',
     ''                asset {'',
     ''                  id'',
     ''                  type'',
     ''                  chunkText'',
     ''                  embedding'',
     ''                  source'',
     ''                  chunkIndex'',
     ''                  metadata'',
     ''                }'',
     ''              }'',
     ''            }'',
     ''          '']"

definition pattern2_query :: "string \<Rightarrow> string" where
  "pattern2_query query = template
    [[],
     ''            query GetDocumentChunks($limit: Int) {'',
     ''              '' @ query @ ''(limit: $limit) {'',
     ''                id'',
     ''                timestamp'',
     ''                asset'',
     ''              }'',
     ''            }'',
     ''          '']"

definition transactions_query :: "string" where
  "transactions_query = template
    [[],
     ''          query GetDocumentChunks($limit: Int, $type: String) {'',
     ''            transactions(limit: $limit, filter: { assetType: $type }) {'',
     ''              id'',
     ''              timestamp'',
     ''              asset {'',
     ''                id'',
     ''                type'',
     ''                chunkText'',
     ''                embedding'',
     ''                source'',
     ''                chunkIndex'',
     ''                metadata'',
     ''              }'',
     ''            }'',
     ''          }'',
     ''        '']"

definition assets_query :: "string" where
  "assets_query = template
    [[],
     ''          query GetAssets($limit: Int, $type: String) {'',
     ''            assets(limit: $limit, type: $type) {'',
     ''              id'',
     ''              type'',
     ''              chunkText'',
     ''              embedding'',
     ''              source'',
     ''              chunkIndex'',
     ''              metadata'',
     ''            }'',
     ''          }'',
     ''        '']"

definition allTransactions_fallback_query :: "string" where
  "allTransactions_fallback_query = template
    [[],
     ''          query GetAllTransactions($limit: Int) {'',
     ''            allTransactions(limit: $limit) {'',
     ''              id'',
     ''              timestamp'',
     ''              asset'',
     ''            }'',
     ''          }'',
     ''        '']"

record QueryPattern =
  qp_name :: string
  qp_query :: string
  qp_limit :: nat
  qp_type :: "string option"

definition queriesToTry :: "string option \<Rightarrow> nat \<Rightarrow> QueryPattern list" where
  "queriesToTry queryName limit =
     (case queryName of
        None \<Rightarrow> []
      | Some query \<Rightarrow> if query = [] then []
          else [\<lparr>qp_name = ''getAllTransactions (new)'', qp_query = allTransactions_query, qp_limit = limit, qp_type = None\<rparr>,
                \<lparr>qp_name = query @ '' (pattern 1)'', qp_query = pattern1_query query, qp_limit = limit, qp_type = Some ''DocumentChunk''\<rparr>,
                \<lparr>qp_name = query @ '' (pattern 2)'', qp_query = pattern2_query query, qp_limit = limit, qp_type = None\<rparr>])"

definition fallbackQueries :: "nat \<Rightarrow> QueryPattern list" where
  "fallbackQueries limit =
     [\<lparr>qp_name = ''transactions (fallback)'', qp_query = transactions_query, qp_limit = limit, qp_type = Some ''DocumentChunk''\<rparr>,
      \<lparr>qp_name = ''assets (fallback)'', qp_query = assets_query, qp_limit = limit, qp_type = Some ''DocumentChunk''\<rparr>,
      \<lparr>qp_name = ''allTransactions (fallback)'', qp_query = allTransactions_fallback_query, qp_limit = limit, qp_type = None\<rparr>]"

definition allQueries :: "VectorStore \<Rightarrow> nat \<Rightarrow> QueryPattern list" where
  "allQueries vs limit = queriesToTry (vs_queryName vs) limit @ fallbackQueries limit"

text \<open>The patterns in order: the first that answers with an array and parses wins.\<close>

fun try_patterns :: "(QueryPattern \<Rightarrow> gql_result) \<Rightarrow> QueryPattern list \<Rightarrow> string list \<Rightarrow> string list + StoredChunk list" where
  "try_patterns exec [] errors = Inl errors"
| "try_patterns exec (p # ps) errors =
     (case exec p of
        GqlThrows msg \<Rightarrow> try_patterns exec ps (errors @ [qp_name p @ '': '' @ msg])
      | GqlNoArray \<Rightarrow> try_patterns exec ps errors
      | GqlArray txs \<Rightarrow>
          (case parse_transactions txs of
             Inl msg \<Rightarrow> try_patterns exec ps (errors @ [qp_name p @ '': '' @ msg])
           | Inr cs \<Rightarrow> Inr cs))"

definition list_ids :: "list_reply \<Rightarrow> string list" where
  "list_ids reply =
     (case reply of
        ListArray items \<Rightarrow> map (\<lambda>i. case i of ItemText t \<Rightarrow> t | ItemWithId d \<Rightarrow> d | ItemOther t \<Rightarrow> t) items
      | ListObject keys \<Rightarrow> keys
      | _ \<Rightarrow> [])"

text \<open>
  \<open>getAllTransactionsViaHTTP\<close>: \<open>detail\<close> is the wrapper's answer for an id, \<^const>\<open>None\<close> when the
  request fails or its body is not an object.
\<close>

definition getAllTransactionsViaHTTP :: "list_reply \<Rightarrow> (string \<Rightarrow> Detail option) \<Rightarrow> string + Transaction list" where
  "getAllTransactionsViaHTTP reply detail =
     (case reply of
        ListFails msg \<Rightarrow> Inl (''Failed to retrieve transactions via HTTP API: '' @ msg)
      | _ \<Rightarrow> Inr (List.map_filter
          (\<lambda>i. map_option (\<lambda>d. \<lparr>tx_id = or_str (dt_id d) i, tx_timestamp = dt_timestamp d,
             tx_asset = (case dt_value d of None \<Rightarrow> AssetObject (dt_self d) | Some v \<Rightarrow> v)\<rparr>) (detail i))
          (take 1000 (list_ids reply))))"

definition http_chunks :: "Transaction list \<Rightarrow> StoredChunk list" where
  "http_chunks txs = List.map_filter
     (\<lambda>t. case tx_asset t of
        AssetObject a \<Rightarrow> if is_valid_asset a then Some (asset_chunk (tx_id t) (tx_timestamp t) a) else None
      | _ \<Rightarrow> None) txs"

text \<open>The world of the store: its servers, and the rounding of arithmetic.\<close>

record StoreWorld =
  sw_introspect :: "(string list \<times> string list) option"
  sw_exec :: "QueryPattern \<Rightarrow> gql_result"
  sw_list :: list_reply
  sw_detail :: "string \<Rightarrow> Detail option"
  sw_round :: "real \<Rightarrow> real"

text \<open>
  \<open>getAllChunks\<close>. The branch on \<open>chunkIndexId\<close> is not modelled: the field is never assigned.
  The error lists the number of patterns tried and the errors.
\<close>

definition getAllChunks ::
  "StoreWorld \<Rightarrow> nat \<Rightarrow> VectorStore \<Rightarrow> (nat \<times> string list \<times> string + StoredChunk list) \<times> VectorStore" where
  "getAllChunks w limit vs =
     (let vs' = discoverSchema (sw_introspect w) vs; patterns = allQueries vs' limit
      in (case try_patterns (sw_exec w) patterns [] of
            Inr cs \<Rightarrow> Inr (take limit cs)
          | Inl errors \<Rightarrow>
              (case getAllTransactionsViaHTTP (sw_list w) (sw_detail w) of
                 Inr txs \<Rightarrow> Inr (take limit (http_chunks txs))
               | Inl msg \<Rightarrow> Inl (length patterns, errors, msg)), vs'))"



section \<open>Search\<close>

text \<open>The accumulators of the loop of \<open>cosineSimilarity\<close>; \<open>rnd\<close> rounds the result of each operation.\<close>

fun cosine_loop :: "(real \<Rightarrow> real) \<Rightarrow> vector \<Rightarrow> vector \<Rightarrow> real \<times> real \<times> real \<Rightarrow> real \<times> real \<times> real" where
  "cosine_loop rnd (x # xs) (y # ys) (dot, na, nb) =
     cosine_loop rnd xs ys (rnd (dot + rnd (x * y)), rnd (na + rnd (x * x)), rnd (nb + rnd (y * y)))"
| "cosine_loop rnd _ _ acc = acc"

definition cosineSimilarity :: "(real \<Rightarrow> real) \<Rightarrow> vector \<Rightarrow> vector \<Rightarrow> real option" where
  "cosineSimilarity rnd a b =
     (if length a \<noteq> length b then None
      else (let (dot, na, nb) = cosine_loop rnd a b (0, 0, 0); denominator = rnd (rnd (sqrt na) * rnd (sqrt nb))
            in Some (if denominator = 0 then 0 else rnd (dot / denominator))))"

record SearchFilters =
  sf_source :: "string option"
  sf_type :: "string option"

definition passes :: "SearchFilters \<Rightarrow> StoredChunk \<Rightarrow> bool" where
  "passes f chunk \<longleftrightarrow>
     \<not> (truthy (sf_source f) \<and> Some (st_source chunk) \<noteq> sf_source f)
     \<and> \<not> (truthy (sf_type f) \<and> Some (sm_type (st_metadata chunk)) \<noteq> sf_type f)"

definition apply_filters :: "SearchFilters option \<Rightarrow> StoredChunk list \<Rightarrow> StoredChunk list" where
  "apply_filters filters chunks = (case filters of None \<Rightarrow> chunks | Some f \<Rightarrow> filter (passes f) chunks)"

text \<open>The similarities of all chunks; the first mismatch of lengths throws.\<close>

fun similarities :: "(real \<Rightarrow> real) \<Rightarrow> vector \<Rightarrow> StoredChunk list \<Rightarrow> (StoredChunk \<times> real) list option" where
  "similarities rnd q [] = Some []"
| "similarities rnd q (c # cs) =
     (case cosineSimilarity rnd q (st_embedding c) of
        None \<Rightarrow> None
      | Some s \<Rightarrow> map_option (\<lambda>rest. (c, s) # rest) (similarities rnd q cs))"

datatype search_error = RetrievalFailed "nat \<times> string list \<times> string" | LengthMismatch

definition rank_chunks ::
  "(real \<Rightarrow> real) \<Rightarrow> vector \<Rightarrow> nat \<Rightarrow> SearchFilters option \<Rightarrow> StoredChunk list \<Rightarrow> search_error + StoredChunk list" where
  "rank_chunks rnd queryEmbedding limit filters chunks =
     (case similarities rnd queryEmbedding (apply_filters filters chunks) of
        None \<Rightarrow> Inl LengthMismatch
      | Some ps \<Rightarrow> Inr (map fst (take limit (sort_desc snd ps))))"

definition searchSimilar ::
  "StoreWorld \<Rightarrow> vector \<Rightarrow> nat \<Rightarrow> SearchFilters option \<Rightarrow> VectorStore \<Rightarrow> (search_error + StoredChunk list) \<times> VectorStore" where
  "searchSimilar w queryEmbedding limit filters vs =
     (case getAllChunks w 1000 vs of
        (Inl e, vs') \<Rightarrow> (Inl (RetrievalFailed e), vs')
      | (Inr chunks, vs') \<Rightarrow> (rank_chunks (sw_round w) queryEmbedding limit filters chunks, vs'))"

definition store_healthCheck :: "StoreWorld \<Rightarrow> VectorStore \<Rightarrow> bool \<times> VectorStore" where
  "store_healthCheck w vs = (case getAllChunks w 1000 vs of (Inl _, vs') \<Rightarrow> (False, vs') | (Inr _, vs') \<Rightarrow> (True, vs'))"

record MetadataFilters = SearchFilters +
  mf_documentId :: "string option"

definition passes_metadata :: "MetadataFilters \<Rightarrow> StoredChunk \<Rightarrow> bool" where
  "passes_metadata f chunk \<longleftrightarrow> passes (SearchFilters.truncate f) chunk
     \<and> \<not> (truthy (mf_documentId f) \<and> Some (sm_documentId (st_metadata chunk)) \<noteq> mf_documentId f)"

definition getChunksByMetadata ::
  "StoreWorld \<Rightarrow> MetadataFilters \<Rightarrow> VectorStore \<Rightarrow> (nat \<times> string list \<times> string + StoredChunk list) \<times> VectorStore" where
  "getChunksByMetadata w filters vs =
     (case getAllChunks w 1000 vs of
        (Inl e, vs') \<Rightarrow> (Inl e, vs')
      | (Inr chunks, vs') \<Rightarrow> (Inr (filter (passes_metadata filters) chunks), vs'))"

definition deleteChunk :: "string \<Rightarrow> string + unit" where
  "deleteChunk chunkId = Inl ''Not yet implemented''"

definition getChunkCount ::
  "StoreWorld \<Rightarrow> VectorStore \<Rightarrow> (nat \<times> string list \<times> string + nat) \<times> VectorStore" where
  "getChunkCount w vs =
     (case getAllChunks w 1000 vs of (Inl e, vs') \<Rightarrow> (Inl e, vs') | (Inr chunks, vs') \<Rightarrow> (Inr (length chunks), vs'))"


section \<open>Interface: search by score\<close>

text \<open>
  What a client relies on: a search either fails because some candidate cannot be compared, or
  gives the first candidates of the stable descending order of their scores.
\<close>

locale scored_search =
  fixes search :: "'q \<Rightarrow> nat \<Rightarrow> 'c list \<Rightarrow> 'e + 'c list"
    and score :: "'q \<Rightarrow> 'c \<Rightarrow> real"
    and comparable :: "'q \<Rightarrow> 'c \<Rightarrow> bool"
  assumes search_ok: "list_all (comparable q) cs \<Longrightarrow> search q n cs = Inr (take n (sort_desc (score q) cs))"
    and search_fails: "\<not> list_all (comparable q) cs \<Longrightarrow> \<exists>e. search q n cs = Inl e"
begin

lemma search_total_or_none: "search q n cs = Inr rs \<longleftrightarrow> list_all (comparable q) cs \<and> rs = take n (sort_desc (score q) cs)"
  using search_ok [of q cs n] search_fails [of q cs n] by (cases "list_all (comparable q) cs") auto

lemma results_comparable: "search q n cs = Inr rs \<Longrightarrow> r \<in> set rs \<Longrightarrow> comparable q r \<and> r \<in> set cs"
  unfolding search_total_or_none list_all_iff using top_k_subset [of n "score q" cs] by blast

text \<open>A threshold and a limit on at least as many results see the best of all candidates.\<close>

lemma threshold_best:
  assumes "search q m cs = Inr rs" "n \<le> m"
  shows "take n (sort_desc (score q) (filter (\<lambda>c. t \<le> score q c) rs))
    = take n (filter (\<lambda>c. t \<le> score q c) (sort_desc (score q) cs))"
proof -
  have rs: "rs = take m (sort_desc (score q) cs)" using assms(1) search_total_or_none by blast
  have "sorted_wrt (\<lambda>x y. score q y \<le> score q x) (filter (\<lambda>c. t \<le> score q c) rs)"
    unfolding rs by (intro sorted_wrt_filter sorted_wrt_take sorted_sort_desc)
  then have "sort_desc (score q) (filter (\<lambda>c. t \<le> score q c) rs) = filter (\<lambda>c. t \<le> score q c) rs"
    by (rule sort_desc_sorted_id)
  then show ?thesis unfolding rs using take_filter_desc [OF sorted_sort_desc [of "score q" cs] assms(2), of t] by simp
qed

lemma best_kept:
  assumes "search q n cs = Inr rs" "c \<in> set cs"
  shows "c \<in> set rs \<or> length rs = n \<and> (\<forall>r \<in> set rs. score q c \<le> score q r)"
  using top_k_cover [OF assms(2), of n "score q"] assms(1) unfolding search_total_or_none by auto

end

definition chunk_score :: "(real \<Rightarrow> real) \<Rightarrow> vector \<Rightarrow> StoredChunk \<Rightarrow> real" where
  "chunk_score rnd q c = the (cosineSimilarity rnd q (st_embedding c))"

definition same_dimension :: "vector \<Rightarrow> StoredChunk \<Rightarrow> bool" where
  "same_dimension q c \<longleftrightarrow> length q = length (st_embedding c)"

lemma cosineSimilarity_defined:
  "same_dimension q c \<Longrightarrow> cosineSimilarity rnd q (st_embedding c) = Some (chunk_score rnd q c)"
  "\<not> same_dimension q c \<Longrightarrow> cosineSimilarity rnd q (st_embedding c) = None"
  by (simp_all add: same_dimension_def chunk_score_def cosineSimilarity_def Let_def case_prod_beta)

lemma similarities_eq:
  "similarities rnd q cs = (if list_all (same_dimension q) cs then Some (map (\<lambda>c. (c, chunk_score rnd q c)) cs) else None)"
proof (induction cs)
  case (Cons c cs)
  then show ?case by (cases "same_dimension q c") (simp_all add: cosineSimilarity_defined)
qed simp

definition plain_search :: "(real \<Rightarrow> real) \<Rightarrow> vector \<Rightarrow> nat \<Rightarrow> StoredChunk list \<Rightarrow> search_error + StoredChunk list" where
  "plain_search rnd q n cs = rank_chunks rnd q n None cs"

interpretation vs: scored_search "plain_search rnd" "chunk_score rnd" same_dimension for rnd
proof
  show "plain_search rnd q n cs = Inr (take n (sort_desc (chunk_score rnd q) cs))" if "list_all (same_dimension q) cs" for q n cs
    using that by (simp add: plain_search_def rank_chunks_def apply_filters_def similarities_eq sort_desc_map
        take_map [symmetric] comp_def)
  show "\<exists>e. plain_search rnd q n cs = Inl e" if "\<not> list_all (same_dimension q) cs" for q n cs
    using that by (simp add: plain_search_def rank_chunks_def apply_filters_def similarities_eq)
qed

lemma rank_chunks_filters: "rank_chunks rnd q n filters cs = plain_search rnd q n (apply_filters filters cs)"
  by (simp add: rank_chunks_def plain_search_def apply_filters_def)


section \<open>Properties\<close>

text \<open>
  A search among chunks of the query's dimension returns at most the requested number of
  chunks that pass the filters, the most similar first; a passing chunk that is not returned is
  at most as similar as every chunk that is.
\<close>

theorem rank_chunks_best:
  assumes "list_all (same_dimension q) (apply_filters filters cs)"
  shows "\<exists>rs. rank_chunks rnd q n filters cs = Inr rs \<and> length rs \<le> n
    \<and> sorted_wrt (\<lambda>a b. chunk_score rnd q b \<le> chunk_score rnd q a) rs
    \<and> set rs \<subseteq> set (apply_filters filters cs)
    \<and> (\<forall>c \<in> set (apply_filters filters cs). c \<notin> set rs \<longrightarrow> (\<forall>r \<in> set rs. chunk_score rnd q c \<le> chunk_score rnd q r))"
proof -
  let ?rs = "take n (sort_desc (chunk_score rnd q) (apply_filters filters cs))"
  have r: "plain_search rnd q n (apply_filters filters cs) = Inr ?rs" using vs.search_ok [OF assms] .
  have "sorted_wrt (\<lambda>a b. chunk_score rnd q b \<le> chunk_score rnd q a) ?rs" by (intro sorted_wrt_take sorted_sort_desc)
  then show ?thesis
    unfolding rank_chunks_filters r using vs.best_kept [OF r] top_k_subset [of n "chunk_score rnd q" "apply_filters filters cs"]
    by auto
qed

definition sample_chunk :: "string \<Rightarrow> vector \<Rightarrow> StoredChunk" where
  "sample_chunk i v = \<lparr>st_id = i, st_chunkText = ''t'', st_embedding = v, st_source = ''s'', st_chunkIndex = 0,
     st_metadata = \<lparr>sm_documentId = ''d'', sm_section = None, sm_type = ''api'', sm_timestamp = None\<rparr>\<rparr>"

theorem rank_chunks_best_witness:
  "\<exists>rs. rank_chunks id [1, 0] 1 None [sample_chunk ''a'' [0, 1], sample_chunk ''b'' [1, 0]] = Inr rs \<and> length rs \<le> 1"
  using rank_chunks_best [of "[1, 0]" None "[sample_chunk ''a'' [0, 1], sample_chunk ''b'' [1, 0]]" id 1]
  by (auto simp: apply_filters_def same_dimension_def sample_chunk_def)

text \<open>
  One stored chunk of another dimension disables search: whatever the query, the limit and
  the other chunks, a search whose candidates include it fails.
\<close>

theorem search_fails_on_mismatch:
  assumes "c \<in> set (apply_filters filters cs)" "length (st_embedding c) \<noteq> length q"
  shows "rank_chunks rnd q n filters cs = Inl LengthMismatch"
proof -
  have "\<not> list_all (same_dimension q) (apply_filters filters cs)"
    using assms unfolding list_all_iff same_dimension_def by metis
  then show ?thesis by (simp add: rank_chunks_def similarities_eq)
qed

theorem search_fails_on_mismatch_witness:
  "rank_chunks id [1, 0] 5 None [sample_chunk ''a'' [0, 1], sample_chunk ''b'' []] = Inl LengthMismatch"
  by (rule search_fails_on_mismatch [of "sample_chunk ''b'' []"]) (simp_all add: apply_filters_def sample_chunk_def)

definition sample_input :: ChunkInput where
  "sample_input = \<lparr>ci_chunkText = ''t'', ci_embedding = [1], ci_source = ''s'', ci_chunkIndex = 0,
     ci_metadata = \<lparr>am_documentId = Some ''d'', am_section = None, am_type = Some ''api'', am_timestamp = None\<rparr>\<rparr>"

end
