(* ===== verification/Retrieval_Service.thy ===== *)
theory Retrieval_Service
  imports Vector_Store
begin

text \<open>
  Model of \<open>rag/retrieval-service.ts\<close>: semantic retrieval for one or several queries, over the
  embedding service and the vector store. The theory shows that a retrieval returns the best
  chunks of the whole store above the threshold, although it only asks for twice the limit, and
  that the combination of several queries keeps each chunk once with its highest score.
\<close>

record RetrievalOptions =
  ro_limit :: "nat option"
  ro_minSimilarity :: "real option"
  ro_source :: "string option"
  ro_type :: "string option"
  ro_includeScores :: "bool option"

record RetrievalResult =
  rr_chunks :: "StoredChunk list"
  rr_scores :: "real list option"
  rr_queryEmbedding :: vector

text \<open>The replies of the services a retrieval calls.\<close>

record RagWorld =
  rw_local :: "string \<Rightarrow> local_reply"
  rw_sdk :: "string \<Rightarrow> sdk_reply"
  rw_direct :: "string \<Rightarrow> http_reply"
  rw_store :: StoreWorld

datatype retrieval_error = EmbeddingFailed string | SearchFailed search_error

definition embed :: "RagWorld \<Rightarrow> EmbeddingService \<Rightarrow> string \<Rightarrow> string + vector" where
  "embed w es txt = generateEmbedding es (rw_local w) (rw_sdk w) (rw_direct w) txt"

definition computeSimilarity :: "(real \<Rightarrow> real) \<Rightarrow> vector \<Rightarrow> vector \<Rightarrow> real option" where
  "computeSimilarity rnd a b =
     (if length a \<noteq> length b then None
      else (let (dot, na, nb) = cosine_loop rnd a b (0, 0, 0); denominator = rnd (rnd (sqrt na) * rnd (sqrt nb))
            in Some (if denominator = 0 then 0 else rnd (dot / denominator))))"

fun filter_similar :: "(real \<Rightarrow> real) \<Rightarrow> vector \<Rightarrow> real \<Rightarrow> StoredChunk list \<Rightarrow> (StoredChunk \<times> real) list option" where
  "filter_similar rnd q t [] = Some []"
| "filter_similar rnd q t (c # cs) =
     (case computeSimilarity rnd q (st_embedding c) of
        None \<Rightarrow> None
      | Some s \<Rightarrow> map_option (\<lambda>rest. if s \<ge> t then (c, s) # rest else rest) (filter_similar rnd q t cs))"

text \<open>The number that the literal 0.3 denotes.\<close>

definition default_minSimilarity :: "(real \<Rightarrow> real) \<Rightarrow> real" where
  "default_minSimilarity rnd = rnd (3/10)"

definition retrieve ::
  "RagWorld \<Rightarrow> EmbeddingService \<Rightarrow> string \<Rightarrow> RetrievalOptions \<Rightarrow> VectorStore
     \<Rightarrow> (retrieval_error + RetrievalResult) \<times> VectorStore" where
  "retrieve w es query opts vs =
     (let limit = or_default (ro_limit opts) 10;
          rnd = sw_round (rw_store w);
          minSimilarity = or_default (ro_minSimilarity opts) (default_minSimilarity rnd);
          includeScores = or_default (ro_includeScores opts) False
      in case embed w es query of
          Inl e \<Rightarrow> (Inl (EmbeddingFailed e), vs)
        | Inr queryEmbedding \<Rightarrow>
            (case searchSimilar (rw_store w) queryEmbedding (limit * 2)
                    (Some \<lparr>sf_source = ro_source opts, sf_type = ro_type opts\<rparr>) vs of
               (Inl e, vs') \<Rightarrow> (Inl (SearchFailed e), vs')
             | (Inr chunks, vs') \<Rightarrow>
                 (case filter_similar rnd queryEmbedding minSimilarity chunks of
                    None \<Rightarrow> (Inl (SearchFailed LengthMismatch), vs')
                  | Some results \<Rightarrow>
                      (let topResults = take limit (sort_desc snd results)
                       in (Inr \<lparr>rr_chunks = map fst topResults,
                                rr_scores = (if includeScores then Some (map snd topResults) else None),
                                rr_queryEmbedding = queryEmbedding\<rparr>, vs')))))"

text \<open>The loop over the queries of \<open>retrieveMultiple\<close>, in order; the first failure ends it.\<close>

fun retrieve_all ::
  "RagWorld \<Rightarrow> EmbeddingService \<Rightarrow> string list \<Rightarrow> RetrievalOptions \<Rightarrow> VectorStore
     \<Rightarrow> (retrieval_error + (StoredChunk \<times> real) list) \<times> VectorStore" where
  "retrieve_all w es [] opts vs = (Inr [], vs)"
| "retrieve_all w es (query # queries) opts vs =
     (case retrieve w es query
             (opts\<lparr>ro_limit := Some (or_default (ro_limit opts) 10 * 2), ro_includeScores := Some True\<rparr>) vs of
        (Inl e, vs') \<Rightarrow> (Inl e, vs')
      | (Inr result, vs') \<Rightarrow>
          (case retrieve_all w es queries opts vs' of
             (Inl e, vs'') \<Rightarrow> (Inl e, vs'')
           | (Inr rest, vs'') \<Rightarrow>
               (Inr ((case rr_scores result of None \<Rightarrow> [] | Some scores \<Rightarrow> zip (rr_chunks result) scores) @ rest), vs'')))"

text \<open>One step of the deduplication: a result replaces the one kept for its id when it scores higher.\<close>

definition merge_result ::
  "StoredChunk \<times> real \<Rightarrow> (string \<times> (StoredChunk \<times> real)) list \<Rightarrow> (string \<times> (StoredChunk \<times> real)) list" where
  "merge_result result chunkMap =
     (case map_of chunkMap (st_id (fst result)) of
        None \<Rightarrow> AList.update (st_id (fst result)) result chunkMap
      | Some existing \<Rightarrow>
          if snd result > snd existing then AList.update (st_id (fst result)) result chunkMap else chunkMap)"

definition merge_results :: "(StoredChunk \<times> real) list \<Rightarrow> (string \<times> (StoredChunk \<times> real)) list" where
  "merge_results allResults = fold merge_result allResults []"

definition retrieveMultiple ::
  "RagWorld \<Rightarrow> EmbeddingService \<Rightarrow> string list \<Rightarrow> RetrievalOptions \<Rightarrow> VectorStore
     \<Rightarrow> (retrieval_error + RetrievalResult) \<times> VectorStore" where
  "retrieveMultiple w es queries opts vs =
     (case retrieve_all w es queries opts vs of
        (Inl e, vs') \<Rightarrow> (Inl e, vs')
      | (Inr allResults, vs') \<Rightarrow>
          (let sortedResults = take (or_default (ro_limit opts) 10) (sort_desc snd (map snd (merge_results allResults)))
           in (case embed w es (join '' '' queries) of
                 Inl e \<Rightarrow> (Inl (EmbeddingFailed e), vs')
               | Inr q \<Rightarrow> (Inr \<lparr>rr_chunks = map fst sortedResults,
                   rr_scores = (if or_default (ro_includeScores opts) False then Some (map snd sortedResults) else None),
                   rr_queryEmbedding = q\<rparr>, vs'))))"

definition retrieveSchemaContext ::
  "RagWorld \<Rightarrow> EmbeddingService \<Rightarrow> string \<Rightarrow> RetrievalOptions \<Rightarrow> VectorStore
     \<Rightarrow> (retrieval_error + RetrievalResult) \<times> VectorStore" where
  "retrieveSchemaContext w es query opts vs =
     retrieve w es query
       (opts\<lparr>ro_type := Some ''schema'', ro_minSimilarity := Some (or_default (ro_minSimilarity opts) (1/4))\<rparr>) vs"

definition retrieveDocumentationContext ::
  "RagWorld \<Rightarrow> EmbeddingService \<Rightarrow> string \<Rightarrow> RetrievalOptions \<Rightarrow> VectorStore
     \<Rightarrow> (retrieval_error + RetrievalResult) \<times> VectorStore" where
  "retrieveDocumentationContext w es query opts vs =
     retrieve w es query
       (opts\<lparr>ro_minSimilarity := Some (or_default (ro_minSimilarity opts) (default_minSimilarity (sw_round (rw_store w))))\<rparr>) vs"

definition retrieval_checkAvailability ::
  "RagWorld \<Rightarrow> EmbeddingService \<Rightarrow> VectorStore \<Rightarrow> (bool \<times> bool) \<times> VectorStore" where
  "retrieval_checkAvailability w es vs =
     (case store_healthCheck (rw_store w) vs of
        (ok, vs') \<Rightarrow> ((case embed w es ''test'' of Inl _ \<Rightarrow> (False, False) | Inr v \<Rightarrow> (ok, v \<noteq> [])), vs'))"


section \<open>One query\<close>

lemma computeSimilarity_eq: "computeSimilarity rnd a b = cosineSimilarity rnd a b"
  by (simp add: computeSimilarity_def cosineSimilarity_def)

lemma filter_similar_eq:
  "list_all (same_dimension q) cs \<Longrightarrow>
     filter_similar rnd q t cs = Some (map (\<lambda>c. (c, chunk_score rnd q c)) (filter (\<lambda>c. t \<le> chunk_score rnd q c) cs))"
  by (induction cs) (auto simp: computeSimilarity_eq cosineSimilarity_defined)

text \<open>The best chunks of a store for a query: the specification of a retrieval.\<close>

definition best_chunks :: "(real \<Rightarrow> real) \<Rightarrow> vector \<Rightarrow> real \<Rightarrow> nat \<Rightarrow> StoredChunk list \<Rightarrow> StoredChunk list" where
  "best_chunks rnd q t n cs = take n (filter (\<lambda>c. t \<le> chunk_score rnd q c) (sort_desc (chunk_score rnd q) cs))"

lemma retrieve_eq:
  assumes "embed w es query = Inr q" "getAllChunks (rw_store w) 1000 vs = (Inr cs, vs')"
    and f: "cands = filter (passes \<lparr>sf_source = ro_source opts, sf_type = ro_type opts\<rparr>) cs"
    and "list_all (same_dimension q) cands" and rnd: "rnd = sw_round (rw_store w)"
  shows "retrieve w es query opts vs =
    (let best = best_chunks rnd q (or_default (ro_minSimilarity opts) (default_minSimilarity rnd)) (or_default (ro_limit opts) 10) cands
     in (Inr \<lparr>rr_chunks = best,
          rr_scores = (if or_default (ro_includeScores opts) False then Some (map (chunk_score rnd q) best) else None),
          rr_queryEmbedding = q\<rparr>, vs'))"
proof -
  let ?n = "or_default (ro_limit opts) 10" and ?t = "or_default (ro_minSimilarity opts) (default_minSimilarity rnd)"
  let ?rs = "take (?n * 2) (sort_desc (chunk_score rnd q) cands)"
  have s: "plain_search rnd q (?n * 2) cands = Inr ?rs" using assms(4) by (rule vs.search_ok)
  have "searchSimilar (rw_store w) q (?n * 2) (Some \<lparr>sf_source = ro_source opts, sf_type = ro_type opts\<rparr>) vs = (Inr ?rs, vs')"
    using assms(2) s by (simp add: searchSimilar_def rank_chunks_filters apply_filters_def f rnd)
  moreover have "filter_similar rnd q ?t ?rs = Some (map (\<lambda>c. (c, chunk_score rnd q c)) (filter (\<lambda>c. ?t \<le> chunk_score rnd q c) ?rs))"
    using vs.results_comparable [OF s] by (intro filter_similar_eq) (auto simp: list_all_iff)
  moreover have "take ?n (sort_desc (chunk_score rnd q) (filter (\<lambda>c. ?t \<le> chunk_score rnd q c) ?rs)) = best_chunks rnd q ?t ?n cands"
    unfolding best_chunks_def using s by (rule vs.threshold_best) simp
  ultimately show ?thesis
    using assms(1) by (simp add: retrieve_def Let_def sort_desc_map take_map comp_def rnd [symmetric])
qed


section \<open>Several queries\<close>

text \<open>What the map holds for an id after some results: the first of those with the highest score.\<close>

definition best_for :: "(StoredChunk \<times> real) list \<Rightarrow> string \<Rightarrow> (StoredChunk \<times> real) option \<Rightarrow> bool" where
  "best_for seen k entry \<longleftrightarrow>
     (case entry of
        None \<Rightarrow> (\<forall>r \<in> set seen. st_id (fst r) \<noteq> k)
      | Some r \<Rightarrow> r \<in> set seen \<and> st_id (fst r) = k \<and> (\<forall>r' \<in> set seen. st_id (fst r') = k \<longrightarrow> snd r' \<le> snd r))"

definition chunkMap_ok :: "(StoredChunk \<times> real) list \<Rightarrow> (string \<times> (StoredChunk \<times> real)) list \<Rightarrow> bool" where
  "chunkMap_ok seen m \<longleftrightarrow> distinct (map fst m) \<and> (\<forall>k. best_for seen k (map_of m k))"

lemma best_for_other: "st_id (fst r) \<noteq> k \<Longrightarrow> best_for seen k e \<Longrightarrow> best_for (seen @ [r]) k e"
  by (auto simp: best_for_def split: option.splits)

lemma best_for_new: "best_for seen (st_id (fst r)) None \<Longrightarrow> best_for (seen @ [r]) (st_id (fst r)) (Some r)"
  by (simp add: best_for_def)

lemma best_for_better: "best_for seen (st_id (fst r)) (Some r0) \<Longrightarrow> snd r0 < snd r \<Longrightarrow> best_for (seen @ [r]) (st_id (fst r)) (Some r)"
  by (fastforce simp: best_for_def)

lemma best_for_worse: "best_for seen (st_id (fst r)) (Some r0) \<Longrightarrow> snd r \<le> snd r0 \<Longrightarrow> best_for (seen @ [r]) (st_id (fst r)) (Some r0)"
  by (simp add: best_for_def)

lemma merge_result_lookup:
  "map_of (merge_result r m) k =
     (if k = st_id (fst r)
      then (case map_of m k of None \<Rightarrow> Some r | Some r0 \<Rightarrow> Some (if snd r > snd r0 then r else r0))
      else map_of m k)"
  by (simp add: merge_result_def update_conv' split: option.splits)

lemma merge_result_ok:
  assumes "chunkMap_ok seen m"
  shows "chunkMap_ok (seen @ [r]) (merge_result r m)"
proof -
  have "distinct (map fst (merge_result r m))"
    using assms by (simp add: chunkMap_ok_def merge_result_def distinct_update split: option.splits)
  moreover have "best_for (seen @ [r]) k (map_of (merge_result r m) k)" for k
  proof -
    have b: "best_for seen k (map_of m k)" using assms by (simp add: chunkMap_ok_def)
    show ?thesis
    proof (cases "k = st_id (fst r)")
      case True
      then show ?thesis
        using b best_for_new [of seen r] best_for_better [of seen r] best_for_worse [of seen r]
        by (cases "map_of m k") (auto simp: merge_result_lookup not_less)
    next
      case False
      then show ?thesis using b best_for_other by (simp add: merge_result_lookup)
    qed
  qed
  ultimately show ?thesis by (simp add: chunkMap_ok_def)
qed

lemma merge_results_ok: "chunkMap_ok rs (merge_results rs)"
proof -
  have "chunkMap_ok seen m \<Longrightarrow> chunkMap_ok (seen @ rs) (fold merge_result rs m)" for seen m
  proof (induction rs arbitrary: seen m)
    case (Cons r rs)
    show ?case using Cons.IH [OF merge_result_ok [OF Cons.prems, of r]] by simp
  qed simp
  from this [of "[]" "[]"] show ?thesis by (simp add: merge_results_def chunkMap_ok_def best_for_def)
qed

lemma merged_results:
  assumes "rs = map snd (merge_results all)"
  shows "distinct (map (\<lambda>r. st_id (fst r)) rs)"
    and "r \<in> set rs \<longleftrightarrow> best_for all (st_id (fst r)) (Some r) \<and> map_of (merge_results all) (st_id (fst r)) = Some r"
proof -
  have ok: "distinct (map fst (merge_results all))" "best_for all k (map_of (merge_results all) k)" for k
    using merge_results_ok [of all] by (simp_all add: chunkMap_ok_def)
  have key: "st_id (fst v) = k" if "(k, v) \<in> set (merge_results all)" for k v
    using ok(2) [of k] map_of_eq_Some_iff [OF ok(1), of k v] that by (simp add: best_for_def)
  have "map (\<lambda>r. st_id (fst r)) rs = map fst (merge_results all)"
    unfolding assms map_map using key by (intro map_cong) auto
  with ok(1) show "distinct (map (\<lambda>r. st_id (fst r)) rs)" by metis
  show "r \<in> set rs \<longleftrightarrow> best_for all (st_id (fst r)) (Some r) \<and> map_of (merge_results all) (st_id (fst r)) = Some r"
  proof
    assume "r \<in> set rs"
    then obtain k where kr: "(k, r) \<in> set (merge_results all)" unfolding assms by auto
    with key [OF kr] ok(1) have m: "map_of (merge_results all) (st_id (fst r)) = Some r"
      using map_of_eq_Some_iff [OF ok(1)] by simp
    with ok(2) [of "st_id (fst r)"] show "best_for all (st_id (fst r)) (Some r) \<and> map_of (merge_results all) (st_id (fst r)) = Some r"
      by simp
  next
    assume "best_for all (st_id (fst r)) (Some r) \<and> map_of (merge_results all) (st_id (fst r)) = Some r"
    then have "(st_id (fst r), r) \<in> set (merge_results all)" using map_of_SomeD by metis
    then show "r \<in> set rs" unfolding assms by force
  qed
qed


section \<open>Properties\<close>

text \<open>
  C3. A retrieval returns the best chunks of the whole store: when the query can be embedded and
  the candidates have its dimension, the result is the stable descending order of all candidates
  by the similarity as it is computed, however arithmetic rounds, cut at the threshold and at the limit. Asking the
  store for twice the limit and filtering afterwards loses nothing. The whole store is what
  \<open>getAllChunks\<close> gives, at most 1000 chunks.
\<close>

theorem retrieve_best:
  assumes "embed w es query = Inr q" "getAllChunks (rw_store w) 1000 vs = (Inr cs, vs')"
    and "list_all (same_dimension q) (filter (passes \<lparr>sf_source = ro_source opts, sf_type = ro_type opts\<rparr>) cs)"
    and "rnd = sw_round (rw_store w)"
  shows "\<exists>r. retrieve w es query opts vs = (Inr r, vs') \<and> rr_queryEmbedding r = q
    \<and> rr_chunks r = take (or_default (ro_limit opts) 10)
        (filter (\<lambda>c. or_default (ro_minSimilarity opts) (default_minSimilarity rnd) \<le> chunk_score rnd q c)
          (sort_desc (chunk_score rnd q) (filter (passes \<lparr>sf_source = ro_source opts, sf_type = ro_type opts\<rparr>) cs)))"
  using retrieve_eq [OF assms(1,2) refl assms(3,4)] by (simp add: Let_def best_chunks_def)

text \<open>A world in which the store answers its first fallback pattern with one chunk.\<close>

definition sample_world :: RagWorld where
  "sample_world =
     \<lparr>rw_local = (\<lambda>_. LData [1, 0]), rw_sdk = (\<lambda>_. SdkThrows ''off''), rw_direct = (\<lambda>_. HttpFails ''off''),
      rw_store = \<lparr>sw_introspect = None,
        sw_exec = (\<lambda>_. GqlArray [\<lparr>tx_id = ''x'', tx_timestamp = None, tx_asset = AssetObject (chunkData ''x'' ''now'' (sample_input\<lparr>ci_embedding := [2, 0]\<rparr>))\<rparr>]),
        sw_list = ListOther, sw_detail = (\<lambda>_. None), sw_round = id\<rparr>\<rparr>"

definition no_options :: RetrievalOptions where
  "no_options = \<lparr>ro_limit = None, ro_minSimilarity = None, ro_source = None, ro_type = None, ro_includeScores = None\<rparr>"

theorem retrieve_best_witness:
  "\<exists>r. retrieve sample_world (new_EmbeddingService Local) ''how'' no_options new_VectorStore = (Inr r, new_VectorStore)
     \<and> rr_queryEmbedding r = [1, 0]"
proof -
  have e: "embed sample_world (new_EmbeddingService Local) ''how'' = Inr [1, 0]"
    by (simp add: embed_def generateEmbedding_def new_EmbeddingService_def sample_world_def generateEmbeddingLocal_def
        trim_def is_ws_def)
  obtain c where c: "getAllChunks (rw_store sample_world) 1000 new_VectorStore = (Inr [c], new_VectorStore)"
      "st_embedding c = [2, 0]"
    by (simp add: getAllChunks_def sample_world_def new_VectorStore_def discoverSchema_def allQueries_def queriesToTry_def fallbackQueries_def
        is_valid_asset_def truthy_def chunkData_def sample_input_def asset_chunk_def)
  have "list_all (same_dimension [1, 0]) (filter f [c])" for f
    using c(2) by (simp add: same_dimension_def)
  from retrieve_best [OF e c(1) this refl] show ?thesis by auto
qed

text \<open>
  C18. Combining queries keeps every chunk once, with the best score any query gave it: the results
  have different ids, come in descending order of score, are at most as many as the limit, each
  carries the highest score found for its id, and a chunk found by some query is left out only if
  the limit is reached with scores at least as high.
\<close>

theorem retrieveMultiple_best:
  assumes "retrieve_all w es queries opts vs = (Inr found, vs')" "embed w es (join '' '' queries) = Inr q"
  shows "\<exists>r top. retrieveMultiple w es queries opts vs = (Inr r, vs') \<and> rr_chunks r = map fst top
    \<and> length top \<le> or_default (ro_limit opts) 10
    \<and> distinct (map (\<lambda>t. st_id (fst t)) top)
    \<and> sorted_wrt (\<lambda>a b. snd b \<le> snd a) top
    \<and> (\<forall>t \<in> set top. t \<in> set found \<and> (\<forall>f \<in> set found. st_id (fst f) = st_id (fst t) \<longrightarrow> snd f \<le> snd t))
    \<and> (\<forall>f \<in> set found. st_id (fst f) \<in> (\<lambda>t. st_id (fst t)) ` set top
         \<or> length top = or_default (ro_limit opts) 10 \<and> (\<forall>t \<in> set top. snd f \<le> snd t))"
proof -
  let ?n = "or_default (ro_limit opts) 10"
  define rs where "rs = map snd (merge_results found)"
  let ?top = "take ?n (sort_desc snd rs)"
  note m = merged_results [OF rs_def]
  have r: "\<exists>r. retrieveMultiple w es queries opts vs = (Inr r, vs') \<and> rr_chunks r = map fst ?top"
    using assms by (simp add: retrieveMultiple_def Let_def rs_def)
  have "distinct (map (\<lambda>t. st_id (fst t)) (sort_desc snd rs))"
    using m(1) by (simp add: distinct_map)
  then have d: "distinct (map (\<lambda>t. st_id (fst t)) ?top)" by (metis distinct_take take_map)
  have best: "t \<in> set found \<and> (\<forall>f \<in> set found. st_id (fst f) = st_id (fst t) \<longrightarrow> snd f \<le> snd t)" if "t \<in> set ?top" for t
    using that m(2) [of t] top_k_subset [of ?n snd rs] by (auto simp: best_for_def)
  have cover: "st_id (fst f) \<in> (\<lambda>t. st_id (fst t)) ` set ?top \<or> length ?top = ?n \<and> (\<forall>t \<in> set ?top. snd f \<le> snd t)"
    if f: "f \<in> set found" for f
  proof -
    have b: "best_for found (st_id (fst f)) (map_of (merge_results found) (st_id (fst f)))"
      using merge_results_ok [of found] by (simp add: chunkMap_ok_def)
    then obtain t where t: "map_of (merge_results found) (st_id (fst f)) = Some t" "st_id (fst t) = st_id (fst f)" "snd f \<le> snd t"
      using f by (cases "map_of (merge_results found) (st_id (fst f))") (auto simp: best_for_def)
    then have "t \<in> set rs" using m(2) [of t] b by simp
    from top_k_cover [OF this, of ?n snd] t(2,3) show ?thesis by (metis image_eqI order_trans)
  qed
  have "sorted_wrt (\<lambda>a b. snd b \<le> snd a) ?top" by (intro sorted_wrt_take sorted_sort_desc)
  moreover have "length ?top \<le> ?n" by simp
  ultimately show ?thesis using r d best cover by blast
qed

theorem retrieveMultiple_best_witness:
  "\<exists>found r. retrieve_all sample_world (new_EmbeddingService Local) [''how'', ''why''] no_options new_VectorStore
       = (Inr found, new_VectorStore)
     \<and> retrieveMultiple sample_world (new_EmbeddingService Local) [''how'', ''why''] no_options new_VectorStore
       = (Inr r, new_VectorStore) \<and> distinct (map st_id (rr_chunks r))"
proof -
  let ?es = "new_EmbeddingService Local"
  have e: "embed sample_world ?es ''how'' = Inr [1, 0]" "embed sample_world ?es ''why'' = Inr [1, 0]"
      "embed sample_world ?es (join '' '' [''how'', ''why'']) = Inr [1, 0]"
    by (simp_all add: embed_def generateEmbedding_def new_EmbeddingService_def sample_world_def generateEmbeddingLocal_def
        trim_def is_ws_def)
  obtain c where c: "getAllChunks (rw_store sample_world) 1000 new_VectorStore = (Inr [c], new_VectorStore)"
      "st_embedding c = [2, 0]"
    by (simp add: getAllChunks_def sample_world_def new_VectorStore_def discoverSchema_def allQueries_def queriesToTry_def fallbackQueries_def
        is_valid_asset_def truthy_def chunkData_def sample_input_def asset_chunk_def)
  have l: "list_all (same_dimension [1, 0]) (filter f [c])" for f using c(2) by (simp add: same_dimension_def)
  obtain found where f: "retrieve_all sample_world ?es [''how'', ''why''] no_options new_VectorStore = (Inr found, new_VectorStore)"
    using retrieve_eq [OF e(1) c(1) refl l] retrieve_eq [OF e(2) c(1) refl l] by (simp add: Let_def)
  from retrieveMultiple_best [OF f e(3)] f show ?thesis by (auto simp: comp_def)
qed

end
