(* ===== verification/Document_Loader.thy ===== *)
theory Document_Loader
  imports JS_Prelude
begin

text \<open>
  Model of \<open>rag/document-loader.ts\<close>: reading files and directory trees into documents.
  The file system is a value, a tree of named nodes; \<open>path.resolve\<close>, which depends on the
  working directory, is an argument; the clock is an argument (its ISO text too).
  The theory shows which files a directory load returns and what the substring test of the
  exclusion list does to directories whose own path contains an excluded word.
\<close>

datatype doc_type = DMarkdown | DText | DJson | DSchema | DApi

record DocMetadata =
  md_filePath :: "string option"
  md_title :: "string option"
  md_section :: "string option"
  md_timestamp :: "string option"

record LoadedDocument =
  ld_id :: string
  ld_content :: string
  ld_source :: string
  ld_type :: doc_type
  ld_metadata :: DocMetadata

text \<open>
  A node of the file system: a file with its text (\<^const>\<open>None\<close> when it cannot be read), a
  directory with its entries in listing order (\<^const>\<open>None\<close> when it cannot be listed), or
  something else such as a socket.
\<close>

datatype fs_node = FFile "string option" | FDir "(string \<times> fs_node) list option" | FOther

datatype load_error = NotFound string | NotAFile string | ReadFailed string | NotADirectory string


section \<open>Paths\<close>

text \<open>\<open>path.basename\<close> without suffix, on a path without trailing separator.\<close>

definition base_name :: "string \<Rightarrow> string" where
  "base_name p = rev (takeWhile (\<lambda>c. c \<noteq> CHR ''/'') (rev p))"

text \<open>
  \<open>path.extname\<close>: from the last dot of the base name on; a dot at its start does not count, and
  the parent directory \<open>..\<close> has no extension.
\<close>

definition extname :: "string \<Rightarrow> string" where
  "extname p =
     (let b = base_name p; tail = takeWhile (\<lambda>c. c \<noteq> CHR ''.'') (rev b)
      in if length tail + 1 \<ge> length b \<or> b = ''..'' then [] else drop (length b - length tail - 1) b)"

text \<open>\<open>path.basename(p, ext)\<close>: the suffix is removed unless it is the whole name.\<close>

definition base_name_ext :: "string \<Rightarrow> string \<Rightarrow> string" where
  "base_name_ext p ext =
     (let b = base_name p
      in if ext \<noteq> [] \<and> endsWith b ext \<and> b \<noteq> ext then take (length b - length ext) b else b)"

text \<open>\<open>path.join(dir, name)\<close> for a resolved directory and an entry name.\<close>

definition path_join :: "string \<Rightarrow> string \<Rightarrow> string" where
  "path_join dir name = (if endsWith dir ''/'' then dir @ name else dir @ ''/'' @ name)"

definition is_alnum :: "char \<Rightarrow> bool" where
  "is_alnum c \<longleftrightarrow> is_digit c \<or> is_upper_az c \<or> is_lower_az c"

definition sanitize :: "string \<Rightarrow> string" where
  "sanitize s = map (\<lambda>c. if is_alnum c then c else CHR ''_'') s"


section \<open>Loading\<close>

definition doc_type_of :: "string \<Rightarrow> doc_type" where
  "doc_type_of ext = (if ext = ''.md'' \<or> ext = ''.markdown'' then DMarkdown
                      else if ext = ''.json'' then DJson else DText)"

text \<open>\<open>loadFile\<close>, on an already resolved path; \<open>node\<close> is what the file system has there.\<close>

definition loadFile :: "int \<Rightarrow> string \<Rightarrow> fs_node option \<Rightarrow> string \<Rightarrow> load_error + LoadedDocument" where
  "loadFile now stamp node fullPath =
     (case node of
        None \<Rightarrow> Inl (NotFound fullPath)
      | Some (FFile (Some content)) \<Rightarrow>
          (let ext = toLowerCase (extname fullPath);
               fileName = base_name_ext fullPath ext
           in Inr \<lparr>ld_id = ''doc_'' @ show_int now @ ''_'' @ sanitize fileName,
                   ld_content = content, ld_source = fullPath, ld_type = doc_type_of ext,
                   ld_metadata = \<lparr>md_filePath = Some fullPath, md_title = Some fileName,
                                  md_section = None, md_timestamp = Some stamp\<rparr>\<rparr>)
      | Some (FFile None) \<Rightarrow> Inl (ReadFailed fullPath)
      | Some _ \<Rightarrow> Inl (NotAFile fullPath))"

definition excluded :: "string list \<Rightarrow> string \<Rightarrow> bool" where
  "excluded exclude fullPath \<longleftrightarrow> list_ex (str_includes fullPath) exclude"

text \<open>\<open>getAllFiles\<close>: the paths found under a directory, each with the node it leads to.\<close>

fun getAllFiles :: "bool \<Rightarrow> string list \<Rightarrow> string list \<Rightarrow> string \<Rightarrow> (string \<times> fs_node) list \<Rightarrow> (string \<times> fs_node) list" where
  "getAllFiles recursive extensions exclude dirPath [] = []"
| "getAllFiles recursive extensions exclude dirPath ((name, node) # entries) =
     (let fullPath = path_join dirPath name
      in (if excluded exclude fullPath then []
          else case node of
              FDir sub \<Rightarrow>
                if recursive
                then (case sub of None \<Rightarrow> [] | Some es \<Rightarrow> getAllFiles recursive extensions exclude fullPath es)
                else []
            | FFile _ \<Rightarrow> if toLowerCase (extname name) \<in> set extensions then [(fullPath, node)] else []
            | FOther \<Rightarrow> [])) @ getAllFiles recursive extensions exclude dirPath entries"

record LoadOptions =
  lo_recursive :: "bool option"
  lo_extensions :: "string list option"
  lo_exclude :: "string list option"

definition opt_recursive :: "LoadOptions \<Rightarrow> bool" where
  "opt_recursive o' = (case lo_recursive o' of None \<Rightarrow> True | Some b \<Rightarrow> b)"

definition opt_extensions :: "LoadOptions \<Rightarrow> string list" where
  "opt_extensions o' = (case lo_extensions o' of None \<Rightarrow> [''.md'', ''.txt'', ''.json''] | Some xs \<Rightarrow> xs)"

definition opt_exclude :: "LoadOptions \<Rightarrow> string list" where
  "opt_exclude o' = (case lo_exclude o' of None \<Rightarrow> [''node_modules'', ''.git'', ''dist'', ''build''] | Some xs \<Rightarrow> xs)"

fun load_all :: "(nat \<Rightarrow> int \<times> string) \<Rightarrow> nat \<Rightarrow> (string \<times> fs_node) list \<Rightarrow> LoadedDocument list" where
  "load_all clock k [] = []"
| "load_all clock k ((p, node) # fs) =
     (case loadFile (fst (clock k)) (snd (clock k)) (Some node) p of
        Inl _ \<Rightarrow> load_all clock (Suc k) fs
      | Inr doc \<Rightarrow> doc # load_all clock (Suc k) fs)"

text \<open>\<open>loadDirectory\<close>; \<open>clock k\<close> is the time (number and ISO text) when the k-th file is read.\<close>

definition loadDirectory ::
  "(nat \<Rightarrow> int \<times> string) \<Rightarrow> LoadOptions \<Rightarrow> fs_node option \<Rightarrow> string \<Rightarrow> load_error + LoadedDocument list" where
  "loadDirectory clock opts node fullPath =
     (case node of
        None \<Rightarrow> Inl (NotFound fullPath)
      | Some (FDir sub) \<Rightarrow>
          Inr (load_all clock 0
            (case sub of None \<Rightarrow> []
             | Some es \<Rightarrow> getAllFiles (opt_recursive opts) (opt_extensions opts) (opt_exclude opts) fullPath es))
      | Some _ \<Rightarrow> Inl (NotADirectory fullPath))"

definition loadSchema :: "string \<Rightarrow> string \<Rightarrow> string option \<Rightarrow> LoadedDocument" where
  "loadSchema stamp schemaContent schemaId =
     \<lparr>ld_id = (case schemaId of None \<Rightarrow> ''graphql_schema'' | Some i \<Rightarrow> i), ld_content = schemaContent,
      ld_source = ''graphql_introspection'', ld_type = DSchema,
      ld_metadata = \<lparr>md_filePath = None, md_title = Some ''GraphQL Schema'', md_section = None, md_timestamp = Some stamp\<rparr>\<rparr>"

definition loadAPIDocumentation :: "string \<Rightarrow> string \<Rightarrow> string \<Rightarrow> string option \<Rightarrow> LoadedDocument" where
  "loadAPIDocumentation stamp apiContent apiId title =
     \<lparr>ld_id = apiId, ld_content = apiContent, ld_source = ''api_documentation'', ld_type = DApi,
      ld_metadata = \<lparr>md_filePath = None,
                     md_title = Some (case title of None \<Rightarrow> apiId | Some t \<Rightarrow> if t = [] then apiId else t),
                     md_section = None, md_timestamp = Some stamp\<rparr>\<rparr>"


section \<open>What a directory load returns\<close>

text \<open>The files below a directory, as a specification: relative paths through listable directories.\<close>

inductive file_below :: "(string \<times> fs_node) list \<Rightarrow> string \<Rightarrow> string \<Rightarrow> string \<Rightarrow> fs_node \<Rightarrow> string list \<Rightarrow> bool" where
  here: "(name, FFile c) \<in> set es \<Longrightarrow>
     file_below es dir (path_join dir name) name (FFile c) [path_join dir name]"
| below: "(name, FDir (Some sub)) \<in> set es \<Longrightarrow> file_below sub (path_join dir name) p base node ps \<Longrightarrow>
     file_below es dir p base node (path_join dir name # ps)"

inductive_cases file_below_Nil: "file_below [] dir p base node ps"

lemma file_below_mono: "file_below es dir p base node ps \<Longrightarrow> set es \<subseteq> set es' \<Longrightarrow> file_below es' dir p base node ps"
  by (induction arbitrary: es' rule: file_below.induct) (auto intro: file_below.intros)

lemma getAllFiles_Cons:
  "(p, node) \<in> set (getAllFiles True extensions exclude dir ((name, n) # es)) \<longleftrightarrow>
     (p, node) \<in> set (getAllFiles True extensions exclude dir es)
     \<or> \<not> excluded exclude (path_join dir name)
       \<and> ((\<exists>c. n = FFile c) \<and> p = path_join dir name \<and> node = n \<and> toLowerCase (extname name) \<in> set extensions
         \<or> (\<exists>es'. n = FDir (Some es') \<and> (p, node) \<in> set (getAllFiles True extensions exclude (path_join dir name) es')))"
  by (cases n) (auto simp: Let_def split: option.splits)

lemma getAllFiles_sound:
  "(p, node) \<in> set (getAllFiles True extensions exclude dir es) \<Longrightarrow>
     \<exists>base ps. file_below es dir p base node ps \<and> toLowerCase (extname base) \<in> set extensions
       \<and> list_all (\<lambda>x. \<not> excluded exclude x) ps"
proof (induction True extensions exclude dir es rule: getAllFiles.induct)
  case (2 extensions exclude dir name n es)
  let ?full = "path_join dir name"
  from "2.prems" consider
      (rest) "(p, node) \<in> set (getAllFiles True extensions exclude dir es)"
    | (leaf) c where "n = FFile c" "\<not> excluded exclude ?full" "p = ?full" "node = n"
        "toLowerCase (extname name) \<in> set extensions"
    | (sub) es' where "n = FDir (Some es')" "\<not> excluded exclude ?full"
        "(p, node) \<in> set (getAllFiles True extensions exclude ?full es')"
    unfolding getAllFiles_Cons by blast
  then show ?case
  proof cases
    case rest
    then obtain base ps where "file_below es dir p base node ps"
      and ok: "toLowerCase (extname base) \<in> set extensions" "list_all (\<lambda>x. \<not> excluded exclude x) ps"
      using "2.hyps"(2) by blast
    then have "file_below ((name, n) # es) dir p base node ps"
      by (elim file_below_mono) auto
    with ok show ?thesis by blast
  next
    case leaf
    then have "file_below ((name, n) # es) dir p name node [?full]"
      using file_below.here [of name c "(name, n) # es" dir] by simp
    with leaf show ?thesis by (intro exI conjI) auto
  next
    case sub
    then obtain base ps where "file_below es' ?full p base node ps" "toLowerCase (extname base) \<in> set extensions"
        "list_all (\<lambda>x. \<not> excluded exclude x) ps"
      using "2.hyps"(1) [OF refl sub(2) sub(1)] sub(3) by auto
    moreover have "file_below ((name, n) # es) dir p base node (?full # ps)"
      using calculation(1) sub(1) by (intro file_below.below) auto
    ultimately show ?thesis using sub(2) by (intro exI [of _ base] exI [of _ "?full # ps"]) simp
  qed
qed simp

lemma getAllFiles_complete:
  "file_below es dir p base node ps \<Longrightarrow> toLowerCase (extname base) \<in> set extensions \<Longrightarrow>
     list_all (\<lambda>x. \<not> excluded exclude x) ps \<Longrightarrow>
     (p, node) \<in> set (getAllFiles True extensions exclude dir es)"
proof (induction rule: file_below.induct)
  case (here name c es dir)
  then have "\<not> excluded exclude (path_join dir name)" by simp
  with here(1,2) show ?case
    by (induction es) (auto simp: getAllFiles_Cons simp del: getAllFiles.simps(2))
next
  case (below name sub es dir p base node ps)
  then have "\<not> excluded exclude (path_join dir name)"
      "(p, node) \<in> set (getAllFiles True extensions exclude (path_join dir name) sub)" by auto
  with below(1) show ?case
    by (induction es) (auto simp: getAllFiles_Cons simp del: getAllFiles.simps(2))
qed

lemma includes_append: "str_includes s p \<Longrightarrow> str_includes (s @ t) p"
proof (induction s p rule: str_includes.induct)
  case (1 p)
  then show ?case by (cases t) auto
next
  case (2 c s p)
  have "startsWith (c # s) p \<Longrightarrow> startsWith ((c # s) @ t) p"
    using startsWith_length [of "c # s" p] take_append [of "length p" "c # s" t]
    by (simp add: startsWith_def del: take_append append_Cons)
  with 2 show ?case by auto
qed

lemma excluded_join: "excluded exclude dir \<Longrightarrow> excluded exclude (path_join dir name)"
  by (auto simp: excluded_def path_join_def list_ex_iff intro: includes_append)

lemma getAllFiles_excluded_dir: "excluded exclude dir \<Longrightarrow> getAllFiles rec extensions exclude dir es = []"
  by (induction es) (auto simp: excluded_join)

lemma set_load_all:
  "set (map ld_source (load_all clock k fs)) = {p. \<exists>c. (p, FFile (Some c)) \<in> set fs}"
  by (induction clock k fs rule: load_all.induct)
    (auto simp: loadFile_def Let_def split: fs_node.splits option.splits)


section \<open>Properties\<close>

text \<open>
  C38. A recursive directory load returns exactly the readable files that lie below the directory,
  have one of the requested extensions (compared in lower case) and are reached without passing
  an excluded path; unreadable files and directories are skipped and do not fail the load.
\<close>

theorem loadDirectory_exact:
  assumes "opt_recursive opts"
  shows "\<exists>docs. loadDirectory clock opts (Some (FDir (Some es))) dir = Inr docs
    \<and> set (map ld_source docs) = {p. \<exists>c base ps. file_below es dir p base (FFile (Some c)) ps
          \<and> toLowerCase (extname base) \<in> set (opt_extensions opts)
          \<and> list_all (\<lambda>x. \<not> excluded (opt_exclude opts) x) ps}"
  using assms getAllFiles_sound [of _ _ "opt_extensions opts" "opt_exclude opts" dir es]
    getAllFiles_complete [of es dir]
  by (auto simp only: loadDirectory_def set_load_all option.case fs_node.case sum.inject mem_Collect_eq
        intro!: exI [of _ "load_all clock 0 (getAllFiles True (opt_extensions opts) (opt_exclude opts) dir es)"]) metis+

theorem loadDirectory_exact_witness:
  "\<exists>docs. loadDirectory (\<lambda>k. (1, ''t'')) \<lparr>lo_recursive = None, lo_extensions = None, lo_exclude = None\<rparr>
       (Some (FDir (Some [(''a.md'', FFile (Some ''x''))]))) ''/d'' = Inr docs
    \<and> ''/d/a.md'' \<in> set (map ld_source docs)"
proof -
  let ?o = "\<lparr>lo_recursive = None, lo_extensions = None, lo_exclude = None\<rparr>"
  have *: "file_below [(''a.md'', FFile (Some ''x''))] ''/d'' (path_join ''/d'' ''a.md'') ''a.md'' (FFile (Some ''x'')) [path_join ''/d'' ''a.md'']"
    by (rule file_below.here) simp
  have p: "path_join ''/d'' ''a.md'' = ''/d/a.md''" by (simp add: path_join_def endsWith_def)
  have "toLowerCase (extname ''a.md'') \<in> set (opt_extensions ?o)" "\<not> excluded (opt_exclude ?o) ''/d/a.md''"
    by code_simp+
  with loadDirectory_exact [of ?o "\<lambda>k. (1, ''t'')" "[(''a.md'', FFile (Some ''x''))]" "''/d''"] * show ?thesis
    unfolding p by (force simp: opt_recursive_def)
qed

text \<open>
  The exclusion list is a substring test on whole paths, so it also applies to the directory
  the caller named: when that path contains an excluded word, the load succeeds with no documents
  whatever the directory holds.
\<close>

theorem loadDirectory_excluded_root:
  assumes "excluded (opt_exclude opts) dir"
  shows "loadDirectory clock opts (Some (FDir sub)) dir = Inr []"
  using assms by (simp add: loadDirectory_def getAllFiles_excluded_dir split: option.splits)

theorem loadDirectory_excluded_root_witness:
  "loadDirectory (\<lambda>k. (1700000000000, ''2023-11-14T22:13:20.000Z''))
     \<lparr>lo_recursive = None, lo_extensions = None, lo_exclude = None\<rparr>
     (Some (FDir (Some [(''guide.md'', FFile (Some ''# Guide''))]))) ''/srv/distributed-docs'' = Inr []"
  by (rule loadDirectory_excluded_root) (simp add: opt_exclude_def excluded_def)

end
