(* ===== verification/Chunking.thy ===== *)
theory Chunking
  imports Document_Loader
begin

text \<open>
  Model of \<open>rag/chunking-service.ts\<close>: splitting a document by size with overlap, or by its
  markdown headers. The loop of \<open>chunkBySize\<close> is bounded by the code itself (10000 iterations);
  that counter is the recursion argument. Sizes are in characters, four per token.
  The theory shows that the loop reaches the end of every document of up to 10000 steps, what the
  chunks cover, how long they get, and that chunk ids never collide.
\<close>

datatype chunk_type = CDocumentation | CSchema | CExample | CApi

record ChunkMetadata =
  cm_documentId :: string
  cm_section :: "string option"
  cm_type :: chunk_type
  cm_startChar :: "nat option"
  cm_endChar :: "nat option"

record DocumentChunk =
  dc_id :: string
  dc_chunkText :: string
  dc_source :: string
  dc_chunkIndex :: nat
  dc_metadata :: ChunkMetadata

record ChunkingService =
  cs_maxChunkSize :: nat
  cs_chunkOverlap :: nat

fun mapDocumentTypeToChunkType :: "doc_type \<Rightarrow> chunk_type" where
  "mapDocumentTypeToChunkType DSchema = CSchema"
| "mapDocumentTypeToChunkType DApi = CApi"
| "mapDocumentTypeToChunkType _ = CDocumentation"

definition new_ChunkingService :: "nat option \<Rightarrow> nat option \<Rightarrow> ChunkingService" where
  "new_ChunkingService maxTokens chunkOverlapTokens =
     \<lparr>cs_maxChunkSize = (case maxTokens of None \<Rightarrow> 512 | Some n \<Rightarrow> n) * 4,
      cs_chunkOverlap = (case chunkOverlapTokens of None \<Rightarrow> 50 | Some n \<Rightarrow> n) * 4\<rparr>"


section \<open>Chunking by size\<close>

definition newline :: char where
  "newline = CHR 0x0A"

text \<open>The break points behind the start, in the order of the array literal.\<close>

definition breakPoints :: "string \<Rightarrow> nat \<Rightarrow> nat \<Rightarrow> int list" where
  "breakPoints content startIndex searchEnd =
     filter (\<lambda>bp. bp > int startIndex)
       [lastIndexOf content [newline, newline] searchEnd, lastIndexOf content [newline] searchEnd,
        lastIndexOf content ''. '' searchEnd, lastIndexOf content '' '' searchEnd]"

text \<open>The end of the chunk that starts at an index.\<close>

definition chunk_end :: "ChunkingService \<Rightarrow> string \<Rightarrow> nat \<Rightarrow> nat \<Rightarrow> nat" where
  "chunk_end cs content startIndex chunkIndex =
     (let endIndex = min (startIndex + cs_maxChunkSize cs) (length content)
      in if endIndex < length content \<and> chunkIndex > 0
         then (let searchEnd = min (endIndex + 50) (length content);
                   bps = breakPoints content startIndex searchEnd
               in if bps \<noteq> []
                  then (let bestBreak = Max (set bps)
                        in if 2 * bestBreak > 2 * int startIndex + int (cs_maxChunkSize cs)
                           then nat (bestBreak + 1) else endIndex)
                  else endIndex)
         else endIndex)"

definition size_chunk :: "LoadedDocument \<Rightarrow> nat \<Rightarrow> nat \<Rightarrow> nat \<Rightarrow> DocumentChunk" where
  "size_chunk doc chunkIndex startIndex endIndex =
     \<lparr>dc_id = ld_id doc @ ''_chunk_'' @ show_nat chunkIndex,
      dc_chunkText = trim (slice (ld_content doc) startIndex endIndex),
      dc_source = ld_source doc, dc_chunkIndex = chunkIndex,
      dc_metadata = \<lparr>cm_documentId = ld_id doc, cm_section = md_section (ld_metadata doc),
                     cm_type = mapDocumentTypeToChunkType (ld_type doc),
                     cm_startChar = Some startIndex, cm_endChar = Some endIndex\<rparr>\<rparr>"

definition next_start :: "ChunkingService \<Rightarrow> nat \<Rightarrow> nat \<Rightarrow> nat" where
  "next_start cs startIndex endIndex =
     (let nextStartIndex = int endIndex - int (cs_chunkOverlap cs)
      in if nextStartIndex \<le> int startIndex then endIndex else nat nextStartIndex)"

text \<open>The loop; the first argument is the number of iterations left before the safety limit.\<close>

fun size_loop :: "nat \<Rightarrow> ChunkingService \<Rightarrow> LoadedDocument \<Rightarrow> nat \<Rightarrow> nat \<Rightarrow> DocumentChunk list" where
  "size_loop 0 cs doc startIndex chunkIndex = []"
| "size_loop (Suc n) cs doc startIndex chunkIndex =
     (if startIndex < length (ld_content doc)
      then (let endIndex = chunk_end cs (ld_content doc) startIndex chunkIndex;
                chunk = size_chunk doc chunkIndex startIndex endIndex;
                startIndex' = next_start cs startIndex endIndex
            in if dc_chunkText chunk \<noteq> []
               then chunk # size_loop n cs doc startIndex' (Suc chunkIndex)
               else size_loop n cs doc startIndex' chunkIndex)
      else [])"

definition maxIterations :: nat where
  "maxIterations = 10000"

definition chunkBySize :: "ChunkingService \<Rightarrow> LoadedDocument \<Rightarrow> DocumentChunk list" where
  "chunkBySize cs doc =
     (if trim (ld_content doc) = [] then [] else size_loop maxIterations cs doc 0 0)"


section \<open>Chunking by headers\<close>

text \<open>
  A match of \<open>/^(#{1,6}\s+.+)$/m\<close> at the start of a line: the title left after removing the
  hashes and the white space, and the length of the match. The white space may run over line
  ends; when nothing follows it, the expression gives back its last character that is not a
  line end.
\<close>

definition header_at :: "string \<Rightarrow> (string \<times> nat) option" where
  "header_at s =
     (let k = length (takeWhile (\<lambda>c. c = CHR ''#'') s);
          ws = takeWhile is_ws (drop k s);
          rest = takeWhile (\<lambda>c. \<not> is_line_term c) (dropWhile is_ws (drop k s));
          back = length (dropWhile is_line_term (rev ws))
      in if k = 0 \<or> 6 < k \<or> ws = [] then None
         else if rest \<noteq> [] then Some (trim rest, k + length ws + length rest)
         else if 2 \<le> back then Some ([], k + back)
         else None)"

text \<open>The \<open>exec\<close> loop over the text from a position on; the flag says whether a line starts there.\<close>

function headerMatches :: "bool \<Rightarrow> nat \<Rightarrow> string \<Rightarrow> (string \<times> nat) list" where
  "headerMatches ls pos [] = []"
| "headerMatches ls pos (c # s) =
     (case (if ls then header_at (c # s) else None) of
        Some (title, n) \<Rightarrow> (title, pos) # headerMatches False (pos + n) (drop (n - 1) s)
      | None \<Rightarrow> headerMatches (is_line_term c) (Suc pos) s)"
  by pat_completeness auto
termination
  by (relation "measure (\<lambda>(_, _, s). length s)") auto

record Section =
  se_title :: string
  se_start :: nat
  se_end :: nat

fun make_sections :: "nat \<Rightarrow> (string \<times> nat) list \<Rightarrow> Section list" where
  "make_sections len [] = []"
| "make_sections len [(t, i)] = [\<lparr>se_title = t, se_start = i, se_end = len\<rparr>]"
| "make_sections len ((t, i) # (u, j) # hs) =
     \<lparr>se_title = t, se_start = i, se_end = j\<rparr> # make_sections len ((u, j) # hs)"

definition sections_of :: "string \<Rightarrow> Section list" where
  "sections_of content = make_sections (length content) (headerMatches True 0 content)"

definition section_id :: "LoadedDocument \<Rightarrow> nat \<Rightarrow> string" where
  "section_id doc index = ld_id doc @ ''_section_'' @ show_nat index"

definition sub_document :: "LoadedDocument \<Rightarrow> nat \<Rightarrow> Section \<Rightarrow> string \<Rightarrow> LoadedDocument" where
  "sub_document doc index sec sectionText =
     doc\<lparr>ld_id := section_id doc index, ld_content := sectionText,
         ld_metadata := (ld_metadata doc)\<lparr>md_section := Some (se_title sec)\<rparr>\<rparr>"

definition section_chunks :: "ChunkingService \<Rightarrow> LoadedDocument \<Rightarrow> nat \<Rightarrow> Section \<Rightarrow> DocumentChunk list" where
  "section_chunks cs doc index sec =
     (let sectionText = trim (slice (ld_content doc) (se_start sec) (se_end sec))
      in if length sectionText > cs_maxChunkSize cs
         then chunkBySize cs (sub_document doc index sec sectionText)
         else [\<lparr>dc_id = section_id doc index, dc_chunkText = sectionText, dc_source = ld_source doc,
                dc_chunkIndex = index,
                dc_metadata = \<lparr>cm_documentId = ld_id doc, cm_section = Some (se_title sec),
                               cm_type = mapDocumentTypeToChunkType (ld_type doc),
                               cm_startChar = Some (se_start sec), cm_endChar = Some (se_end sec)\<rparr>\<rparr>])"

definition chunkBySections :: "ChunkingService \<Rightarrow> LoadedDocument \<Rightarrow> DocumentChunk list" where
  "chunkBySections cs doc =
     (if ld_type doc \<noteq> DMarkdown then chunkBySize cs doc
      else (let sections = sections_of (ld_content doc)
            in if sections = [] then chunkBySize cs doc
               else concat (map (\<lambda>(index, sec). section_chunks cs doc index sec)
                      (zip [0..<length sections] sections))))"

definition chunkDocument :: "ChunkingService \<Rightarrow> LoadedDocument \<Rightarrow> DocumentChunk list" where
  "chunkDocument cs doc =
     (if ld_type doc = DMarkdown
      then (let semanticChunks = chunkBySections cs doc
            in if semanticChunks \<noteq> [] then semanticChunks else chunkBySize cs doc)
      else chunkBySize cs doc)"

text \<open>\<open>chunkDocument\<close> does not throw on a document that has the fields of its type.\<close>

definition chunkDocuments :: "ChunkingService \<Rightarrow> LoadedDocument list \<Rightarrow> DocumentChunk list" where
  "chunkDocuments cs docs = concat (map (chunkDocument cs) docs)"


section \<open>The loop of \<open>chunkBySize\<close>\<close>

lemma lastIndexOf_pos:
  "int i < lastIndexOf s p k \<Longrightarrow> p \<noteq> [] \<Longrightarrow> lastIndexOf s p k < int (length s) \<and> lastIndexOf s p k \<le> int k"
  using lastIndexOf_bound [of s p k] lastIndexOf_le [of s p k] by (cases p) auto

lemma breakPoints_bound:
  "bp \<in> set (breakPoints content i k) \<Longrightarrow> int i < bp \<and> bp < int (length content) \<and> bp \<le> int k"
  unfolding breakPoints_def using lastIndexOf_pos [of i content _ k] by (auto split: if_splits)

text \<open>Every chunk has positive length, stays inside the document and exceeds the limit by at most 51.\<close>

lemma chunk_end_bounds:
  assumes "i < length content" "0 < cs_maxChunkSize cs"
  shows "i < chunk_end cs content i n" "chunk_end cs content i n \<le> length content"
    "chunk_end cs content i n \<le> i + cs_maxChunkSize cs + 51"
    "chunk_end cs content i n = length content \<or> i + min (cs_maxChunkSize cs) (cs_maxChunkSize cs div 2 + 2) \<le> chunk_end cs content i n"
proof -
  let ?e = "min (i + cs_maxChunkSize cs) (length content)"
  let ?bps = "breakPoints content i (min (?e + 50) (length content))"
  have "i < chunk_end cs content i n \<and> chunk_end cs content i n \<le> length content
      \<and> chunk_end cs content i n \<le> i + cs_maxChunkSize cs + 51
      \<and> (chunk_end cs content i n = length content
          \<or> i + min (cs_maxChunkSize cs) (cs_maxChunkSize cs div 2 + 2) \<le> chunk_end cs content i n)"
  proof (cases "?e < length content \<and> n > 0 \<and> ?bps \<noteq> [] \<and> 2 * Max (set ?bps) > 2 * int i + int (cs_maxChunkSize cs)")
    case True
    then have e: "chunk_end cs content i n = nat (Max (set ?bps) + 1)"
      by (simp add: chunk_end_def Let_def)
    have "Max (set ?bps) \<in> set ?bps" using True by (intro Max_in) auto
    moreover have "min (?e + 50) (length content) \<le> i + cs_maxChunkSize cs + 50" by simp
    ultimately
    have "int i < Max (set ?bps)" "Max (set ?bps) < int (length content)" "Max (set ?bps) \<le> int (i + cs_maxChunkSize cs + 50)"
      using breakPoints_bound by (fastforce, fastforce, meson breakPoints_bound of_nat_mono order_trans)
    with True show ?thesis unfolding e by linarith
  next
    case False
    then have "chunk_end cs content i n = ?e" by (auto simp: chunk_end_def Let_def)
    with assms show ?thesis by auto
  qed
  then show "i < chunk_end cs content i n" "chunk_end cs content i n \<le> length content"
    "chunk_end cs content i n \<le> i + cs_maxChunkSize cs + 51"
    "chunk_end cs content i n = length content \<or> i + min (cs_maxChunkSize cs) (cs_maxChunkSize cs div 2 + 2) \<le> chunk_end cs content i n"
    by blast+
qed

lemma next_start_progress: "i < e \<Longrightarrow> i < next_start cs i e \<and> next_start cs i e \<le> e"
  by (auto simp: next_start_def Let_def)

text \<open>The least advance of an iteration that does not end at the end of the document.\<close>

definition stride :: "ChunkingService \<Rightarrow> nat" where
  "stride cs = max 1 (min (cs_maxChunkSize cs) (cs_maxChunkSize cs div 2 + 2) - cs_chunkOverlap cs)"

lemma next_start_stride:
  "i + min (cs_maxChunkSize cs) (cs_maxChunkSize cs div 2 + 2) \<le> e \<Longrightarrow> i < e \<Longrightarrow> i + stride cs \<le> next_start cs i e"
  unfolding next_start_def Let_def stride_def by (simp split: if_splits) linarith

text \<open>With enough iterations left every position from the start on falls into a chunk.\<close>

definition covered_by :: "DocumentChunk list \<Rightarrow> nat \<Rightarrow> bool" where
  "covered_by chunks k \<longleftrightarrow>
     list_ex (\<lambda>ch. case (cm_startChar (dc_metadata ch), cm_endChar (dc_metadata ch)) of
        (Some i, Some j) \<Rightarrow> i \<le> k \<and> k < j | _ \<Rightarrow> False) chunks"

lemma covered_by_Cons [simp]:
  "covered_by (size_chunk doc n i j # chunks) k \<longleftrightarrow> i \<le> k \<and> k < j \<or> covered_by chunks k"
  by (simp add: covered_by_def size_chunk_def)

lemma slice_non_ws:
  "i \<le> k \<Longrightarrow> k < j \<Longrightarrow> j \<le> length s \<Longrightarrow> \<not> is_ws (s ! k) \<Longrightarrow> trim (slice s i j) \<noteq> []"
  using slice_mem [of i k j s] by (auto simp: trim_eq_Nil_iff)

lemma size_loop_covers:
  assumes "0 < cs_maxChunkSize cs"
  shows "length (ld_content doc) - i \<le> n * stride cs \<Longrightarrow> i \<le> k \<Longrightarrow> k < length (ld_content doc) \<Longrightarrow>
     \<not> is_ws (ld_content doc ! k) \<Longrightarrow> covered_by (size_loop n cs doc i m) k"
proof (induction n arbitrary: i m)
  case (Suc n)
  let ?e = "chunk_end cs (ld_content doc) i m"
  have i: "i < length (ld_content doc)" using Suc.prems by simp
  note b = chunk_end_bounds [OF i assms, of m]
  note p = next_start_progress [OF b(1), of cs]
  show ?case
  proof (cases "k < ?e")
    case True
    then have "trim (slice (ld_content doc) i ?e) \<noteq> []"
      using Suc.prems b(2) by (intro slice_non_ws)
    with True i Suc.prems(2) show ?thesis by (simp add: Let_def) (simp add: size_chunk_def)
  next
    case False
    with Suc.prems(3) b(4) have "i + stride cs \<le> next_start cs i ?e"
      using next_start_stride b(1) by fastforce
    then have "length (ld_content doc) - next_start cs i ?e \<le> n * stride cs" using Suc.prems(1) by simp
    then have "covered_by (size_loop n cs doc (next_start cs i ?e) m') k" for m'
      using Suc.IH Suc.prems p False by simp
    with i show ?thesis by (simp add: Let_def)
  qed
qed simp

text \<open>Every chunk of the loop is a trimmed slice with consecutive numbers.\<close>

lemma size_loop_chunks:
  assumes "0 < cs_maxChunkSize cs" "ch \<in> set (size_loop n cs doc i m)"
  shows "\<exists>m' a b. ch = size_chunk doc m' a b \<and> a < b \<and> b \<le> length (ld_content doc)
    \<and> b \<le> a + cs_maxChunkSize cs + 51 \<and> dc_chunkText ch \<noteq> []"
  using assms(2)
proof (induction n arbitrary: i m)
  case (Suc n)
  let ?e = "chunk_end cs (ld_content doc) i m"
  have i: "i < length (ld_content doc)" using Suc.prems by (cases "i < length (ld_content doc)") auto
  note b = chunk_end_bounds [OF i assms(1), of m]
  from Suc.prems i consider (hd) "ch = size_chunk doc m i ?e" "dc_chunkText ch \<noteq> []"
    | (tl) m' where "ch \<in> set (size_loop n cs doc (next_start cs i ?e) m')"
    by (auto simp: Let_def split: if_splits)
  then show ?case
  proof cases
    case hd
    then show ?thesis using b by (intro exI conjI) auto
  qed (rule Suc.IH)
qed simp

lemma size_loop_index:
  "map dc_chunkIndex (size_loop n cs doc i m) = [m..<m + length (size_loop n cs doc i m)]"
proof (induction n arbitrary: i m)
  case (Suc n)
  show ?case
    using Suc.IH [of "next_start cs i (chunk_end cs (ld_content doc) i m)" "Suc m"]
      Suc.IH [of "next_start cs i (chunk_end cs (ld_content doc) i m)" m]
    by (auto simp: Let_def size_chunk_def upt_conv_Cons simp del: upt_Suc)
qed simp



section \<open>Sections\<close>

lemma header_at_Some: "header_at s = Some (t, n) \<Longrightarrow> 0 < n \<and> (\<exists>r. s = CHR ''#'' # r)"
proof -
  assume h: "header_at s = Some (t, n)"
  let ?k = "length (takeWhile (\<lambda>c. c = CHR ''#'') s)"
  have split: "(if k = 0 \<or> 6 < k \<or> p then None else if q then Some (u, k + a + b)
      else if r then Some (v, k + c) else None) = Some (t, n) \<Longrightarrow> k \<noteq> 0 \<and> k \<le> n"
    for k a b c :: nat and p q r u v
    by (simp split: if_splits)
  have "?k \<noteq> 0 \<and> ?k \<le> n" using h unfolding header_at_def Let_def by (rule split)
  then show ?thesis by (cases s) (auto split: if_splits)
qed

lemma headerMatches_pos:
  "(t, i) \<in> set (headerMatches ls pos s) \<Longrightarrow> pos \<le> i \<and> i < pos + length s \<and> s ! (i - pos) = CHR ''#''"
proof (induction ls pos s arbitrary: t i rule: headerMatches.induct)
  case (2 ls pos c s)
  show ?case
  proof (cases "if ls then header_at (c # s) else None")
    case None
    then have "(t, i) \<in> set (headerMatches (is_line_term c) (Suc pos) s)" using "2.prems" by simp
    from "2.IH"(1) [OF None this] obtain j where "i = Suc pos + j" "j < length s" "s ! j = CHR ''#''"
      by (metis add_diff_cancel_left' le_Suc_ex nat_add_left_cancel_less)
    then show ?thesis by simp
  next
    case (Some a)
    obtain u n where a: "a = (u, n)" by (cases a)
    have h: "0 < n" "c = CHR ''#''" using Some a header_at_Some by (auto split: if_splits)
    from "2.prems" Some a consider (first) "i = pos" | (later) "(t, i) \<in> set (headerMatches False (pos + n) (drop (n - 1) s))"
      by auto
    then show ?thesis
    proof cases
      case first
      then show ?thesis using h by simp
    next
      case later
      then have *: "pos + n \<le> i" "i < pos + n + length (drop (n - 1) s)" "drop (n - 1) s ! (i - (pos + n)) = CHR ''#''"
        using "2.IH"(2) [OF Some a [symmetric]] by auto
      then have "i - pos = Suc (n - 1 + (i - (pos + n)))" using h by simp
      with * h show ?thesis by auto
    qed
  qed
qed simp

lemma headerMatches_sorted: "sorted_wrt (\<lambda>a b. snd a < snd b) (headerMatches ls pos s)"
proof (induction ls pos s rule: headerMatches.induct)
  case (2 ls pos c s)
  show ?case
  proof (cases "if ls then header_at (c # s) else None")
    case None
    then show ?thesis using "2.IH"(1) [OF None] by simp
  next
    case (Some a)
    obtain u n where a: "a = (u, n)" by (cases a)
    have "0 < n" using Some a header_at_Some by (auto split: if_splits)
    then have "pos < snd b" if "b \<in> set (headerMatches False (pos + n) (drop (n - 1) s))" for b
      using headerMatches_pos [of "fst b" "snd b" False "pos + n" "drop (n - 1) s"] that by simp
    then show ?thesis using Some a "2.IH"(2) [OF Some a [symmetric]] by simp
  qed
qed simp

lemma slice_drop: "i \<le> j \<Longrightarrow> slice s i j @ drop j s = drop i s"
  using append_take_drop_id [of "j - i" "drop i s"] by (simp add: slice_def)

definition raw_section :: "string \<Rightarrow> Section \<Rightarrow> string" where
  "raw_section content sec = slice content (se_start sec) (se_end sec)"

lemma make_sections_concat:
  "hs \<noteq> [] \<Longrightarrow> sorted_wrt (\<lambda>a b. snd a < snd b) hs \<Longrightarrow>
     concat (map (raw_section content) (make_sections (length content) hs)) = drop (snd (hd hs)) content"
proof (induction "length content" hs rule: make_sections.induct)
  case (2 t i)
  then show ?case by (simp add: raw_section_def slice_def)
next
  case (3 t i u j hs)
  then show ?case by (simp add: raw_section_def slice_drop)
qed simp

lemma make_sections_starts:
  "map se_start (make_sections len hs) = map snd hs" "map se_title (make_sections len hs) = map fst hs"
  by (induction len hs rule: make_sections.induct) auto

lemma sections_of_Nil: "sections_of content = [] \<longleftrightarrow> headerMatches True 0 content = []"
  using make_sections_starts(1) [of "length content" "headerMatches True 0 content"]
  unfolding sections_of_def by (metis map_is_Nil_conv)

lemma sections_partition:
  assumes "sections_of content \<noteq> []"
  shows "concat (map (raw_section content) (sections_of content)) = drop (se_start (hd (sections_of content))) content"
proof -
  let ?hs = "headerMatches True 0 content"
  have "?hs \<noteq> []" using assms sections_of_Nil by simp
  moreover then have "snd (hd ?hs) = se_start (hd (sections_of content))"
    using make_sections_starts(1) [of "length content" ?hs] assms
    unfolding sections_of_def by (metis hd_map)
  ultimately show ?thesis
    unfolding sections_of_def using make_sections_concat [OF _ headerMatches_sorted] by metis
qed



section \<open>Chunk ids\<close>

lemma size_loop_ids:
  "map dc_id (size_loop n cs doc i m) = map (\<lambda>k. ld_id doc @ ''_chunk_'' @ show_nat k) (map dc_chunkIndex (size_loop n cs doc i m))"
  by (induction n arbitrary: i m) (auto simp: Let_def size_chunk_def)

lemma chunkBySize_ids:
  "map dc_id (chunkBySize cs doc) = map (\<lambda>k. ld_id doc @ ''_chunk_'' @ show_nat k) [0..<length (chunkBySize cs doc)]"
  using size_loop_ids [of maxIterations cs doc 0 0] size_loop_index [of maxIterations cs doc 0 0]
  by (simp add: chunkBySize_def)

lemma distinct_chunkBySize: "distinct (map dc_id (chunkBySize cs doc))"
  unfolding chunkBySize_ids
  by (simp add: distinct_map inj_on_def) (use show_nat_inj in blast)

text \<open>The number that follows the prefix of a section id.\<close>

definition section_key :: "LoadedDocument \<Rightarrow> string \<Rightarrow> string" where
  "section_key doc cid = takeWhile is_digit (drop (length (ld_id doc) + 9) cid)"

lemma section_key_id:
  "r = [] \<or> \<not> is_digit (hd r) \<Longrightarrow> section_key doc (section_id doc index @ r) = show_nat index"
  using take_digits_show_nat [of r index] by (simp add: section_key_def section_id_def)

lemma section_chunks_key:
  assumes "ch \<in> set (section_chunks cs doc index sec)"
  shows "section_key doc (dc_id ch) = show_nat index"
proof (cases "length (trim (slice (ld_content doc) (se_start sec) (se_end sec))) > cs_maxChunkSize cs")
  case True
  let ?sub = "sub_document doc index sec (trim (slice (ld_content doc) (se_start sec) (se_end sec)))"
  from True assms have "dc_id ch \<in> set (map dc_id (chunkBySize cs ?sub))"
    by (simp add: section_chunks_def Let_def)
  then obtain k where "dc_id ch = section_id doc index @ (''_chunk_'' @ show_nat k)"
    unfolding chunkBySize_ids by (auto simp: sub_document_def)
  then show ?thesis using section_key_id [of "''_chunk_'' @ show_nat k"] by (simp add: is_digit_def char_code_def)
next
  case False
  with assms have "dc_id ch = section_id doc index @ []" by (simp add: section_chunks_def Let_def)
  then show ?thesis using section_key_id [of "[]"] by simp
qed

lemma distinct_section_chunks: "distinct (map dc_id (section_chunks cs doc index sec))"
  using distinct_chunkBySize by (simp add: section_chunks_def Let_def)

lemma distinct_chunkBySections: "distinct (map dc_id (chunkBySections cs doc))"
proof -
  have "distinct (map dc_id (concat (map (\<lambda>(index, sec). section_chunks cs doc index sec) (zip [0..<length ss] ss))))" for ss
  proof (rule distinct_concat_keyed)
    show "distinct (map dc_id (case x of (index, sec) \<Rightarrow> section_chunks cs doc index sec))" for x
      by (cases x) (simp add: distinct_section_chunks)
    show "section_key doc (dc_id y) = show_nat (fst x)"
      if "y \<in> set (case x of (index, sec) \<Rightarrow> section_chunks cs doc index sec)" for x y
      using that by (cases x) (auto dest: section_chunks_key)
    have "map (\<lambda>x. show_nat (fst x)) (zip [0..<length ss] ss) = map show_nat (map fst (zip [0..<length ss] ss))"
      unfolding map_map comp_def ..
    then show "distinct (map (\<lambda>x. show_nat (fst x)) (zip [0..<length ss] ss))"
      by (simp add: distinct_map inj_on_subset [OF inj_show_nat] del: map_map)
  qed
  then show ?thesis by (simp add: chunkBySections_def Let_def distinct_chunkBySize)
qed


section \<open>Interface: chunks of a document\<close>

text \<open>What the pipeline relies on: a chunk has text that is not blank, and ids tell chunks apart.\<close>

locale chunker =
  fixes chunk :: "LoadedDocument \<Rightarrow> DocumentChunk list"
  assumes nonblank: "ch \<in> set (chunk doc) \<Longrightarrow> trim (dc_chunkText ch) \<noteq> []"
    and ids_distinct: "distinct (map dc_id (chunk doc))"
begin

lemma nonblank_all: "ch \<in> set (concat (map chunk docs)) \<Longrightarrow> trim (dc_chunkText ch) \<noteq> []"
  using nonblank by auto

lemma id_determines: "a \<in> set (chunk doc) \<Longrightarrow> b \<in> set (chunk doc) \<Longrightarrow> dc_id a = dc_id b \<Longrightarrow> a = b"
  using ids_distinct [of doc] by (auto simp: distinct_map dest: inj_onD)

end

lemma size_loop_nonblank: "ch \<in> set (size_loop n cs doc i m) \<Longrightarrow> trim (dc_chunkText ch) \<noteq> []"
proof (induction n arbitrary: i m)
  case (Suc n)
  then show ?case
    using trim_trim_ne by (auto simp: Let_def size_chunk_def split: if_splits)
qed simp

lemma chunkBySize_nonblank: "ch \<in> set (chunkBySize cs doc) \<Longrightarrow> trim (dc_chunkText ch) \<noteq> []"
  using size_loop_nonblank by (auto simp: chunkBySize_def split: if_splits)

lemma make_sections_bounds:
  "sec \<in> set (make_sections len hs) \<Longrightarrow> sorted_wrt (\<lambda>a b. snd a < snd b) hs \<Longrightarrow> (\<And>h. h \<in> set hs \<Longrightarrow> snd h < len) \<Longrightarrow>
     se_start sec < se_end sec \<and> se_end sec \<le> len \<and> se_start sec \<in> snd ` set hs"
proof (induction len hs rule: make_sections.induct)
  case (3 len t i u j hs)
  have lt: "j < len" "i < j" using "3.prems"(3) [of "(u, j)"] "3.prems"(2) by simp_all
  show ?case
  proof (cases "sec = \<lparr>se_title = t, se_start = i, se_end = j\<rparr>")
    case True
    with lt show ?thesis by simp
  next
    case False
    then have "sec \<in> set (make_sections len ((u, j) # hs))" using "3.prems"(1) by simp
    moreover have "sorted_wrt (\<lambda>a b. snd a < snd b) ((u, j) # hs)" using "3.prems"(2) by simp
    moreover have "snd h < len" if "h \<in> set ((u, j) # hs)" for h using "3.prems"(3) [of h] that by simp
    ultimately have "se_start sec < se_end sec \<and> se_end sec \<le> len \<and> se_start sec \<in> snd ` set ((u, j) # hs)"
      by (rule "3.IH")
    then show ?thesis by simp
  qed
qed auto

lemma section_nonblank:
  assumes "sec \<in> set (sections_of content)"
  shows "trim (slice content (se_start sec) (se_end sec)) \<noteq> []"
proof -
  let ?hs = "headerMatches True 0 content"
  have pos: "snd h < length content" "content ! snd h = CHR ''#''" if "h \<in> set ?hs" for h
    using headerMatches_pos [of "fst h" "snd h" True 0 content] that by simp_all
  have "se_start sec < se_end sec" "se_end sec \<le> length content" "se_start sec \<in> snd ` set ?hs"
    using make_sections_bounds [OF assms [unfolded sections_of_def] headerMatches_sorted pos(1)] by blast+
  moreover have "\<not> is_ws (CHR ''#'')" by (simp add: is_ws_def)
  ultimately show ?thesis using pos(2) by (intro slice_non_ws [of _ "se_start sec"]) auto
qed

lemma chunkBySections_nonblank:
  assumes "ch \<in> set (chunkBySections cs doc)"
  shows "trim (dc_chunkText ch) \<noteq> []"
proof (cases "ld_type doc = DMarkdown \<and> sections_of (ld_content doc) \<noteq> []")
  case True
  let ?ss = "sections_of (ld_content doc)"
  from assms True obtain i sec where "sec \<in> set ?ss" and ch: "ch \<in> set (section_chunks cs doc i sec)"
    by (auto simp: chunkBySections_def Let_def dest: set_zip_rightD)
  then have "trim (slice (ld_content doc) (se_start sec) (se_end sec)) \<noteq> []" using section_nonblank by blast
  then show ?thesis
    using ch chunkBySize_nonblank trim_trim_ne
    by (auto simp: section_chunks_def Let_def split: if_splits)
next
  case False
  then have "chunkBySections cs doc = chunkBySize cs doc" by (auto simp: chunkBySections_def Let_def)
  with assms show ?thesis by (simp add: chunkBySize_nonblank)
qed

interpretation ck: chunker "chunkDocument cs" for cs
  by unfold_locales
    (auto simp: chunkDocument_def Let_def chunkBySize_nonblank chunkBySections_nonblank
      distinct_chunkBySections distinct_chunkBySize split: if_splits)


section \<open>Properties\<close>

text \<open>
  C8. No text is lost by size: for a positive chunk size, every character of the document that is
  not white space lies between the start and the end of some chunk, provided the document is not
  longer than what ten thousand iterations advance (more than eight million characters with the
  default sizes, and at least ten thousand with any).
\<close>

theorem chunkBySize_covers:
  assumes "0 < cs_maxChunkSize cs" "length (ld_content doc) \<le> 10000 * stride cs"
    and "k < length (ld_content doc)" "\<not> is_ws (ld_content doc ! k)"
  shows "covered_by (chunkBySize cs doc) k"
proof -
  have "trim (ld_content doc) \<noteq> []" using assms(3,4) by (auto simp: trim_eq_Nil_iff)
  then show ?thesis
    using assms size_loop_covers [OF assms(1), of doc 0 maxIterations k 0]
    by (simp add: chunkBySize_def maxIterations_def)
qed

definition sample_doc :: "doc_type \<Rightarrow> string \<Rightarrow> LoadedDocument" where
  "sample_doc ty content =
     \<lparr>ld_id = ''doc'', ld_content = content, ld_source = ''s.md'', ld_type = ty,
      ld_metadata = \<lparr>md_filePath = None, md_title = None, md_section = None, md_timestamp = None\<rparr>\<rparr>"

theorem chunkBySize_covers_witness:
  "covered_by (chunkBySize \<lparr>cs_maxChunkSize = 4, cs_chunkOverlap = 1\<rparr> (sample_doc DText ''ab cd ef gh'')) 9"
  by (rule chunkBySize_covers) (simp_all add: sample_doc_def stride_def is_ws_def)

text \<open>
  Every chunk by size is the trimmed text between its own start and end, is not empty, exceeds
  the configured size by at most 51 characters and carries the document's id and source; chunks
  are numbered 0, 1, 2 and so on.
\<close>

theorem chunkBySize_sound:
  assumes "0 < cs_maxChunkSize cs"
  shows "map dc_chunkIndex (chunkBySize cs doc) = [0..<length (chunkBySize cs doc)]
    \<and> (\<forall>ch \<in> set (chunkBySize cs doc). \<exists>a b. cm_startChar (dc_metadata ch) = Some a \<and> cm_endChar (dc_metadata ch) = Some b
        \<and> a < b \<and> b \<le> length (ld_content doc) \<and> dc_chunkText ch = trim (slice (ld_content doc) a b)
        \<and> dc_chunkText ch \<noteq> [] \<and> length (dc_chunkText ch) \<le> cs_maxChunkSize cs + 51
        \<and> cm_documentId (dc_metadata ch) = ld_id doc \<and> dc_source ch = ld_source doc)"
proof
  show "map dc_chunkIndex (chunkBySize cs doc) = [0..<length (chunkBySize cs doc)]"
    using size_loop_index [of maxIterations cs doc 0 0] by (simp add: chunkBySize_def)
  show "\<forall>ch \<in> set (chunkBySize cs doc). \<exists>a b. cm_startChar (dc_metadata ch) = Some a \<and> cm_endChar (dc_metadata ch) = Some b
        \<and> a < b \<and> b \<le> length (ld_content doc) \<and> dc_chunkText ch = trim (slice (ld_content doc) a b)
        \<and> dc_chunkText ch \<noteq> [] \<and> length (dc_chunkText ch) \<le> cs_maxChunkSize cs + 51
        \<and> cm_documentId (dc_metadata ch) = ld_id doc \<and> dc_source ch = ld_source doc"
  proof
    fix ch assume "ch \<in> set (chunkBySize cs doc)"
    then have "ch \<in> set (size_loop maxIterations cs doc 0 0)" by (simp add: chunkBySize_def split: if_splits)
    then obtain m a b where ch: "ch = size_chunk doc m a b" "a < b" "b \<le> length (ld_content doc)"
        "b \<le> a + cs_maxChunkSize cs + 51" "dc_chunkText ch \<noteq> []"
      using size_loop_chunks [OF assms] by blast
    have "length (trim (slice (ld_content doc) a b)) \<le> cs_maxChunkSize cs + 51"
      using length_trim [of "slice (ld_content doc) a b"] ch(4) by (auto simp: length_slice)
    with ch show "\<exists>a b. cm_startChar (dc_metadata ch) = Some a \<and> cm_endChar (dc_metadata ch) = Some b
        \<and> a < b \<and> b \<le> length (ld_content doc) \<and> dc_chunkText ch = trim (slice (ld_content doc) a b)
        \<and> dc_chunkText ch \<noteq> [] \<and> length (dc_chunkText ch) \<le> cs_maxChunkSize cs + 51
        \<and> cm_documentId (dc_metadata ch) = ld_id doc \<and> dc_source ch = ld_source doc"
      by (intro exI [of _ a] exI [of _ b]) (simp add: size_chunk_def)
  qed
qed

theorem chunkBySize_sound_witness:
  "list_all (\<lambda>ch. length (dc_chunkText ch) \<le> 55)
     (chunkBySize \<lparr>cs_maxChunkSize = 4, cs_chunkOverlap = 1\<rparr> (sample_doc DText ''ab cd ef gh''))"
  using chunkBySize_sound [of "\<lparr>cs_maxChunkSize = 4, cs_chunkOverlap = 1\<rparr>" "sample_doc DText ''ab cd ef gh''"]
  by (auto simp: list_all_iff)

text \<open>All chunks of a document have different ids, whichever strategy made them.\<close>

theorem chunkDocument_ids_distinct: "distinct (map dc_id (chunkDocument cs doc))"
  unfolding chunkDocument_def Let_def by (simp add: distinct_chunkBySections distinct_chunkBySize)

lemma short_document:
  assumes "cs_chunkOverlap cs < length (ld_content doc)" "length (ld_content doc) \<le> cs_maxChunkSize cs"
    and "0 < cs_chunkOverlap cs"
    and "trim (drop (length (ld_content doc) - cs_chunkOverlap cs) (ld_content doc)) \<noteq> []"
  shows "map dc_chunkText (chunkBySize cs doc) =
    [trim (ld_content doc), trim (drop (length (ld_content doc) - cs_chunkOverlap cs) (ld_content doc))]"
proof -
  let ?n = "length (ld_content doc)" and ?o = "cs_chunkOverlap cs"
  have ne: "trim (ld_content doc) \<noteq> []"
    using assms(4) set_drop_subset [of "?n - ?o" "ld_content doc"] by (auto simp: trim_eq_Nil_iff)
  have len: "ld_content doc \<noteq> []" using assms(1) by auto
  have e: "chunk_end cs (ld_content doc) i m = ?n" if "?n \<le> i + cs_maxChunkSize cs" for i m
    using that by (simp add: chunk_end_def Let_def min_def)
  have n1: "next_start cs 0 ?n = ?n - ?o" using assms(1) by (simp add: next_start_def Let_def nat_diff_distrib)
  have n2: "next_start cs (?n - ?o) ?n = ?n" using assms(1) by (simp add: next_start_def Let_def)
  have stop: "size_loop k cs doc ?n m = []" for k m by (cases k) simp_all
  have s0: "slice (ld_content doc) 0 ?n = ld_content doc" "slice (ld_content doc) (?n - ?o) ?n = drop (?n - ?o) (ld_content doc)"
    using assms(1) by (simp_all add: slice_def)
  have loop: "size_loop (Suc (Suc k)) cs doc 0 0 = [size_chunk doc 0 0 ?n, size_chunk doc 1 (?n - ?o) ?n]" for k
    using assms ne len by (simp add: Let_def e n1 n2 stop del: One_nat_def) (simp add: size_chunk_def s0)
  have "maxIterations = Suc (Suc 9998)" by (simp add: maxIterations_def)
  then have "chunkBySize cs doc = [size_chunk doc 0 0 ?n, size_chunk doc 1 (?n - ?o) ?n]"
    unfolding chunkBySize_def using ne loop [of 9998] by presburger
  then show ?thesis by (simp add: size_chunk_def s0)
qed

text \<open>
  A document that fits into one chunk but is longer than the overlap is chunked twice: after
  the chunk with the whole text the loop steps back by the overlap and adds a second chunk with
  the last characters of the first.
\<close>

theorem chunkBySize_short_document:
  assumes "cs_chunkOverlap cs < length (ld_content doc)" "length (ld_content doc) \<le> cs_maxChunkSize cs"
    and "0 < cs_chunkOverlap cs"
    and "trim (drop (length (ld_content doc) - cs_chunkOverlap cs) (ld_content doc)) \<noteq> []"
  shows "map dc_chunkText (chunkBySize cs doc) =
    [trim (ld_content doc), trim (drop (length (ld_content doc) - cs_chunkOverlap cs) (ld_content doc))]"
  by (rule short_document [OF assms])

theorem chunkBySize_short_document_witness:
  "map dc_chunkText (chunkBySize \<lparr>cs_maxChunkSize = 40, cs_chunkOverlap = 4\<rparr> (sample_doc DText ''one two three''))
     = [''one two three'', ''hree'']"
proof -
  have "trim (drop 9 ''one two three'') = ''hree''" "trim ''one two three'' = ''one two three''" by code_simp+
  then show ?thesis
    using chunkBySize_short_document [of "\<lparr>cs_maxChunkSize = 40, cs_chunkOverlap = 4\<rparr>" "sample_doc DText ''one two three''"]
    by (simp add: sample_doc_def)
qed

text \<open>
  C20. A markdown document with headers whose sections all fit is cut exactly at its headers: there
  is one chunk per section, in order, with the section's trimmed text and title, and the sections
  put together are the text from the first header on. What stands before the first header is in
  no chunk.
\<close>

theorem chunkBySections_partition:
  assumes "ld_type doc = DMarkdown" "sections_of (ld_content doc) \<noteq> []"
    and "\<forall>sec \<in> set (sections_of (ld_content doc)). length (trim (raw_section (ld_content doc) sec)) \<le> cs_maxChunkSize cs"
  shows "map dc_chunkText (chunkDocument cs doc) = map (\<lambda>sec. trim (raw_section (ld_content doc) sec)) (sections_of (ld_content doc))
    \<and> map (cm_section \<circ> dc_metadata) (chunkDocument cs doc) = map (Some \<circ> fst) (headerMatches True 0 (ld_content doc))
    \<and> concat (map (raw_section (ld_content doc)) (sections_of (ld_content doc)))
        = drop (snd (hd (headerMatches True 0 (ld_content doc)))) (ld_content doc)"
proof -
  let ?c = "ld_content doc" and ?ss = "sections_of (ld_content doc)"
  have one: "map dc_chunkText (section_chunks cs doc i sec) = [trim (raw_section ?c sec)]
      \<and> map (cm_section \<circ> dc_metadata) (section_chunks cs doc i sec) = [Some (se_title sec)]" if "sec \<in> set ?ss" for i sec
    using assms(3) that by (force simp: section_chunks_def Let_def raw_section_def)
  have chunks: "map dc_chunkText (concat (map (\<lambda>(i, sec). section_chunks cs doc i sec) (zip is ss))) = map (\<lambda>sec. trim (raw_section ?c sec)) ss
      \<and> map (cm_section \<circ> dc_metadata) (concat (map (\<lambda>(i, sec). section_chunks cs doc i sec) (zip is ss))) = map (Some \<circ> se_title) ss"
    if "length is = length ss" "set ss \<subseteq> set ?ss" for "is" ss
    using that
  proof (induction "is" ss rule: list_induct2)
    case (Cons i "is" sec ss)
    then show ?case using one [of sec i] by (simp add: comp_def)
  qed simp
  have eq: "chunkBySections cs doc = concat (map (\<lambda>(i, sec). section_chunks cs doc i sec) (zip [0..<length ?ss] ?ss))"
    using assms(1,2) by (simp add: chunkBySections_def Let_def)
  have c1: "map dc_chunkText (chunkBySections cs doc) = map (\<lambda>sec. trim (raw_section ?c sec)) ?ss"
    and c2: "map (cm_section \<circ> dc_metadata) (chunkBySections cs doc) = map (Some \<circ> se_title) ?ss"
    unfolding eq using chunks [of "[0..<length ?ss]" ?ss] by auto
  have doc: "chunkDocument cs doc = chunkBySections cs doc"
    using c1 assms(1,2) by (auto simp: chunkDocument_def Let_def)
  have t: "map (Some \<circ> se_title) ?ss = map (Some \<circ> fst) (headerMatches True 0 ?c)"
    unfolding sections_of_def map_map [symmetric] make_sections_starts(2) ..
  have "se_start (hd ?ss) = snd (hd (headerMatches True 0 ?c))"
    using make_sections_starts(1) [of "length ?c" "headerMatches True 0 ?c"] assms(2) sections_of_Nil [of ?c]
    unfolding sections_of_def by (metis hd_map)
  with c1 c2 t sections_partition [OF assms(2)] show ?thesis unfolding doc by simp
qed

theorem chunkBySections_partition_witness:
  "map dc_chunkText (chunkDocument \<lparr>cs_maxChunkSize = 40, cs_chunkOverlap = 4\<rparr>
      (sample_doc DMarkdown (''intro'' @ [newline] @ ''# A'' @ [newline] @ ''x'' @ [newline] @ ''## B'')))
     = [''# A'' @ [newline] @ ''x'', ''## B'']"
proof -
  let ?c = "''intro'' @ [newline] @ ''# A'' @ [newline] @ ''x'' @ [newline] @ ''## B''"
  have s: "sections_of ?c = [\<lparr>se_title = ''A'', se_start = 6, se_end = 12\<rparr>, \<lparr>se_title = ''B'', se_start = 12, se_end = 16\<rparr>]"
    by code_simp
  have "trim (slice ?c 6 12) = ''# A'' @ [newline] @ ''x''" "trim (slice ?c 12 16) = ''## B''" by code_simp+
  then show ?thesis
    using chunkBySections_partition [of "sample_doc DMarkdown ?c" "\<lparr>cs_maxChunkSize = 40, cs_chunkOverlap = 4\<rparr>"] s
    by (simp add: sample_doc_def raw_section_def)
qed

end
