(* ===== verification/Ingestion_Pipeline.thy ===== *)
theory Ingestion_Pipeline
  imports Chunking Vector_Store
begin

text \<open>
  Model of \<open>rag/ingestion-pipeline.ts\<close>: load, chunk, embed and store. The replies of the
  embedding services and of the store, which may differ from call to call, are functions of the
  number of the call; the waits between batches change nothing but the time and are left out. The
  \<open>onProgress\<close> callback may throw. The theory shows what becomes of every chunk, which requests
  are made for it and what the progress record says, and ways in which failures go unnoticed or are
  counted twice.
\<close>

record IngestionProgress =
  pr_totalDocuments :: nat
  pr_processedDocuments :: nat
  pr_totalChunks :: nat
  pr_processedChunks :: nat
  pr_embeddedChunks :: nat
  pr_storedChunks :: nat
  pr_errors :: "(string \<times> string) list"

definition new_progress :: "nat \<Rightarrow> IngestionProgress" where
  "new_progress n = \<lparr>pr_totalDocuments = n, pr_processedDocuments = 0, pr_totalChunks = 0,
     pr_processedChunks = 0, pr_embeddedChunks = 0, pr_storedChunks = 0, pr_errors = []\<rparr>"

record IngestionOptions =
  io_maxChunkTokens :: "nat option"
  io_chunkOverlapTokens :: "nat option"
  io_batchSize :: "nat option"

record IngestWorld =
  iw_url :: string
  iw_local :: "nat \<Rightarrow> string \<Rightarrow> local_reply"
  iw_sdk :: "nat \<Rightarrow> nat \<Rightarrow> string list \<Rightarrow> sdk_reply"
  iw_direct :: "nat \<Rightarrow> nat \<Rightarrow> string list \<Rightarrow> http_reply"
  iw_introspect :: "nat \<Rightarrow> (string list \<times> string list) option"
  iw_post :: "nat \<Rightarrow> string \<Rightarrow> string \<Rightarrow> Asset \<Rightarrow> store_reply"
  iw_now :: "nat \<Rightarrow> int"
  iw_stamp :: "nat \<Rightarrow> string"
  iw_rand :: "nat \<Rightarrow> string"

text \<open>
  The callback: given the number of the call and the progress, it returns or throws a message.
\<close>

type_synonym progress_callback = "nat \<Rightarrow> IngestionProgress \<Rightarrow> string option"

text \<open>
  The state of a run: the progress record, the reports given to the callback, the vector store's
  fields, and what was asked of the embedding service and of the store, with the answers.
\<close>

record IngestState =
  ig_progress :: IngestionProgress
  ig_reports :: "IngestionProgress list"
  ig_store :: VectorStore
  ig_embeds :: "(string list \<times> (batch_error + vector list)) list"
  ig_stores :: "(ChunkInput \<times> (string + string)) list"

fun show_chunk_type :: "chunk_type \<Rightarrow> string" where
  "show_chunk_type CDocumentation = ''documentation''"
| "show_chunk_type CSchema = ''schema''"
| "show_chunk_type CExample = ''example''"
| "show_chunk_type CApi = ''api''"

definition chunk_input :: "string \<Rightarrow> DocumentChunk \<Rightarrow> vector \<Rightarrow> ChunkInput" where
  "chunk_input stamp chunk embedding =
     \<lparr>ci_chunkText = dc_chunkText chunk, ci_embedding = embedding, ci_source = dc_source chunk,
      ci_chunkIndex = dc_chunkIndex chunk,
      ci_metadata = \<lparr>am_documentId = Some (cm_documentId (dc_metadata chunk)), am_section = cm_section (dc_metadata chunk),
        am_type = Some (show_chunk_type (cm_type (dc_metadata chunk))), am_timestamp = Some stamp\<rparr>\<rparr>"


section \<open>One chunk and one batch\<close>

definition add_error :: "DocumentChunk \<Rightarrow> string \<Rightarrow> IngestionProgress \<Rightarrow> IngestionProgress" where
  "add_error chunk msg p = p\<lparr>pr_errors := pr_errors p @ [(cm_documentId (dc_metadata chunk), msg)]\<rparr>"

definition count_processed :: "IngestionProgress \<Rightarrow> IngestionProgress" where
  "count_processed p = p\<lparr>pr_processedChunks := pr_processedChunks p + 1\<rparr>"

definition count_stored :: "IngestionProgress \<Rightarrow> IngestionProgress" where
  "count_stored p = p\<lparr>pr_storedChunks := pr_storedChunks p + 1, pr_embeddedChunks := pr_embeddedChunks p + 1\<rparr>"

definition store_one :: "IngestWorld \<Rightarrow> DocumentChunk \<Rightarrow> vector \<Rightarrow> IngestState \<Rightarrow> IngestState" where
  "store_one w chunk embedding st =
     (if embedding = [] then st
      else (let n = length (ig_stores st); input = chunk_input (iw_stamp w n) chunk embedding;
                (result, vs) = storeChunk (iw_url w) (iw_introspect w n) (iw_post w n) (iw_now w n) (iw_stamp w n) (iw_rand w n)
                  input (ig_store st);
                p = (case result of Inr _ \<Rightarrow> count_stored (ig_progress st) | Inl msg \<Rightarrow> add_error chunk msg (ig_progress st))
            in st\<lparr>ig_progress := p, ig_store := vs, ig_stores := ig_stores st @ [(input, result)]\<rparr>))"

text \<open>One round of the loop over a batch; the first component is the error that leaves it, if the callback throws.\<close>

definition ingest_chunk ::
  "IngestWorld \<Rightarrow> progress_callback option \<Rightarrow> DocumentChunk \<times> vector \<Rightarrow> IngestState \<Rightarrow> string option \<times> IngestState" where
  "ingest_chunk w onProgress ce st =
     (let st1 = store_one w (fst ce) (snd ce) st;
          p = count_processed (ig_progress st1);
          st2 = st1\<lparr>ig_progress := p\<rparr>
      in case onProgress of
           None \<Rightarrow> (None, st2)
         | Some f \<Rightarrow> (f (length (ig_reports st2)) p, st2\<lparr>ig_reports := ig_reports st2 @ [p]\<rparr>))"

fun store_batch ::
  "IngestWorld \<Rightarrow> progress_callback option \<Rightarrow> (DocumentChunk \<times> vector) list \<Rightarrow> IngestState \<Rightarrow> string option \<times> IngestState" where
  "store_batch w onProgress [] st = (None, st)"
| "store_batch w onProgress (ce # ces) st =
     (case ingest_chunk w onProgress ce st of
        (Some e, st') \<Rightarrow> (Some e, st')
      | (None, st') \<Rightarrow> store_batch w onProgress ces st')"

definition fail_batch :: "DocumentChunk list \<Rightarrow> string \<Rightarrow> IngestState \<Rightarrow> IngestState" where
  "fail_batch batch msg st =
     st\<lparr>ig_progress := fold (\<lambda>chunk p. count_processed (add_error chunk msg p)) batch (ig_progress st)\<rparr>"

fun batch_message :: "batch_error \<Rightarrow> string" where
  "batch_message NoValidTexts = ''No valid texts provided''"
| "batch_message (AllBatchesFailed errors) = ''All batches failed: '' @ join ''; '' errors"
| "batch_message BatchLoopDiverges = []"

definition isRateLimit :: "string \<Rightarrow> bool" where
  "isRateLimit msg \<longleftrightarrow> str_includes msg ''rate limit'' \<or> str_includes msg ''429'' \<or> str_includes msg ''HTTP error''"

definition request_embeddings ::
  "IngestWorld \<Rightarrow> EmbeddingService \<Rightarrow> nat \<Rightarrow> DocumentChunk list \<Rightarrow> IngestState \<Rightarrow> (batch_error + vector list) \<times> IngestState" where
  "request_embeddings w es bsize batch st =
     (let k = length (ig_embeds st); texts = map dc_chunkText batch;
          answer = generateEmbeddings es (iw_local w k) (iw_sdk w k) (iw_direct w k) texts bsize
      in (answer, st\<lparr>ig_embeds := ig_embeds st @ [(texts, answer)]\<rparr>))"

text \<open>The body of the \<open>try\<close> block, which the retry repeats: the embeddings and the loop over the batch.\<close>

definition attempt_batch ::
  "IngestWorld \<Rightarrow> EmbeddingService \<Rightarrow> progress_callback option \<Rightarrow> nat \<Rightarrow> DocumentChunk list \<Rightarrow> IngestState \<Rightarrow> string option \<times> IngestState" where
  "attempt_batch w es onProgress bsize batch st =
     (case request_embeddings w es bsize batch st of
        (Inl e, st1) \<Rightarrow> (Some (batch_message e), st1)
      | (Inr embeddings, st1) \<Rightarrow> store_batch w onProgress (zip batch embeddings) st1)"

definition ingest_batch ::
  "IngestWorld \<Rightarrow> EmbeddingService \<Rightarrow> progress_callback option \<Rightarrow> nat \<Rightarrow> DocumentChunk list \<Rightarrow> IngestState \<Rightarrow> IngestState" where
  "ingest_batch w es onProgress bsize batch st =
     (case attempt_batch w es onProgress bsize batch st of
        (None, st1) \<Rightarrow> st1
      | (Some errorMsg, st1) \<Rightarrow>
          if isRateLimit errorMsg
          then (case attempt_batch w es onProgress bsize batch st1 of
                  (None, st2) \<Rightarrow> st2
                | (Some retryErrorMsg, st2) \<Rightarrow> fail_batch batch retryErrorMsg st2)
          else fail_batch batch errorMsg st1)"

text \<open>The loop over the chunks in steps of the batch size, which is between 1 and 10.\<close>

function ingest_loop ::
  "IngestWorld \<Rightarrow> EmbeddingService \<Rightarrow> progress_callback option \<Rightarrow> nat \<Rightarrow> DocumentChunk list \<Rightarrow> IngestState \<Rightarrow> IngestState" where
  "ingest_loop w es onProgress bsize chunks st =
     (if chunks = [] \<or> bsize = 0 then st
      else ingest_loop w es onProgress bsize (drop bsize chunks) (ingest_batch w es onProgress bsize (take bsize chunks) st))"
  by pat_completeness auto
termination
  by (relation "measure (\<lambda>(_, _, _, _, chunks, _). length chunks)") auto

declare ingest_loop.simps [simp del]


section \<open>The pipeline\<close>

definition pipeline_chunker :: "IngestionOptions \<Rightarrow> ChunkingService" where
  "pipeline_chunker opts = new_ChunkingService (io_maxChunkTokens opts) (io_chunkOverlapTokens opts)"

definition embeddingBatchSize :: "IngestionOptions \<Rightarrow> nat" where
  "embeddingBatchSize opts = min (case io_batchSize opts of None \<Rightarrow> 10 | Some n \<Rightarrow> if n = 0 then 10 else n) 10"

definition ingestDocuments ::
  "IngestWorld \<Rightarrow> EmbeddingService \<Rightarrow> ChunkingService \<Rightarrow> LoadedDocument list \<Rightarrow> IngestionProgress option
     \<Rightarrow> IngestionOptions \<Rightarrow> progress_callback option \<Rightarrow> VectorStore \<Rightarrow> IngestState" where
  "ingestDocuments w es cs documents progress opts onProgress vs =
     (let p = (case progress of None \<Rightarrow> new_progress (length documents) | Some q \<Rightarrow> q);
          allChunks = chunkDocuments cs documents;
          st = \<lparr>ig_progress = p\<lparr>pr_totalChunks := length allChunks\<rparr>, ig_reports = [], ig_store = vs,
                ig_embeds = [], ig_stores = []\<rparr>
      in if allChunks = [] then st
         else (let st' = ingest_loop w es onProgress (embeddingBatchSize opts) allChunks st
               in st'\<lparr>ig_progress := (ig_progress st')\<lparr>pr_processedDocuments := length documents\<rparr>\<rparr>))"

fun load_message :: "load_error \<Rightarrow> string" where
  "load_message (NotFound p) = ''Directory not found: '' @ p"
| "load_message (NotADirectory p) = ''Path is not a directory: '' @ p"
| "load_message (NotAFile p) = ''Path is not a file: '' @ p"
| "load_message (ReadFailed p) = ''Failed to read: '' @ p"

definition ingestDirectory ::
  "IngestWorld \<Rightarrow> EmbeddingService \<Rightarrow> ChunkingService \<Rightarrow> (nat \<Rightarrow> int \<times> string) \<Rightarrow> fs_node option \<Rightarrow> string
     \<Rightarrow> IngestionOptions \<Rightarrow> progress_callback option \<Rightarrow> VectorStore \<Rightarrow> IngestionProgress" where
  "ingestDirectory w es cs clock node dirPath opts onProgress vs =
     (case loadDirectory clock \<lparr>lo_recursive = None, lo_extensions = None, lo_exclude = None\<rparr> node dirPath of
        Inl e \<Rightarrow> (new_progress 0)\<lparr>pr_errors := [(''directory_load'', load_message e)]\<rparr>
      | Inr documents \<Rightarrow>
          if documents = [] then new_progress 0
          else ig_progress (ingestDocuments w es cs documents (Some (new_progress (length documents))) opts onProgress vs))"

text \<open>\<open>ingestSchema\<close>: \<open>schema\<close> is the introspected schema as indented JSON text, or the client's error.\<close>

definition ingestSchema ::
  "IngestWorld \<Rightarrow> EmbeddingService \<Rightarrow> ChunkingService \<Rightarrow> string + string \<Rightarrow> string \<Rightarrow> VectorStore \<Rightarrow> IngestionProgress" where
  "ingestSchema w es cs schema stamp vs =
     (case schema of
        Inl msg \<Rightarrow> (new_progress 1)\<lparr>pr_errors := [(''graphql_schema'', msg)]\<rparr>
      | Inr schemaContent \<Rightarrow>
          ig_progress (ingestDocuments w es cs [loadSchema stamp schemaContent (Some ''graphql_schema'')]
            (Some (new_progress 1)) \<lparr>io_maxChunkTokens = None, io_chunkOverlapTokens = None, io_batchSize = None\<rparr> None vs))"

definition ingestion_checkAvailability :: "EmbeddingService \<Rightarrow> bool \<Rightarrow> bool \<times> bool \<times> string" where
  "ingestion_checkAvailability es introspected =
     (let missing = (if isAvailable es then [] else [''Embedding Service (Hugging Face - optional API key for better rate limits)''])
            @ (if introspected then [] else [''Vector Store (needs ResilientDB connection)''])
      in (isAvailable es, introspected,
          if missing \<noteq> [] then ''Missing: '' @ join '', '' missing else ''All services available''))"

definition count_key :: "string \<Rightarrow> (string \<times> nat) list \<Rightarrow> (string \<times> nat) list" where
  "count_key k m = AList.update k ((case map_of m k of None \<Rightarrow> 0 | Some n \<Rightarrow> n) + 1) m"

definition or_unknown :: "string \<Rightarrow> string" where
  "or_unknown s = (if s = [] then ''unknown'' else s)"

definition getStats ::
  "StoreWorld \<Rightarrow> VectorStore \<Rightarrow> nat \<times> (string \<times> nat) list \<times> (string \<times> nat) list" where
  "getStats w vs =
     (case fst (getAllChunks w 1000 vs) of
        Inl _ \<Rightarrow> (0, [], [])
      | Inr allChunks \<Rightarrow>
          (length allChunks,
           fold (\<lambda>c. count_key (or_unknown (sm_type (st_metadata c)))) allChunks [],
           fold (\<lambda>c. count_key (or_unknown (st_source c))) allChunks []))"



section \<open>Accounting\<close>

text \<open>
  What becomes of a chunk: stored with its vector, refused by the store, skipped because its vector
  is empty, or failed with its batch.
\<close>

datatype chunk_outcome = Stored vector | Refused vector string | Skipped | BatchFailed string

fun outcome_for :: "vector \<Rightarrow> chunk_outcome \<Rightarrow> bool" where
  "outcome_for v (Stored v') \<longleftrightarrow> v' = v \<and> v \<noteq> []"
| "outcome_for v (Refused v' m) \<longleftrightarrow> v' = v \<and> v \<noteq> []"
| "outcome_for v Skipped \<longleftrightarrow> v = []"
| "outcome_for v (BatchFailed m) \<longleftrightarrow> False"

text \<open>The store request of a chunk and its answer, the recorded error, and the chunks that are asked for and stored.\<close>

fun request_for :: "DocumentChunk \<times> chunk_outcome \<Rightarrow> ChunkInput \<times> (string + string) \<Rightarrow> bool" where
  "request_for (c, Stored v) (input, Inr i) \<longleftrightarrow> (\<exists>stamp. input = chunk_input stamp c v)"
| "request_for (c, Refused v m) (input, Inl m') \<longleftrightarrow> m' = m \<and> (\<exists>stamp. input = chunk_input stamp c v)"
| "request_for _ _ \<longleftrightarrow> False"

fun error_of :: "DocumentChunk \<times> chunk_outcome \<Rightarrow> (string \<times> string) option" where
  "error_of (c, Refused v m) = Some (cm_documentId (dc_metadata c), m)"
| "error_of (c, BatchFailed m) = Some (cm_documentId (dc_metadata c), m)"
| "error_of (c, _) = None"

fun is_stored :: "DocumentChunk \<times> chunk_outcome \<Rightarrow> bool" where
  "is_stored (c, Stored v) \<longleftrightarrow> True"
| "is_stored (c, _) \<longleftrightarrow> False"

fun is_asked :: "DocumentChunk \<times> chunk_outcome \<Rightarrow> bool" where
  "is_asked (c, Stored v) \<longleftrightarrow> True"
| "is_asked (c, Refused v m) \<longleftrightarrow> True"
| "is_asked (c, _) \<longleftrightarrow> False"

text \<open>
  A stretch of the run over some chunks: what it adds to the progress record and to the requests to
  the store, given the outcomes.
\<close>

definition adds :: "(DocumentChunk \<times> chunk_outcome) list \<Rightarrow> IngestState \<Rightarrow> IngestState \<Rightarrow> bool" where
  "adds outs st st' \<longleftrightarrow>
     (\<exists>rs. ig_stores st' = ig_stores st @ rs \<and> list_all2 request_for (filter is_asked outs) rs)
     \<and> pr_errors (ig_progress st') = pr_errors (ig_progress st) @ List.map_filter error_of outs
     \<and> pr_storedChunks (ig_progress st') = pr_storedChunks (ig_progress st) + length (filter is_stored outs)
     \<and> pr_embeddedChunks (ig_progress st') = pr_embeddedChunks (ig_progress st) + length (filter is_stored outs)
     \<and> pr_processedChunks (ig_progress st') = pr_processedChunks (ig_progress st) + length outs
     \<and> pr_totalChunks (ig_progress st') = pr_totalChunks (ig_progress st)"

lemma map_filter_append [simp]: "List.map_filter f (xs @ ys) = List.map_filter f xs @ List.map_filter f ys"
  by (simp add: List.map_filter_def)

lemma adds_nil: "adds [] st st"
  by (simp add: adds_def map_filter_simps)

lemma adds_append: "adds xs st st1 \<Longrightarrow> adds ys st1 st2 \<Longrightarrow> adds (xs @ ys) st st2"
  unfolding adds_def by (auto intro!: list_all2_appendI)

lemmas progress_defs = count_processed_def count_stored_def add_error_def

text \<open>A callback that never throws.\<close>

definition quiet :: "progress_callback option \<Rightarrow> bool" where
  "quiet onProgress \<longleftrightarrow> (case onProgress of None \<Rightarrow> True | Some f \<Rightarrow> (\<forall>n p. f n p = None))"

lemma ingest_chunk_adds:
  assumes "quiet onProgress"
  shows "\<exists>out st'. ingest_chunk w onProgress (c, v) st = (None, st') \<and> outcome_for v out \<and> adds [(c, out)] st st' \<and> ig_embeds st' = ig_embeds st"
proof -
  define st1 where "st1 = store_one w c v st"
  define st' where "st' = snd (ingest_chunk w onProgress (c, v) st)"
  have i: "ingest_chunk w onProgress (c, v) st = (None, st')"
    using assms unfolding st'_def by (auto simp: ingest_chunk_def quiet_def Let_def split: option.splits)
  have p: "ig_progress st' = count_processed (ig_progress st1)" "ig_stores st' = ig_stores st1" "ig_embeds st' = ig_embeds st1"
    unfolding st'_def st1_def by (auto simp: ingest_chunk_def Let_def split: option.splits)
  show ?thesis
  proof (cases "v = []")
    case True
    then have "st1 = st" by (simp add: st1_def store_one_def)
    then have "adds [(c, Skipped)] st st'" using p by (simp add: adds_def count_processed_def map_filter_simps)
    with True i p \<open>st1 = st\<close> show ?thesis by (intro exI [of _ Skipped] exI [of _ st']) simp
  next
    case False
    define n where "n = length (ig_stores st)"
    define input where "input = chunk_input (iw_stamp w n) c v"
    obtain r vs where r: "storeChunk (iw_url w) (iw_introspect w n) (iw_post w n) (iw_now w n) (iw_stamp w n) (iw_rand w n) input (ig_store st) = (r, vs)"
      by (cases "storeChunk (iw_url w) (iw_introspect w n) (iw_post w n) (iw_now w n) (iw_stamp w n) (iw_rand w n) input (ig_store st)")
    have s: "ig_stores st1 = ig_stores st @ [(input, r)]" "ig_embeds st1 = ig_embeds st"
      "ig_progress st1 = (case r of Inr _ \<Rightarrow> count_stored (ig_progress st) | Inl msg \<Rightarrow> add_error c msg (ig_progress st))"
      using False r by (simp_all add: st1_def store_one_def n_def [symmetric] input_def [symmetric] Let_def)
    let ?out = "case r of Inr _ \<Rightarrow> Stored v | Inl m \<Rightarrow> Refused v m"
    have "adds [(c, ?out)] st st'" using p s by (cases r) (auto simp: adds_def progress_defs map_filter_simps input_def)
    moreover have "outcome_for v ?out" using False by (cases r) simp_all
    moreover have "ig_embeds st' = ig_embeds st" using p(3) s(2) by simp
    ultimately show ?thesis using i by (intro exI [of _ ?out] exI [of _ st']) blast
  qed
qed

lemma store_batch_adds:
  assumes "quiet onProgress" "length vs = length batch"
  shows "\<exists>outs st'. store_batch w onProgress (zip batch vs) st = (None, st') \<and> list_all2 outcome_for vs outs \<and> adds (zip batch outs) st st'
    \<and> ig_embeds st' = ig_embeds st"
  using assms(2)
proof (induction vs batch arbitrary: st rule: list_induct2)
  case Nil
  then show ?case by (simp add: adds_nil)
next
  case (Cons v vs c batch)
  obtain out st1 where c: "ingest_chunk w onProgress (c, v) st = (None, st1)" "outcome_for v out" "adds [(c, out)] st st1" "ig_embeds st1 = ig_embeds st"
    using ingest_chunk_adds [OF assms(1)] by blast
  obtain outs st' where "store_batch w onProgress (zip batch vs) st1 = (None, st')" "list_all2 outcome_for vs outs" "adds (zip batch outs) st1 st'"
    "ig_embeds st' = ig_embeds st1"
    using Cons.IH by blast
  then show ?case using c adds_append [OF c(3)]
    by (intro exI [of _ "out # outs"] exI [of _ st']) simp
qed

lemma fail_batch_adds: "adds (map (\<lambda>c. (c, BatchFailed m)) batch) st (fail_batch batch m st) \<and> ig_embeds (fail_batch batch m st) = ig_embeds st"
proof -
  let ?f = "\<lambda>chunk p. count_processed (add_error chunk m p)"
  have "pr_processedChunks (fold ?f batch p) = pr_processedChunks p + length batch
      \<and> pr_errors (fold ?f batch p) = pr_errors p @ List.map_filter error_of (map (\<lambda>c. (c, BatchFailed m)) batch)
      \<and> pr_storedChunks (fold ?f batch p) = pr_storedChunks p
      \<and> pr_embeddedChunks (fold ?f batch p) = pr_embeddedChunks p
      \<and> pr_totalChunks (fold ?f batch p) = pr_totalChunks p" for p
    by (induction batch arbitrary: p) (auto simp: progress_defs map_filter_simps)
  then show ?thesis by (simp add: adds_def fail_batch_def filter_empty_conv)
qed

text \<open>
  A batch: the requests for its embeddings with their answers, and its chunks with their outcomes.
  One request is made, or two when the first answer is an error that counts as a rate limit. The
  last answer decides: every chunk fails with its message, or each chunk has the outcome of its vector.
\<close>

type_synonym batch_run = "(string list \<times> (batch_error + vector list)) list \<times> (DocumentChunk \<times> chunk_outcome) list"

fun rate_limited :: "batch_error + vector list \<Rightarrow> bool" where
  "rate_limited (Inl e) \<longleftrightarrow> isRateLimit (batch_message e)"
| "rate_limited (Inr vs) \<longleftrightarrow> False"

fun answer_decides :: "batch_error + vector list \<Rightarrow> chunk_outcome list \<Rightarrow> bool" where
  "answer_decides (Inl e) outs \<longleftrightarrow> list_all (\<lambda>out. out = BatchFailed (batch_message e)) outs"
| "answer_decides (Inr vs) outs \<longleftrightarrow> list_all2 outcome_for vs outs"

definition batch_ok :: "nat \<Rightarrow> batch_run \<Rightarrow> bool" where
  "batch_ok b run \<longleftrightarrow> (case run of (asked, outs) \<Rightarrow>
     outs \<noteq> [] \<and> length outs \<le> b
     \<and> list_all (\<lambda>(texts, answer). texts = map (dc_chunkText \<circ> fst) outs) asked
     \<and> (case map snd asked of
          [r] \<Rightarrow> \<not> rate_limited r \<and> answer_decides r (map snd outs)
        | [r1, r2] \<Rightarrow> rate_limited r1 \<and> answer_decides r2 (map snd outs)
        | _ \<Rightarrow> False))"

definition run_outcomes :: "batch_run list \<Rightarrow> (DocumentChunk \<times> chunk_outcome) list" where
  "run_outcomes runs = concat (map snd runs)"

definition accounts :: "batch_run list \<Rightarrow> IngestState \<Rightarrow> IngestState \<Rightarrow> bool" where
  "accounts runs st st' \<longleftrightarrow> adds (run_outcomes runs) st st' \<and> ig_embeds st' = ig_embeds st @ concat (map fst runs)"

lemma accounts_append: "accounts xs st st1 \<Longrightarrow> accounts ys st1 st2 \<Longrightarrow> accounts (xs @ ys) st st2"
  by (auto simp: accounts_def run_outcomes_def intro: adds_append)

text \<open>One attempt: it fails with the message of the answer and has only asked, or the batch is done.\<close>

lemma attempt_cases:
  assumes "quiet onProgress"
  obtains e st1 where "attempt_batch w es onProgress bsize batch st = (Some (batch_message e), st1)" "adds [] st st1"
      "ig_embeds st1 = ig_embeds st @ [(map dc_chunkText batch, Inl e)]"
  | vs outs st1 where "attempt_batch w es onProgress bsize batch st = (None, st1)" "adds (zip batch outs) st st1" "list_all2 outcome_for vs outs"
      "length vs = length batch" "ig_embeds st1 = ig_embeds st @ [(map dc_chunkText batch, Inr vs)]"
proof -
  obtain answer st0 where r: "request_embeddings w es bsize batch st = (answer, st0)" by (cases "request_embeddings w es bsize batch st")
  then have st0: "st0 = st\<lparr>ig_embeds := ig_embeds st @ [(map dc_chunkText batch, answer)]\<rparr>"
    by (auto simp: request_embeddings_def Let_def)
  show ?thesis
  proof (cases answer)
    case (Inl e)
    then show ?thesis using that(1) r st0 by (simp add: attempt_batch_def adds_def map_filter_simps)
  next
    case (Inr vs)
    have l: "length vs = length batch" using r Inr by (auto simp: request_embeddings_def Let_def dest: length_generateEmbeddings)
    obtain outs st' where "store_batch w onProgress (zip batch vs) st0 = (None, st')" "list_all2 outcome_for vs outs" "adds (zip batch outs) st0 st'"
      "ig_embeds st' = ig_embeds st0"
      using store_batch_adds [OF assms l] by blast
    moreover from this(3) have "adds (zip batch outs) st st'" by (simp add: st0 adds_def)
    ultimately show ?thesis using that(2) [of st' outs vs] r st0 Inr l by (simp add: attempt_batch_def)
  qed
qed

lemma batch_done:
  assumes "adds (zip batch outs) st0 st1" "list_all2 outcome_for vs outs" "length vs = length batch" "batch \<noteq> []" "length batch \<le> b"
    and "asked = [] \<or> asked = [(map dc_chunkText batch, Inl e)] \<and> isRateLimit (batch_message e)"
  shows "batch_ok b (asked @ [(map dc_chunkText batch, Inr vs)], zip batch outs) \<and> map fst (zip batch outs) = batch"
proof -
  have l: "length outs = length batch" using assms(2,3) list_all2_lengthD by metis
  then have "map (dc_chunkText \<circ> fst) (zip batch outs) = map dc_chunkText batch" by (metis map_fst_zip map_map)
  then show ?thesis using assms(2,4-) l by (auto simp: batch_ok_def)
qed

lemma batch_failed:
  assumes "batch \<noteq> []" "length batch \<le> b"
    and "asked = [] \<and> \<not> isRateLimit (batch_message e) \<or> asked = [(map dc_chunkText batch, Inl e')] \<and> isRateLimit (batch_message e')"
  shows "batch_ok b (asked @ [(map dc_chunkText batch, Inl e)], map (\<lambda>c. (c, BatchFailed (batch_message e))) batch)"
  using assms by (auto simp: batch_ok_def list_all_iff)

lemma ingest_batch_accounts:
  assumes q: "quiet onProgress" and b: "batch \<noteq> []" "length batch \<le> b"
  shows "\<exists>run. batch_ok b run \<and> map fst (snd run) = batch \<and> accounts [run] st (ingest_batch w es onProgress bsize batch st)"
proof (rule attempt_cases [OF q, of w es bsize batch st])
  fix vs outs st1
  assume 1: "attempt_batch w es onProgress bsize batch st = (None, st1)" "adds (zip batch outs) st st1" "list_all2 outcome_for vs outs"
    "length vs = length batch" "ig_embeds st1 = ig_embeds st @ [(map dc_chunkText batch, Inr vs)]"
  then show ?thesis using batch_done [OF 1(2-4) b, of "[]"]
    by (intro exI [of _ "([(map dc_chunkText batch, Inr vs)], zip batch outs)"]) (simp add: ingest_batch_def accounts_def run_outcomes_def)
next
  fix e st1
  assume 1: "attempt_batch w es onProgress bsize batch st = (Some (batch_message e), st1)" "adds [] st st1"
    "ig_embeds st1 = ig_embeds st @ [(map dc_chunkText batch, Inl e)]"
  have failed: "accounts [(asked @ [(map dc_chunkText batch, Inl e')], map (\<lambda>c. (c, BatchFailed (batch_message e'))) batch)] st (fail_batch batch (batch_message e') st2)"
    if "adds [] st st2" "ig_embeds st2 = ig_embeds st @ asked @ [(map dc_chunkText batch, Inl e')]" for asked e' st2
    using that adds_append [OF that(1)] fail_batch_adds [of "batch_message e'" batch st2] by (simp add: accounts_def run_outcomes_def)
  show ?thesis
  proof (cases "isRateLimit (batch_message e)")
    case False
    then show ?thesis using 1 failed [of st1 "[]" e] batch_failed [OF b, of "[]" e]
      by (intro exI [of _ "([(map dc_chunkText batch, Inl e)], map (\<lambda>c. (c, BatchFailed (batch_message e))) batch)"]) (simp add: ingest_batch_def comp_def)
  next
    case rate: True
    let ?asked = "[(map dc_chunkText batch, Inl e)]"
    show ?thesis
    proof (rule attempt_cases [OF q, of w es bsize batch st1])
      fix vs outs st2
      assume 2: "attempt_batch w es onProgress bsize batch st1 = (None, st2)" "adds (zip batch outs) st1 st2" "list_all2 outcome_for vs outs"
        "length vs = length batch" "ig_embeds st2 = ig_embeds st1 @ [(map dc_chunkText batch, Inr vs)]"
      then show ?thesis using 1 rate batch_done [OF 2(2-4) b, of ?asked e] adds_append [OF 1(2) 2(2)]
        by (intro exI [of _ "(?asked @ [(map dc_chunkText batch, Inr vs)], zip batch outs)"]) (simp add: ingest_batch_def accounts_def run_outcomes_def)
    next
      fix e2 st2
      assume 2: "attempt_batch w es onProgress bsize batch st1 = (Some (batch_message e2), st2)" "adds [] st1 st2"
        "ig_embeds st2 = ig_embeds st1 @ [(map dc_chunkText batch, Inl e2)]"
      then show ?thesis using 1 rate failed [of st2 ?asked e2] batch_failed [OF b, of ?asked e2 e] adds_append [OF 1(2) 2(2)]
        by (intro exI [of _ "(?asked @ [(map dc_chunkText batch, Inl e2)], map (\<lambda>c. (c, BatchFailed (batch_message e2))) batch)"])
           (simp add: ingest_batch_def comp_def)
    qed
  qed
qed

lemma ceil_div_step: "0 < b \<Longrightarrow> 0 < n \<Longrightarrow> Suc ((n - b + b - 1) div b) \<le> (n + b - 1) div (b::nat)"
proof (cases "n \<le> b")
  case False
  assume "0 < b"
  have "n + b - 1 = (n - b + b - 1) + b" using False by simp
  then show ?thesis using \<open>0 < b\<close> by (metis Suc_eq_plus1 div_add_self2 le_refl less_numeral_extra(3))
qed (simp add: div_greater_zero_iff Suc_le_eq)

lemma ingest_loop_accounts:
  assumes "0 < bsize" "quiet onProgress"
  shows "\<exists>runs. list_all (batch_ok bsize) runs \<and> map fst (run_outcomes runs) = chunks \<and> length runs \<le> (length chunks + bsize - 1) div bsize
    \<and> accounts runs st (ingest_loop w es onProgress bsize chunks st)"
proof (induction chunks arbitrary: st rule: measure_induct_rule [of length])
  case (less chunks)
  show ?case
  proof (cases "chunks = []")
    case True
    then show ?thesis by (intro exI [of _ "[]"]) (simp add: ingest_loop.simps accounts_def run_outcomes_def adds_nil)
  next
    case False
    let ?st = "ingest_batch w es onProgress bsize (take bsize chunks) st" and ?rest = "drop bsize chunks"
    have l: "ingest_loop w es onProgress bsize chunks st = ingest_loop w es onProgress bsize ?rest ?st"
      using False assms(1) by (subst ingest_loop.simps) simp
    have "take bsize chunks \<noteq> []" "length (take bsize chunks) \<le> bsize" using False assms(1) by auto
    then obtain run where run: "batch_ok bsize run" "map fst (snd run) = take bsize chunks" "accounts [run] st ?st"
      using ingest_batch_accounts [OF assms(2), of "take bsize chunks" bsize st w es bsize] by blast
    obtain runs where runs: "list_all (batch_ok bsize) runs" "map fst (run_outcomes runs) = ?rest" "length runs \<le> (length ?rest + bsize - 1) div bsize"
      "accounts runs ?st (ingest_loop w es onProgress bsize ?rest ?st)"
      using less [of ?rest ?st] False assms(1) by auto
    have "map fst (run_outcomes (run # runs)) = take bsize chunks @ ?rest"
      using run(2) runs(2) by (simp add: run_outcomes_def)
    moreover have "length (run # runs) \<le> (length chunks + bsize - 1) div bsize"
      using runs(3) ceil_div_step [OF assms(1), of "length chunks"] False by simp
    ultimately show ?thesis using run(1) runs(1) accounts_append [OF run(3) runs(4)] l
      by (intro exI [of _ "run # runs"]) simp
  qed
qed

lemma embeddingBatchSize_pos: "0 < embeddingBatchSize opts" "embeddingBatchSize opts \<le> 10"
  by (auto simp: embeddingBatchSize_def split: option.splits)

lemma single_batch:
  "chunks \<noteq> [] \<Longrightarrow> length chunks \<le> bsize \<Longrightarrow>
     ingest_loop w es onProgress bsize chunks st = ingest_batch w es onProgress bsize chunks st"
  by (subst ingest_loop.simps) (auto simp: ingest_loop.simps)

text \<open>Chunks whose vector is empty are only counted.\<close>

lemma store_batch_empty:
  assumes "quiet onProgress" "list_all (\<lambda>v. v = []) vs" "length vs = length batch"
  shows "\<exists>st'. store_batch w onProgress (zip batch vs) st = (None, st')
    \<and> ig_progress st' = (ig_progress st)\<lparr>pr_processedChunks := pr_processedChunks (ig_progress st) + length batch\<rparr>"
  using assms(2,3)
proof (induction batch arbitrary: vs st)
  case (Cons c batch)
  then obtain vs' where vs: "vs = [] # vs'" "list_all (\<lambda>v. v = []) vs'" "length vs' = length batch"
    by (cases vs) auto
  obtain st1 where st1: "ingest_chunk w onProgress (c, []) st = (None, st1)"
      "ig_progress st1 = (ig_progress st)\<lparr>pr_processedChunks := pr_processedChunks (ig_progress st) + 1\<rparr>"
    using assms(1) by (cases onProgress) (simp_all add: ingest_chunk_def store_one_def Let_def count_processed_def quiet_def)
  with Cons.IH [OF vs(2,3), of st1] show ?case by (auto simp: vs(1))
qed simp

lemma count_key_sum:
  assumes "distinct (map fst m)"
  shows "sum_list (map snd (count_key k m)) = sum_list (map snd m) + 1 \<and> distinct (map fst (count_key k m))"
proof -
  have upd: "sum_list (map snd (AList.update k v m)) + (case map_of m k of None \<Rightarrow> 0 | Some n \<Rightarrow> n) = sum_list (map snd m) + v"
    for v :: nat
    using assms
  proof (induction m)
    case (Cons p m)
    show ?case
    proof (cases "fst p = k")
      case False
      with Cons show ?thesis by (cases p) auto
    qed (cases p, simp)
  qed simp
  from upd [of "(case map_of m k of None \<Rightarrow> 0 | Some n \<Rightarrow> n) + 1"] distinct_update [OF assms]
  show ?thesis by (simp add: count_key_def)
qed

lemma count_keys_sum: "sum_list (map snd (fold (\<lambda>c. count_key (f c)) cs [])) = length cs"
proof -
  have "distinct (map fst m) \<Longrightarrow> sum_list (map snd (fold (\<lambda>c. count_key (f c)) cs m)) = sum_list (map snd m) + length cs" for m
  proof (induction cs arbitrary: m)
    case (Cons c cs)
    then show ?case using count_key_sum [OF Cons.prems, of "f c"] Cons.IH [of "count_key (f c) m"] by simp
  qed simp
  from this [of "[]"] show ?thesis by simp
qed


section \<open>Properties\<close>

text \<open>
  C11. An ingestion accounts for every chunk, whatever the services answer, when the callback does not
  throw. The chunks of the documents, in order, fall into batches. For each batch the embeddings
  are asked for once, or twice when the first answer is an error that counts as a rate limit, and the last
  answer decides its chunks: all fail with its message, or each one is offered to the store with
  its vector, or is skipped when the vector is empty. The requests to the store are exactly those
  of the chunks offered, in order. At the end every chunk is counted as processed, the
  chunks counted as stored and as embedded are those the store accepted, and the errors are exactly the messages of the
  refused and failed chunks with their documents, in order.
\<close>

theorem ingest_accounts:
  assumes "quiet onProgress" "st = ingestDocuments w es cs documents None opts onProgress vs" "p = ig_progress st"
  shows "\<exists>runs. list_all (batch_ok (embeddingBatchSize opts)) runs
    \<and> map fst (run_outcomes runs) = chunkDocuments cs documents
    \<and> length runs \<le> (length (chunkDocuments cs documents) + embeddingBatchSize opts - 1) div embeddingBatchSize opts
    \<and> ig_embeds st = concat (map fst runs)
    \<and> list_all2 request_for (filter is_asked (run_outcomes runs)) (ig_stores st)
    \<and> pr_totalChunks p = length (chunkDocuments cs documents) \<and> pr_processedChunks p = length (chunkDocuments cs documents)
    \<and> pr_storedChunks p = length (filter is_stored (run_outcomes runs)) \<and> pr_embeddedChunks p = pr_storedChunks p
    \<and> pr_errors p = List.map_filter error_of (run_outcomes runs)"
proof -
  let ?chunks = "chunkDocuments cs documents" and ?b = "embeddingBatchSize opts"
  let ?st = "\<lparr>ig_progress = (new_progress (length documents))\<lparr>pr_totalChunks := length ?chunks\<rparr>, ig_reports = [],
    ig_store = vs, ig_embeds = [], ig_stores = []\<rparr>"
  obtain runs where runs: "list_all (batch_ok ?b) runs" "map fst (run_outcomes runs) = ?chunks" "length runs \<le> (length ?chunks + ?b - 1) div ?b"
      "accounts runs ?st (ingest_loop w es onProgress ?b ?chunks ?st)"
    using ingest_loop_accounts [OF embeddingBatchSize_pos(1) assms(1)] by blast
  have st: "st = (ingest_loop w es onProgress ?b ?chunks ?st)\<lparr>ig_progress := p\<rparr>"
    and p: "\<exists>d. p = (ig_progress (ingest_loop w es onProgress ?b ?chunks ?st))\<lparr>pr_processedDocuments := d\<rparr>"
    unfolding assms(2,3) by (auto simp: ingestDocuments_def Let_def ingest_loop.simps [of _ _ _ _ "[]"] new_progress_def)
  have n: "length (run_outcomes runs) = length ?chunks" using runs(2) by (metis length_map)
  show ?thesis using runs p n
    by (intro exI [of _ runs]) (subst (1 2) st, auto simp: accounts_def adds_def new_progress_def)
qed

text \<open>
  Failing embeddings can go unnoticed: with the local provider, when the model fails for every
  text and the documents give between two chunks and one batch, the run ends with nothing stored,
  every chunk counted as processed and no error recorded.
\<close>

theorem ingest_silent_failure:
  assumes "quiet onProgress" "es_provider es = Local" "\<And>k t. iw_local w k t = LThrows m"
    and "2 \<le> length (chunkDocuments cs documents)" "length (chunkDocuments cs documents) \<le> embeddingBatchSize opts"
  shows "let p = ig_progress (ingestDocuments w es cs documents None opts onProgress vs)
    in pr_storedChunks p = 0 \<and> pr_errors p = [] \<and> pr_processedChunks p = length (chunkDocuments cs documents)"
proof -
  let ?chunks = "chunkDocuments cs documents" and ?b = "embeddingBatchSize opts"
  have ne: "?chunks \<noteq> []" using assms(4) by auto
  have nb: "\<forall>t \<in> set (map dc_chunkText ?chunks). trim t \<noteq> []"
    using ck.nonblank_all [of _ cs documents] unfolding chunkDocuments_def by auto
  have "length (filter (local_fails (iw_local w k)) (map trim (map dc_chunkText ?chunks))) = length ?chunks" for k
    by (simp add: local_fails_def generateEmbeddingLocal_def assms(3) filter_True)
  then have g: "generateEmbeddings es (iw_local w k) sdk direct (map dc_chunkText ?chunks) ?b = Inr (map (\<lambda>_. []) ?chunks)" for k sdk direct
    using local_failures [OF assms(2) _ nb, of ?b "iw_local w k" sdk direct] ne assms(4,5)
    by (simp add: local_vector_def generateEmbeddingLocal_def assms(3) comp_def)
  have b: "ig_progress (ingest_batch w es onProgress ?b ?chunks st)
      = (ig_progress st)\<lparr>pr_processedChunks := pr_processedChunks (ig_progress st) + length ?chunks\<rparr>" for st
  proof -
    let ?st = "st\<lparr>ig_embeds := ig_embeds st @ [(map dc_chunkText ?chunks, Inr (map (\<lambda>_. []) ?chunks))]\<rparr>"
    obtain st' where "store_batch w onProgress (zip ?chunks (map (\<lambda>_. []) ?chunks)) ?st = (None, st')"
        "ig_progress st' = (ig_progress ?st)\<lparr>pr_processedChunks := pr_processedChunks (ig_progress ?st) + length ?chunks\<rparr>"
      using store_batch_empty [OF assms(1), of "map (\<lambda>_. []) ?chunks" ?chunks w ?st] by (auto simp: list_all_iff)
    then show ?thesis by (simp add: ingest_batch_def attempt_batch_def request_embeddings_def Let_def g)
  qed
  show ?thesis
    using ne assms(5) by (simp add: ingestDocuments_def Let_def single_batch b new_progress_def)
qed

text \<open>A world in which no service answers.\<close>

definition offline_world :: IngestWorld where
  "offline_world =
     \<lparr>iw_url = ''http://h:5001/graphql'', iw_local = (\<lambda>_ _. LThrows ''no model''),
      iw_sdk = (\<lambda>_ _ _. SdkThrows ''no permissions''), iw_direct = (\<lambda>_ _ _. HttpStatus 429 ''Too Many Requests''),
      iw_introspect = (\<lambda>_. None), iw_post = (\<lambda>_ _ _ _. StoreFails ''down''), iw_now = (\<lambda>_. 0),
      iw_stamp = (\<lambda>_. ''t''), iw_rand = (\<lambda>_. ''r'')\<rparr>"

definition default_options :: IngestionOptions where
  "default_options = \<lparr>io_maxChunkTokens = None, io_chunkOverlapTokens = None, io_batchSize = None\<rparr>"

lemma sample_two_chunks: "length (chunkDocuments \<lparr>cs_maxChunkSize = 40, cs_chunkOverlap = 4\<rparr> [sample_doc DText ''one two three'']) = 2"
proof -
  let ?cs = "\<lparr>cs_maxChunkSize = 40, cs_chunkOverlap = 4\<rparr>" and ?d = "sample_doc DText ''one two three''"
  have "trim (drop 9 ''one two three'') = ''hree''" by code_simp
  then have "length (map dc_chunkText (chunkBySize ?cs ?d)) = 2"
    by (subst short_document) (simp_all add: sample_doc_def)
  then show ?thesis by (simp add: chunkDocuments_def chunkDocument_def) (simp add: sample_doc_def)
qed

theorem ingest_accounts_witness:
  "\<exists>runs. map fst (run_outcomes runs) = chunkDocuments \<lparr>cs_maxChunkSize = 40, cs_chunkOverlap = 4\<rparr> [sample_doc DText ''one two three'']
     \<and> list_all (batch_ok 10) runs
     \<and> pr_errors (ig_progress (ingestDocuments offline_world (new_EmbeddingService HuggingFace) \<lparr>cs_maxChunkSize = 40, cs_chunkOverlap = 4\<rparr>
          [sample_doc DText ''one two three''] None default_options None new_VectorStore)) = List.map_filter error_of (run_outcomes runs)
     \<and> length (run_outcomes runs) = 2"
proof -
  have b: "embeddingBatchSize default_options = 10" by (simp add: embeddingBatchSize_def default_options_def)
  have "quiet None" by (simp add: quiet_def)
  from ingest_accounts [OF this refl refl, of default_options "\<lparr>cs_maxChunkSize = 40, cs_chunkOverlap = 4\<rparr>" "[sample_doc DText ''one two three'']"
      offline_world "new_EmbeddingService HuggingFace" new_VectorStore]
  show ?thesis using sample_two_chunks unfolding b by (metis length_map)
qed

theorem ingest_silent_failure_witness:
  "pr_errors (ig_progress (ingestDocuments offline_world (new_EmbeddingService Local) \<lparr>cs_maxChunkSize = 40, cs_chunkOverlap = 4\<rparr>
     [sample_doc DText ''one two three''] None default_options None new_VectorStore)) = []"
proof -
  have "embeddingBatchSize default_options = 10" by (simp add: embeddingBatchSize_def default_options_def)
  then show ?thesis
    using ingest_silent_failure [of None "new_EmbeddingService Local" offline_world "''no model''"
        "\<lparr>cs_maxChunkSize = 40, cs_chunkOverlap = 4\<rparr>" "[sample_doc DText ''one two three'']" default_options new_VectorStore]
    by (simp add: quiet_def sample_two_chunks Let_def new_EmbeddingService_def offline_world_def)
qed

text \<open>
  A callback that throws is taken for a failure of the batch: here the one chunk of the batch is stored
  and counted, then counted again and recorded as an error with the message of the callback.
\<close>

lemma throwing_callback_counts_twice:
  assumes "request_embeddings w es bsize [c] st = (Inr [v], st1)" "v \<noteq> []" "\<And>n u i a. iw_post w n u i a = StoreOk None" "\<not> isRateLimit m"
  shows "let p = ig_progress st; p' = ig_progress (ingest_batch w es (Some (\<lambda>_ _. Some m)) bsize [c] st)
    in pr_storedChunks p' = pr_storedChunks p + 1 \<and> pr_processedChunks p' = pr_processedChunks p + 2
      \<and> pr_errors p' = pr_errors p @ [(cm_documentId (dc_metadata c), m)]"
proof -
  have "ig_progress st1 = ig_progress st" using assms(1) by (auto simp: request_embeddings_def Let_def)
  then show ?thesis using assms(2-)
    by (simp add: ingest_batch_def attempt_batch_def assms(1) ingest_chunk_def store_one_def storeChunk_def Let_def fail_batch_def progress_defs)
qed

text \<open>
  A rate limit reported by the inference endpoint is not retried: its message, which begins
  with \<open>Rate limit exceeded\<close> and drops the status code, does not pass the test for rate limits,
  so a batch that meets it is recorded as failed after a single request.
\<close>

theorem endpoint_rate_limit_not_retried:
  assumes "es_provider es = HuggingFace" "\<And>k j b. iw_sdk w k j b = SdkThrows ''no permissions''"
    and "\<And>k j b. iw_direct w k j b = HttpStatus 429 ''Too Many Requests''"
    and "batch \<noteq> []" "length batch \<le> bsize" "\<forall>ch \<in> set batch. trim (dc_chunkText ch) \<noteq> []"
  shows "length (ig_embeds (ingest_batch w es onProgress bsize batch st)) = length (ig_embeds st) + 1
    \<and> pr_errors (ig_progress (ingest_batch w es onProgress bsize batch st))
      = pr_errors (ig_progress st) @ map (\<lambda>ch. (cm_documentId (dc_metadata ch),
          ''All batches failed: Batch 1: Rate limit exceeded: Too Many Requests'')) batch"
proof -
  let ?texts = "map dc_chunkText batch" and ?msg = "''All batches failed: Batch 1: Rate limit exceeded: Too Many Requests''"
  have "map fst (validTexts ?texts) = map trim ?texts"
    unfolding map_fst_validTexts using assms(6) by (auto simp: filter_id_conv)
  then have valid: "length (validTexts ?texts) = length batch" by (metis length_map)
  then have vne: "validTexts ?texts \<noteq> []" using assms(4) by auto
  have b: "batch_embeddings (SdkThrows ''no permissions'') (HttpStatus 429 ''Too Many Requests'') = Inl ''Rate limit exceeded: Too Many Requests''"
    by (simp add: batch_embeddings_def sdk_batch_def provider_error_def fetchEmbeddingDirect_def http_error_def)
  have s1: "show_nat (Suc 0) = ''1''" by code_simp
  have stop: "hf_loop sdk direct bsize k [] s = s" for sdk direct k s by (simp add: hf_loop.simps)
  have all: "drop bsize (validTexts ?texts) = []" "bsize \<noteq> 0" using valid assms(4,5) by (simp, metis le_zero_eq length_0_conv)
  have loop: "hf_loop (iw_sdk w k) (iw_direct w k) bsize 0 (validTexts ?texts) s = (fst s, snd s @ [''Batch 1: Rate limit exceeded: Too Many Requests''])" for k s
    unfolding hf_loop.simps [of "iw_sdk w k" "iw_direct w k" bsize 0 "validTexts ?texts" s]
    using vne all by (simp add: Let_def assms(2,3) b stop s1)
  have "(length (validTexts ?texts) + bsize - 1) div bsize = 1"
    using assms(4,5) by (intro ceil_div_le) (simp_all add: valid)
  then have g: "generateEmbeddings es (iw_local w k) (iw_sdk w k) (iw_direct w k) ?texts bsize
      = Inl (AllBatchesFailed [''Batch 1: Rate limit exceeded: Too Many Requests''])" for k
    using assms(1,4) vne all(2) by (simp add: generateEmbeddings_def Let_def loop)
  have r: "\<not> isRateLimit ?msg" by code_simp
  have f: "pr_errors (fold (\<lambda>chunk p. count_processed (add_error chunk m p)) cs p)
      = pr_errors p @ map (\<lambda>ch. (cm_documentId (dc_metadata ch), m)) cs" for cs m p
    by (induction cs arbitrary: p) (auto simp: progress_defs)
  show ?thesis
    using r by (simp add: ingest_batch_def attempt_batch_def request_embeddings_def Let_def g fail_batch_def f)
qed

theorem endpoint_rate_limit_not_retried_witness:
  "length (ig_embeds (ingest_batch offline_world (new_EmbeddingService HuggingFace) None 10
     [\<lparr>dc_id = ''c'', dc_chunkText = ''text'', dc_source = ''s'', dc_chunkIndex = 0, dc_metadata =
        \<lparr>cm_documentId = ''d'', cm_section = None, cm_type = CApi, cm_startChar = None, cm_endChar = None\<rparr>\<rparr>]
     \<lparr>ig_progress = new_progress 1, ig_reports = [], ig_store = new_VectorStore, ig_embeds = [], ig_stores = []\<rparr>)) = 1"
proof -
  have "trim ''text'' \<noteq> []" by code_simp
  then show ?thesis
    using endpoint_rate_limit_not_retried [of "new_EmbeddingService HuggingFace" offline_world
      "[\<lparr>dc_id = ''c'', dc_chunkText = ''text'', dc_source = ''s'', dc_chunkIndex = 0, dc_metadata =
        \<lparr>cm_documentId = ''d'', cm_section = None, cm_type = CApi, cm_startChar = None, cm_endChar = None\<rparr>\<rparr>]" 10 None
      "\<lparr>ig_progress = new_progress 1, ig_reports = [], ig_store = new_VectorStore, ig_embeds = [], ig_stores = []\<rparr>"]
    by (simp add: new_EmbeddingService_def offline_world_def)
qed

text \<open>
  The statistics add up: the counts per type and the counts per source both sum to the number
  of chunks read.
\<close>

theorem getStats_sums:
  "let (total, byType, bySource) = getStats w vs
   in sum_list (map snd byType) = total \<and> sum_list (map snd bySource) = total"
  by (simp add: getStats_def count_keys_sum split: sum.splits)

end
