(* ===== verification/Context_Formatter.thy ===== *)
theory Context_Formatter
  imports Vector_Store
begin

text \<open>
  Model of \<open>rag/context-formatter.ts\<close>: turning retrieved chunks into a context for a prompt under
  a budget of tokens, four characters each. Token counts that the code keeps as fractions are
  kept here in characters, exactly four times as large. The theory shows which chunks fit, how
  far separators and the truncation mark exceed the budget, and what the optimisation context
  keeps.
\<close>

datatype format_style = Compact | Detailed | Markdown

record FormatOptions =
  fo_maxTokens :: "nat option"
  fo_includeMetadata :: "bool option"
  fo_includeScores :: "bool option"
  fo_format :: "format_style option"
  fo_separator :: "string option"

definition default_separator :: string where
  "default_separator = nl @ nl @ ''---'' @ nl @ nl"

definition getSourceName :: "string \<Rightarrow> string" where
  "getSourceName source =
     (let name = last (split_char (CHR ''/'') source) in if name = [] then source else name)"

text \<open>\<open>x.toFixed(digits)\<close>: the nearest multiple, ties upwards in magnitude, with that many digits.\<close>

definition toFixed :: "nat \<Rightarrow> real \<Rightarrow> string" where
  "toFixed digits x =
     (let n = nat \<lfloor>\<bar>x\<bar> * 10 ^ digits + 1/2\<rfloor>;
          s = show_nat n;
          padded = replicate (digits + 1 - length s) (CHR ''0'') @ s;
          whole = take (length padded - digits) padded; frac = drop (length padded - digits) padded
      in (if x < 0 then ''-'' else []) @ whole @ (if digits = 0 then [] else ''.'' @ frac))"

definition truthy_section :: "StoredChunk \<Rightarrow> string option" where
  "truthy_section chunk = (case sm_section (st_metadata chunk) of None \<Rightarrow> None | Some x \<Rightarrow> if x = [] then None else Some x)"

definition formatChunk :: "StoredChunk \<Rightarrow> real option \<Rightarrow> bool \<Rightarrow> bool \<Rightarrow> format_style \<Rightarrow> string" where
  "formatChunk chunk score includeMetadata includeScores style =
     (let shown = (if includeScores then score else None)
      in if includeMetadata
         then (case style of
             Markdown \<Rightarrow>
               ''## '' @ getSourceName (st_source chunk) @ nl @ nl
               @ (case truthy_section chunk of None \<Rightarrow> [] | Some sec \<Rightarrow> ''**Section:** '' @ sec @ nl @ nl)
               @ (case shown of None \<Rightarrow> [] | Some s \<Rightarrow> ''**Relevance:** '' @ toFixed 1 (s * 100) @ ''%'' @ nl @ nl)
               @ st_chunkText chunk
           | Detailed \<Rightarrow>
               ''[Source: '' @ getSourceName (st_source chunk)
               @ (case truthy_section chunk of None \<Rightarrow> [] | Some sec \<Rightarrow> '' | Section: '' @ sec)
               @ (case shown of None \<Rightarrow> [] | Some s \<Rightarrow> '' | Relevance: '' @ toFixed 1 (s * 100) @ ''%'')
               @ '']'' @ nl @ nl @ st_chunkText chunk
           | Compact \<Rightarrow>
               (case shown of None \<Rightarrow> st_chunkText chunk
                | Some s \<Rightarrow> ''[Relevance: '' @ toFixed 0 (s * 100) @ ''%] '' @ st_chunkText chunk))
         else st_chunkText chunk)"

text \<open>The loop: chunks are added while four times the budget is not exceeded; the first that does not fit ends it.\<close>

fun fit :: "nat \<Rightarrow> nat \<Rightarrow> string list \<Rightarrow> string list" where
  "fit budget used [] = []"
| "fit budget used (x # xs) = (if used + length x > budget then [] else x # fit budget (used + length x) xs)"

text \<open>The score at the position of a chunk, if there are that many.\<close>

fun with_scores :: "StoredChunk list \<Rightarrow> real list \<Rightarrow> (StoredChunk \<times> real option) list" where
  "with_scores [] ss = []"
| "with_scores (c # cs) [] = (c, None) # with_scores cs []"
| "with_scores (c # cs) (s # ss) = (c, Some s) # with_scores cs ss"

definition formatted_chunks :: "StoredChunk list \<Rightarrow> real list option \<Rightarrow> FormatOptions \<Rightarrow> string list" where
  "formatted_chunks chunks scores opts =
     map (\<lambda>(c, s). formatChunk c s (or_default (fo_includeMetadata opts) True) (or_default (fo_includeScores opts) False)
            (or_default (fo_format opts) Detailed)) (with_scores chunks (or_default scores []))"

definition format_context :: "StoredChunk list \<Rightarrow> real list option \<Rightarrow> FormatOptions \<Rightarrow> string" where
  "format_context chunks scores opts =
     join (or_default (fo_separator opts) default_separator)
       (fit (4 * or_default (fo_maxTokens opts) 4000) 0 (formatted_chunks chunks scores opts))"

definition formatForExplanation :: "StoredChunk list \<Rightarrow> real list option \<Rightarrow> FormatOptions \<Rightarrow> string" where
  "formatForExplanation chunks scores opts =
     ''Relevant Documentation Context:'' @ nl @ nl
     @ format_context chunks scores
         (opts\<lparr>fo_format := Some Detailed, fo_includeMetadata := Some True, fo_includeScores := Some False\<rparr>)"

definition prioritizedChunks :: "StoredChunk list \<Rightarrow> StoredChunk list" where
  "prioritizedChunks chunks =
     filter (\<lambda>c. sm_type (st_metadata c) = ''schema'') chunks
     @ filter (\<lambda>c. sm_type (st_metadata c) = ''example'') chunks
     @ filter (\<lambda>c. sm_type (st_metadata c) = ''documentation'' \<or> sm_type (st_metadata c) = ''api'') chunks"

definition formatForOptimization :: "StoredChunk list \<Rightarrow> real list option \<Rightarrow> FormatOptions \<Rightarrow> string" where
  "formatForOptimization chunks scores opts =
     (let n = (case fo_maxTokens opts of None \<Rightarrow> 10 | Some m \<Rightarrow> if m = 0 then 10 else m div 2)
      in ''Optimization References:'' @ nl @ nl
         @ format_context (take n (prioritizedChunks chunks)) scores
             (opts\<lparr>fo_format := Some Compact, fo_includeMetadata := Some False\<rparr>))"

text \<open>The shares of 60 and 40 percent, rounded down.\<close>

definition formatCombined :: "StoredChunk list \<Rightarrow> StoredChunk list \<Rightarrow> FormatOptions \<Rightarrow> string" where
  "formatCombined docChunks schemaChunks opts =
     (let maxTokens = or_default (fo_maxTokens opts) 4000; style = or_default (fo_format opts) Detailed;
          docTokens = maxTokens * 6 div 10; schemaTokens = maxTokens * 4 div 10
      in ''Documentation:'' @ nl @ nl
         @ format_context docChunks None (opts\<lparr>fo_maxTokens := Some docTokens, fo_format := Some style\<rparr>)
         @ nl @ nl @ replicate 50 (CHR ''='') @ nl @ nl @ ''Schema Information:'' @ nl @ nl
         @ format_context schemaChunks None (opts\<lparr>fo_maxTokens := Some schemaTokens, fo_format := Some style\<rparr>))"

definition estimateTokens :: "string \<Rightarrow> nat" where
  "estimateTokens txt = (length txt + 3) div 4"

definition truncateToTokens :: "string \<Rightarrow> nat \<Rightarrow> string" where
  "truncateToTokens txt maxTokens =
     (if estimateTokens txt \<le> maxTokens then txt else take (maxTokens * 4) txt @ ''...'')"


section \<open>The budget\<close>

lemma fit_prefix: "\<exists>k. fit budget used xs = take k xs"
proof (induction budget used xs rule: fit.induct)
  case (2 budget used x xs)
  show ?case
  proof (cases "used + length x > budget")
    case True
    then show ?thesis by (intro exI [of _ 0]) simp
  next
    case False
    with 2 obtain k where "fit budget (used + length x) xs = take k xs" by auto
    with False show ?thesis by (intro exI [of _ "Suc k"]) simp
  qed
qed simp

lemma fit_length: "used \<le> budget \<Longrightarrow> used + sum_list (map length (fit budget used xs)) \<le> budget"
proof (induction budget used xs rule: fit.induct)
  case (2 budget used x xs)
  then show ?case by (cases "used + length x > budget") (auto simp: add.assoc)
qed simp

lemma fit_maximal:
  "used + sum_list (map length xs) \<le> budget \<Longrightarrow> fit budget used xs = xs"
  by (induction budget used xs rule: fit.induct) auto

lemma fit_next:
  "length (fit budget used xs) < length xs \<Longrightarrow>
     budget < used + sum_list (map length (take (Suc (length (fit budget used xs))) xs))"
proof (induction budget used xs rule: fit.induct)
  case (2 budget used x xs)
  then show ?case by (cases "used + length x > budget") (auto simp: add.assoc)
qed simp

lemma length_join: "length (join sep xs) = sum_list (map length xs) + (length xs - 1) * length sep"
  by (induction sep xs rule: join.induct) auto

lemma with_scores_fst [simp]: "map fst (with_scores cs ss) = cs" "length (with_scores cs ss) = length cs"
  by (induction cs ss rule: with_scores.induct) simp_all


section \<open>Properties\<close>

text \<open>
  A context holds the longest run of leading chunks whose texts fit the budget: the chunk
  texts together are at most four characters per token, adding the next chunk would exceed it,
  and the separators between the chunks come on top of the budget.
\<close>

theorem format_budget:
  "\<exists>k. let parts = take k (formatted_chunks chunks scores opts); sep = or_default (fo_separator opts) default_separator;
         budget = 4 * or_default (fo_maxTokens opts) 4000
     in k \<le> length chunks \<and> format_context chunks scores opts = join sep parts
       \<and> sum_list (map length parts) \<le> budget
       \<and> (k = length chunks \<or> budget < sum_list (map length (take (Suc k) (formatted_chunks chunks scores opts))))
       \<and> length (format_context chunks scores opts) \<le> budget + (k - 1) * length sep"
proof -
  let ?xs = "formatted_chunks chunks scores opts" and ?b = "4 * or_default (fo_maxTokens opts) 4000"
  let ?f = "fit ?b 0 ?xs"
  have len: "length ?xs = length chunks" by (simp add: formatted_chunks_def)
  obtain k where k: "?f = take k ?xs" using fit_prefix [of ?b 0 ?xs] by blast
  have f: "take (length ?f) ?xs = ?f" unfolding k by (simp add: min_def)
  have "length ?f \<le> length ?xs" unfolding k by simp
  moreover have "length ?f = length ?xs \<or> ?b < sum_list (map length (take (Suc (length ?f)) ?xs))"
    using fit_next [of ?b 0 ?xs] calculation by (cases "length ?f = length ?xs") simp_all
  moreover have "sum_list (map length ?f) \<le> ?b" using fit_length [of 0 ?b ?xs] by simp
  moreover have "length (join sep ?f) \<le> ?b + (length ?f - 1) * length sep" for sep
    using calculation(3) by (simp add: length_join)
  ultimately show ?thesis
    unfolding Let_def format_context_def by (intro exI [of _ "length ?f"]) (simp add: f len)
qed

text \<open>
  Truncation overshoots by one token: a text that is cut has, with the mark that is appended,
  exactly one estimated token more than the limit; a text that fits is unchanged.
\<close>

theorem truncate_overshoots:
  "if length txt \<le> 4 * n then truncateToTokens txt n = txt \<and> estimateTokens txt \<le> n
   else estimateTokens (truncateToTokens txt n) = n + 1 \<and> take (4 * n) (truncateToTokens txt n) = take (4 * n) txt"
proof (cases "length txt \<le> 4 * n")
  case True
  then have "estimateTokens txt \<le> n" by (simp add: estimateTokens_def)
  with True show ?thesis by (simp add: truncateToTokens_def)
next
  case False
  then have n: "\<not> estimateTokens txt \<le> n" by (simp add: estimateTokens_def)
  have l: "length (take (n * 4) txt @ ''...'') = 4 * n + 3" using False by simp
  have "estimateTokens (take (n * 4) txt @ ''...'') = n + 1" unfolding estimateTokens_def l by simp
  with False n show ?thesis by (simp add: truncateToTokens_def mult.commute)
qed

text \<open>
  The optimisation context only keeps chunks of the four known types, schema first, then
  examples, then the rest in order: nothing of those types is lost, and chunks of any other type
  are dropped.
\<close>

theorem prioritized_exact:
  "set (prioritizedChunks chunks) = {c \<in> set chunks. sm_type (st_metadata c) \<in> {''schema'', ''example'', ''documentation'', ''api''}}
   \<and> length (prioritizedChunks chunks)
     = length (filter (\<lambda>c. sm_type (st_metadata c) \<in> {''schema'', ''example'', ''documentation'', ''api''}) chunks)"
proof
  show "set (prioritizedChunks chunks) = {c \<in> set chunks. sm_type (st_metadata c) \<in> {''schema'', ''example'', ''documentation'', ''api''}}"
    by (auto simp: prioritizedChunks_def)
  show "length (prioritizedChunks chunks)
     = length (filter (\<lambda>c. sm_type (st_metadata c) \<in> {''schema'', ''example'', ''documentation'', ''api''}) chunks)"
    unfolding prioritizedChunks_def by (induction chunks) auto
qed

end
