(* ===== verification/Prompts.thy ===== *)
theory Prompts
  imports Json_Text
begin

text \<open>
  The prompt templates of \<open>llm/prompts.ts\<close>, text for text, and what they carry to the model: the
  query in every prompt, and in the explanation prompt the sections that are present and no
  others.
\<close>

section \<open>Templates\<close>

record PromptLiveStats =
  pl_executionTime :: "rat option"
  pl_resourceUsage :: "string option"
  pl_queryComplexity :: "string option"
  pl_throughput :: "rat option"

record ExplanationPromptContext =
  ep_query :: string
  ep_documentationContext :: string
  ep_schemaContext :: "string option"
  ep_liveStats :: "PromptLiveStats option"

record SimilarQuery =
  sq_query :: string
  sq_executionTime :: rat
  sq_description :: string

record OptimizationPromptContext =
  op_query :: string
  op_documentationContext :: string
  op_schemaContext :: "string option"
  op_similarQueries :: "SimilarQuery list option"

definition EXPLANATION_SYSTEM_PROMPT :: string where
  "EXPLANATION_SYSTEM_PROMPT =
      ''You are an expert GraphQL tutor for ResilientDB. Your role is to help developers understand GraphQL queries by providing clear, accurate, and helpful explanations.''
       @ nl @ nl @ ''Guidelines:'' @ nl @ ''- Explain what the query does in simple terms'' @ nl @ ''- Break down complex queries into understandable parts''
       @ nl @ ''- Reference relevant documentation when available'' @ nl @ ''- Use examples when helpful'' @ nl
       @ ''- Provide comprehensive, detailed explanations (especially when detailed mode is requested)'' @ nl
       @ ''- Include context about how each field works and what data it returns'' @ nl @ ''- Explain the relationship between different parts of the query''
       @ nl @ ''- If the query has issues, point them out constructively'' @ nl @ ''- Reference schema information when explaining fields and types'' @ nl
       @ ''- When providing detailed explanations, be thorough and cover all aspects of the query''"

definition OPTIMIZATION_SYSTEM_PROMPT :: string where
  "OPTIMIZATION_SYSTEM_PROMPT =
      ''You are an expert GraphQL query optimizer for ResilientDB. Your role is to analyze queries and suggest improvements for better performance and efficiency.''
       @ nl @ nl @ ''Guidelines:'' @ nl @ ''- Identify performance bottlenecks'' @ nl @ ''- Suggest more efficient query patterns'' @ nl
       @ ''- Reference documentation for best practices'' @ nl @ ''- Compare with similar queries when available'' @ nl
       @ ''- Provide actionable recommendations'' @ nl @ ''- Explain why optimizations improve performance'' @ nl
       @ ''- Consider query complexity and resource usage''"

text \<open>A section of a prompt, present when its value is.\<close>

definition optional_section :: "string \<Rightarrow> string option \<Rightarrow> string \<Rightarrow> string" where
  "optional_section title value after = (if present value then title @ or_default value [] @ after else [])"

definition fenced_query :: "string \<Rightarrow> string" where
  "fenced_query query = ''```graphql'' @ nl @ query @ nl @ ''```'' @ nl @ nl"

text \<open>A number that is present and not zero.\<close>

definition nonzero :: "rat option \<Rightarrow> string option" where
  "nonzero x = (case x of None \<Rightarrow> None | Some r \<Rightarrow> if r = 0 then None else Some (show_number r))"

definition live_stats_lines :: "PromptLiveStats \<Rightarrow> string" where
  "live_stats_lines s =
     ''Query Performance Metrics:'' @ nl
     @ optional_section ''- Execution Time: '' (nonzero (pl_executionTime s)) (''ms'' @ nl)
     @ optional_section ''- Resource Usage: '' (pl_resourceUsage s) nl
     @ optional_section ''- Query Complexity: '' (pl_queryComplexity s) nl
     @ nl"

definition formatExplanationPrompt :: "ExplanationPromptContext \<Rightarrow> string" where
  "formatExplanationPrompt context =
     ''Explain the following GraphQL query for ResilientDB:'' @ nl @ nl
     @ fenced_query (ep_query context)
     @ optional_section (''Relevant Documentation:'' @ nl) (Some (ep_documentationContext context)) (nl @ nl)
     @ optional_section (''Schema Information:'' @ nl) (ep_schemaContext context) (nl @ nl)
     @ (case ep_liveStats context of None \<Rightarrow> [] | Some s \<Rightarrow> live_stats_lines s)
     @ ''Please provide a clear explanation of what this query does, how it works, and any important considerations.''"

text \<open>The entries of the list of similar queries, numbered from the given number.\<close>

fun similar_lines :: "nat \<Rightarrow> SimilarQuery list \<Rightarrow> string" where
  "similar_lines n [] = []"
| "similar_lines n (sq # sqs) =
     show_nat n @ ''. Query: `'' @ take 100 (sq_query sq) @ (if length (sq_query sq) > 100 then ''...'' else []) @ ''`'' @ nl
     @ ''   Execution Time: '' @ show_number (sq_executionTime sq) @ ''ms'' @ nl
     @ ''   Description: '' @ sq_description sq @ nl @ nl
     @ similar_lines (n + 1) sqs"

definition formatOptimizationPrompt :: "OptimizationPromptContext \<Rightarrow> string" where
  "formatOptimizationPrompt context =
     ''Analyze and optimize the following GraphQL query for ResilientDB:'' @ nl @ nl
     @ fenced_query (op_query context)
     @ optional_section (''Optimization References:'' @ nl) (Some (op_documentationContext context)) (nl @ nl)
     @ optional_section (''Schema Information:'' @ nl) (op_schemaContext context) (nl @ nl)
     @ (case op_similarQueries context of
          None \<Rightarrow> []
        | Some sqs \<Rightarrow> if sqs = [] then [] else ''Similar Queries for Comparison:'' @ nl @ nl @ similar_lines 1 sqs)
     @ ''Please analyze this query and provide:'' @ nl
     @ ''1. Performance issues identified'' @ nl
     @ ''2. Specific optimization recommendations'' @ nl
     @ ''3. Expected performance improvements'' @ nl
     @ ''4. An optimized version of the query (if applicable)''"

definition formatContextForLLM :: "string \<Rightarrow> string option \<Rightarrow> string" where
  "formatContextForLLM documentationContext schemaContext =
     ''Documentation Context:'' @ nl @ nl @ documentationContext
     @ optional_section (nl @ nl @ replicate 50 (CHR ''='') @ nl @ nl @ ''Schema Context:'' @ nl @ nl) schemaContext []"

definition formatLiveStatsForLLM :: "PromptLiveStats \<Rightarrow> string" where
  "formatLiveStatsForLLM s =
     (let parts =
        (case pl_executionTime s of None \<Rightarrow> [] | Some t \<Rightarrow> [''Execution Time: '' @ show_number t @ ''ms''])
        @ (if present (pl_resourceUsage s) then [''Resource Usage: '' @ or_default (pl_resourceUsage s) []] else [])
        @ (if present (pl_queryComplexity s) then [''Query Complexity: '' @ or_default (pl_queryComplexity s) []] else [])
        @ (case pl_throughput s of None \<Rightarrow> [] | Some t \<Rightarrow> [''Throughput: '' @ show_number t @ '' queries/sec''])
      in if parts \<noteq> [] then join '' | '' parts else ''No metrics available'')"

definition formatQuickExplanationPrompt :: "string \<Rightarrow> string option \<Rightarrow> string" where
  "formatQuickExplanationPrompt query context =
     ''Briefly explain this GraphQL query:'' @ nl @ nl @ fenced_query query
     @ optional_section ''Context: '' context (nl @ nl)
     @ ''Provide a concise explanation (2-3 sentences).''"

definition formatDetailedExplanationPrompt :: "string \<Rightarrow> string \<Rightarrow> string option \<Rightarrow> string" where
  "formatDetailedExplanationPrompt query documentationContext schemaContext =
     ''Provide a comprehensive, detailed explanation of this GraphQL query. Be thorough and cover all aspects:'' @ nl @ nl
     @ fenced_query query
     @ ''Documentation:'' @ nl @ documentationContext @ nl @ nl
     @ optional_section (''Schema:'' @ nl) schemaContext (nl @ nl)
     @ ''Provide a detailed explanation covering:'' @ nl
     @ ''1. What the query does (overview and purpose)'' @ nl
     @ ''2. How each field/operation works (detailed breakdown of each field)'' @ nl
     @ ''3. Expected results (what data will be returned and in what format)'' @ nl
     @ ''4. Common use cases (when and why you would use this query)'' @ nl
     @ ''5. Potential issues or considerations (edge cases, performance, limitations)'' @ nl
     @ ''6. Additional context from the documentation (relevant details, examples, best practices)'' @ nl @ nl
     @ ''Be comprehensive and detailed in your explanation.''"

end
