(* ===== verification/Llm_Client.thy ===== *)
theory Llm_Client
  imports Json_Text
begin

text \<open>
  Model of \<open>config/llm.ts\<close> and \<open>llm/llm-client.ts\<close>: the choice of the provider, the requests the
  client builds for each provider, and how it reads the replies. The provider SDKs and the network
  are a record of functions from requests to replies. The client's result is paired with the
  calls it made to the provider's client; what an SDK repeats inside such a call is its own. The theory
  shows that the retry of \<open>generateCompletion\<close> is never reached, and that the live statistics only touch
  the system message.
\<close>

section \<open>Configuration\<close>

datatype llm_provider = Deepseek | Openai | Anthropic | Huggingface | LocalModel | Gemini

text \<open>The variables of \<open>env\<close> that the client reads.\<close>

record LlmEnv =
  env_LLM_PROVIDER :: llm_provider
  env_LLM_API_KEY :: "string option"
  env_LLM_MODEL :: string
  env_LLM_ENABLE_LIVE_STATS :: bool
  env_HUGGINGFACE_API_KEY :: "string option"

record LLMConfig =
  lc_provider :: llm_provider
  lc_apiKey :: "string option"
  lc_model :: string
  lc_enableLiveStats :: bool

definition getLLMConfig :: "LlmEnv \<Rightarrow> LLMConfig" where
  "getLLMConfig env =
     (let apiKey = (if env_LLM_PROVIDER env = Huggingface \<and> \<not> present (env_LLM_API_KEY env) \<and> present (env_HUGGINGFACE_API_KEY env)
                    then env_HUGGINGFACE_API_KEY env else env_LLM_API_KEY env)
      in \<lparr>lc_provider = env_LLM_PROVIDER env,
          lc_apiKey = apiKey,
          lc_model = (if env_LLM_MODEL env \<noteq> [] then env_LLM_MODEL env
                      else if env_LLM_PROVIDER env = Huggingface then ''meta-llama/Meta-Llama-3-8B-Instruct''
                      else if env_LLM_PROVIDER env = LocalModel then ''Xenova/distilgpt2''
                      else if env_LLM_PROVIDER env = Gemini then ''gemini-2.5-flash-lite''
                      else ''deepseek-chat''),
          lc_enableLiveStats = env_LLM_ENABLE_LIVE_STATS env\<rparr>)"

definition isLLMAvailable :: "LlmEnv \<Rightarrow> bool" where
  "isLLMAvailable env =
     (let config = getLLMConfig env
      in if lc_provider config = LocalModel then True
         else if lc_provider config = Huggingface then present (lc_apiKey config) \<or> present (env_HUGGINGFACE_API_KEY env)
         else present (lc_apiKey config))"


section \<open>Client\<close>

datatype role = System | User | Assistant

record LLMMessage =
  lm_role :: role
  lm_content :: string

record LLMUsage =
  lu_promptTokens :: "nat option"
  lu_completionTokens :: "nat option"
  lu_totalTokens :: "nat option"

record LLMResponse =
  lr_content :: string
  lr_model :: string
  lr_usage :: "LLMUsage option"

record LLMOptions =
  lo_temperature :: "rat option"
  lo_maxTokens :: "nat option"
  lo_liveStats :: "(string \<times> json) list option"

text \<open>
  The client: the SDK objects are created or not, the one of OpenAI and DeepSeek with its base
  URL. The local pipeline is a promise that every local completion awaits.
\<close>

record LLMClient =
  lk_env :: LlmEnv
  lk_openaiClient :: "string option option"
  lk_anthropicClient :: bool
  lk_geminiClient :: bool
  lk_huggingfaceClient :: bool
  lk_provider :: llm_provider
  lk_model :: string
  lk_enableLiveStats :: bool
  lk_huggingfaceApiKey :: "string option"

definition new_LLMClient :: "LlmEnv \<Rightarrow> LLMClient" where
  "new_LLMClient env =
     (let config = getLLMConfig env; p = lc_provider config; keyed = present (lc_apiKey config)
      in \<lparr>lk_env = env,
          lk_openaiClient = (if keyed \<and> (p = Openai \<or> p = Deepseek)
             then Some (if p = Deepseek then Some ''https://api.deepseek.com/v1'' else None) else None),
          lk_anthropicClient = (keyed \<and> p = Anthropic),
          lk_geminiClient = (keyed \<and> p = Gemini),
          lk_huggingfaceClient = (keyed \<and> p = Huggingface),
          lk_provider = p,
          lk_model = lc_model config,
          lk_enableLiveStats = lc_enableLiveStats config,
          lk_huggingfaceApiKey =
            (if keyed then (if p = Huggingface then lc_apiKey config else None)
             else if p = LocalModel then env_HUGGINGFACE_API_KEY env else None)\<rparr>)"

definition llm_isAvailable :: "LLMClient \<Rightarrow> bool" where
  "llm_isAvailable c \<longleftrightarrow>
     (if lk_provider c = LocalModel then True
      else isLLMAvailable (lk_env c)
        \<and> (lk_openaiClient c \<noteq> None \<or> lk_anthropicClient c \<or> lk_geminiClient c \<or> lk_huggingfaceClient c))"


section \<open>Requests and replies\<close>

record OpenAIRequest =
  oq_baseURL :: "string option"
  oq_model :: string
  oq_messages :: "LLMMessage list"
  oq_temperature :: rat
  oq_max_tokens :: "nat option"

record AnthropicRequest =
  aq_model :: string
  aq_max_tokens :: nat
  aq_temperature :: rat
  aq_system :: "string option"
  aq_messages :: "LLMMessage list"

record GeminiRequest =
  gq_model :: string
  gq_temperature :: rat
  gq_maxOutputTokens :: "nat option"
  gq_history :: "LLMMessage list"
  gq_systemInstruction :: "string option"
  gq_prompt :: string

record TextRequest =
  tq_url :: string
  tq_authorization :: string
  tq_inputs :: string
  tq_max_new_tokens :: nat
  tq_temperature :: rat

record LocalRequest =
  lq_model :: string
  lq_prompt :: string
  lq_max_new_tokens :: nat
  lq_temperature :: rat

datatype llm_request =
    OpenAICall OpenAIRequest
  | AnthropicCall AnthropicRequest
  | GeminiCall GeminiRequest
  | HuggingFaceFetch TextRequest
  | LocalPipeline LocalRequest

text \<open>A choice is absent, without a message, or a message with optional content.\<close>

record OpenAIReply =
  op_choices :: "string option option list"
  op_model :: string
  op_usage :: "(nat \<times> nat \<times> nat) option"

text \<open>A content block: text, or of another type.\<close>

record AnthropicReply =
  ap_content :: "string option list"
  ap_model :: string
  ap_usage :: "(nat \<times> nat) option"

record GeminiReply =
  gp_text :: string
  gp_promptTokenCount :: "nat option"
  gp_candidatesTokenCount :: "nat option"

text \<open>The JSON value of a text-generation reply: an array or an object with optional texts, a string, or a number or boolean.\<close>

datatype generated =
    GenArray "(string option \<times> string option) list"
  | GenObject "string option" "string option"
  | GenString string
  | GenOther

datatype fetch_reply = FetchFails string | FetchStatus nat string | FetchOk generated

text \<open>The providers as the client sees them.\<close>

record Providers =
  pv_openai :: "OpenAIRequest \<Rightarrow> string + OpenAIReply"
  pv_anthropic :: "AnthropicRequest \<Rightarrow> string + AnthropicReply"
  pv_gemini :: "GeminiRequest \<Rightarrow> string + GeminiReply"
  pv_huggingface :: "TextRequest \<Rightarrow> fetch_reply"
  pv_local :: "LocalRequest \<Rightarrow> string + generated"

type_synonym llm_outcome = "llm_request list \<times> (string + LLMResponse)"


section \<open>Completions\<close>

text \<open>\<open>x || ''\<close> for an optional string.\<close>

definition or_empty :: "string option \<Rightarrow> string" where
  "or_empty x = or_default x []"

definition ceil4 :: "nat \<Rightarrow> nat" where
  "ceil4 n = (n + 3) div 4"

definition generateOpenAICompletion ::
  "Providers \<Rightarrow> LLMClient \<Rightarrow> LLMMessage list \<Rightarrow> LLMOptions \<Rightarrow> llm_outcome" where
  "generateOpenAICompletion w c messages opts =
     (case lk_openaiClient c of
        None \<Rightarrow> ([], Inl ''OpenAI/DeepSeek client not initialized'')
      | Some baseURL \<Rightarrow>
          (let rq = \<lparr>oq_baseURL = baseURL, oq_model = lk_model c, oq_messages = messages,
                     oq_temperature = or_default (lo_temperature opts) (7/10), oq_max_tokens = lo_maxTokens opts\<rparr>
           in ([OpenAICall rq],
               case pv_openai w rq of
                 Inl err \<Rightarrow> Inl err
               | Inr response \<Rightarrow>
                   (case op_choices response of
                      Some content # _ \<Rightarrow>
                        Inr \<lparr>lr_content = or_empty content, lr_model = op_model response,
                             lr_usage = map_option (\<lambda>(p, q, t). \<lparr>lu_promptTokens = Some p, lu_completionTokens = Some q, lu_totalTokens = Some t\<rparr>)
                               (op_usage response)\<rparr>
                    | _ \<Rightarrow> Inl ''No completion returned from LLM''))))"

definition system_text :: "LLMMessage list \<Rightarrow> string" where
  "system_text messages =
     join (nl @ nl) (map lm_content (filter (\<lambda>m. lm_role m = System) messages))"

definition conversation :: "LLMMessage list \<Rightarrow> LLMMessage list" where
  "conversation messages = filter (\<lambda>m. lm_role m \<noteq> System) messages"

definition generateAnthropicCompletion ::
  "Providers \<Rightarrow> LLMClient \<Rightarrow> LLMMessage list \<Rightarrow> LLMOptions \<Rightarrow> llm_outcome" where
  "generateAnthropicCompletion w c messages opts =
     (if \<not> lk_anthropicClient c then ([], Inl ''Anthropic client not initialized'')
      else
        (let sys = system_text messages;
             rq = \<lparr>aq_model = lk_model c, aq_max_tokens = or_default (lo_maxTokens opts) 1024,
                   aq_temperature = or_default (lo_temperature opts) (7/10),
                   aq_system = (if sys = [] then None else Some sys),
                   aq_messages = map (\<lambda>m. m\<lparr>lm_role := (if lm_role m = User then User else Assistant)\<rparr>) (conversation messages)\<rparr>
         in ([AnthropicCall rq],
             case pv_anthropic w rq of
               Inl err \<Rightarrow> Inl err
             | Inr response \<Rightarrow>
                 (case ap_content response of
                    Some txt # _ \<Rightarrow>
                      Inr \<lparr>lr_content = txt, lr_model = ap_model response,
                           lr_usage = map_option (\<lambda>(i, out). \<lparr>lu_promptTokens = Some i, lu_completionTokens = Some out, lu_totalTokens = Some (i + out)\<rparr>)
                             (ap_usage response)\<rparr>
                  | _ \<Rightarrow> Inl ''No text completion returned from Anthropic''))))"

text \<open>With no message to send, \<open>lastMessage\<close> is undefined and reading its content throws.\<close>

definition generateGeminiCompletion ::
  "Providers \<Rightarrow> LLMClient \<Rightarrow> LLMMessage list \<Rightarrow> LLMOptions \<Rightarrow> llm_outcome" where
  "generateGeminiCompletion w c messages opts =
     (if \<not> lk_geminiClient c then ([], Inl ''Gemini client not initialized'')
      else if conversation messages = [] then ([], Inl ''Cannot read properties of undefined (reading 'content')'')
      else
        (let sys = system_text messages; conv = conversation messages;
             history = butlast conv; lastMessage = last conv;
             rq = \<lparr>gq_model = lk_model c, gq_temperature = or_default (lo_temperature opts) (7/10),
                   gq_maxOutputTokens = lo_maxTokens opts,
                   gq_history = history,
                   gq_systemInstruction = (if history \<noteq> [] \<and> sys \<noteq> [] then Some sys else None),
                   gq_prompt = (if history = [] \<and> sys \<noteq> [] then sys @ (nl @ nl) @ lm_content lastMessage
                                else lm_content lastMessage)\<rparr>
         in ([GeminiCall rq],
             case pv_gemini w rq of
               Inl err \<Rightarrow> Inl err
             | Inr response \<Rightarrow>
                 (let p = or_default (gp_promptTokenCount response) (ceil4 (length (join nl (map lm_content messages))));
                      q = or_default (gp_candidatesTokenCount response) (ceil4 (length (gp_text response)))
                  in Inr \<lparr>lr_content = gp_text response, lr_model = lk_model c,
                          lr_usage = Some \<lparr>lu_promptTokens = Some p, lu_completionTokens = Some q, lu_totalTokens = Some (p + q)\<rparr>\<rparr>))))"

text \<open>The single prompt that the text-generation providers get.\<close>

definition role_label :: "role \<Rightarrow> string" where
  "role_label r = (case r of System \<Rightarrow> ''System: '' | User \<Rightarrow> ''User: '' | Assistant \<Rightarrow> ''Assistant: '')"

definition flat_prompt :: "LLMMessage list \<Rightarrow> string" where
  "flat_prompt messages =
     concat (map (\<lambda>m. role_label (lm_role m) @ lm_content m @ (nl @ nl)) messages) @ ''Assistant:''"

definition estimated_usage :: "string \<Rightarrow> string \<Rightarrow> LLMUsage" where
  "estimated_usage prompt txt =
     (let p = ceil4 (length prompt); q = ceil4 (length txt)
      in \<lparr>lu_promptTokens = Some p, lu_completionTokens = Some q, lu_totalTokens = Some (p + q)\<rparr>)"

definition http_error_text :: "nat \<Rightarrow> string \<Rightarrow> string" where
  "http_error_text status errorText =
     ''Hugging Face API error: '' @
     (if status = 503 then ''Model is loading, please wait a few seconds and try again: '' @ errorText
      else if status = 429 then ''Rate limit exceeded: '' @ errorText
      else if status = 401 \<or> status = 403 then ''Authentication failed: '' @ errorText
      else ''HTTP '' @ show_nat status @ '': '' @ errorText)"

text \<open>The \<open>catch\<close> of the Hugging Face completion.\<close>

definition huggingface_error :: "string \<Rightarrow> string" where
  "huggingface_error msg =
     (if str_includes msg ''503'' \<or> str_includes msg ''loading''
      then ''Model is loading, please wait a few seconds and try again: '' @ msg
      else if str_includes msg ''429'' \<or> str_includes msg ''rate limit'' then ''Rate limit exceeded: '' @ msg
      else if str_includes msg ''401'' \<or> str_includes msg ''403'' \<or> str_includes msg ''authentication''
      then ''Authentication failed: '' @ msg
      else ''Hugging Face API error: '' @ msg)"

text \<open>
  An object without \<open>generated_text\<close> and any other value leave the text empty, as does an empty
  array.
\<close>

definition huggingface_text :: "generated \<Rightarrow> string" where
  "huggingface_text data =
     (case data of
        GenArray ((t, out) # _) \<Rightarrow> or_empty t
      | GenArray [] \<Rightarrow> []
      | GenObject t out \<Rightarrow> or_empty t
      | GenString s \<Rightarrow> s
      | GenOther \<Rightarrow> [])"

definition generateHuggingFaceCompletion ::
  "Providers \<Rightarrow> LLMClient \<Rightarrow> LLMMessage list \<Rightarrow> LLMOptions \<Rightarrow> llm_outcome" where
  "generateHuggingFaceCompletion w c messages opts =
     (if \<not> lk_huggingfaceClient c then ([], Inl ''Hugging Face client not initialized'')
      else
        (let prompt = flat_prompt messages;
             rq = \<lparr>tq_url = ''https://router.huggingface.co/hf-inference/models/'' @ lk_model c,
                   tq_authorization = ''Bearer '' @ or_empty (lk_huggingfaceApiKey c),
                   tq_inputs = prompt,
                   tq_max_new_tokens = (case lo_maxTokens opts of None \<Rightarrow> 500 | Some n \<Rightarrow> if n = 0 then 500 else n),
                   tq_temperature = (case lo_temperature opts of None \<Rightarrow> 7/10 | Some t \<Rightarrow> if t = 0 then 7/10 else t)\<rparr>
         in ([HuggingFaceFetch rq],
             case pv_huggingface w rq of
               FetchFails err \<Rightarrow> Inl (huggingface_error err)
             | FetchStatus status errorText \<Rightarrow> Inl (huggingface_error (http_error_text status errorText))
             | FetchOk data \<Rightarrow>
                 (let txt = huggingface_text data
                  in Inr \<lparr>lr_content = trim txt, lr_model = lk_model c, lr_usage = Some (estimated_usage prompt txt)\<rparr>))))"

definition or_string :: "string option \<Rightarrow> string option \<Rightarrow> string" where
  "or_string a b = (if present a then or_empty a else or_empty b)"

definition local_text :: "generated \<Rightarrow> string" where
  "local_text data =
     (case data of
        GenArray ((t, out) # _) \<Rightarrow> or_string t out
      | GenObject t out \<Rightarrow> or_string t out
      | _ \<Rightarrow> [])"

definition generateLocalCompletion ::
  "Providers \<Rightarrow> LLMClient \<Rightarrow> LLMMessage list \<Rightarrow> LLMOptions \<Rightarrow> llm_outcome" where
  "generateLocalCompletion w c messages opts =
     (let prompt = flat_prompt messages;
          rq = \<lparr>lq_model = lk_model c, lq_prompt = prompt,
                lq_max_new_tokens = or_default (lo_maxTokens opts) 400,
                lq_temperature = or_default (lo_temperature opts) (7/10)\<rparr>
      in ([LocalPipeline rq],
          case pv_local w rq of
            Inl err \<Rightarrow> Inl err
          | Inr data \<Rightarrow>
              (let txt = local_text data
               in Inr \<lparr>lr_content = trim txt, lr_model = lk_model c, lr_usage = Some (estimated_usage prompt txt)\<rparr>)))"


section \<open>Live statistics\<close>

text \<open>\<open>JSON.stringify(value, null, 2)\<close>, with the current indentation as first argument.\<close>

definition indent :: "nat \<Rightarrow> string" where
  "indent n = CHR 0x0A # replicate n (CHR '' '')"

fun pretty :: "nat \<Rightarrow> json \<Rightarrow> string" where
  "pretty n (JArr xs) =
     (if xs = [] then ''[]''
      else ''['' @ indent (n + 2) @ join ('','' @ indent (n + 2)) (map (pretty (n + 2)) xs) @ indent n @ '']'')"
| "pretty n (JObj ps) =
     (if ps = [] then ''{}''
      else ''{'' @ indent (n + 2)
        @ join ('','' @ indent (n + 2)) (map (\<lambda>(k, v). json_quote k @ '': '' @ pretty (n + 2) v) ps) @ indent n @ ''}'')"
| "pretty n j = stringify j"

definition stats_context :: "(string \<times> json) list \<Rightarrow> string" where
  "stats_context liveStats =
     (nl @ nl) @ ''[Live Query Statistics]'' @ nl @ pretty 0 (JObj liveStats)"

text \<open>\<open>findIndex\<close> and the update of the message found; None when there is no system message.\<close>

fun append_to_system :: "string \<Rightarrow> LLMMessage list \<Rightarrow> LLMMessage list option" where
  "append_to_system txt [] = None"
| "append_to_system txt (m # ms) =
     (if lm_role m = System then Some (m\<lparr>lm_content := lm_content m @ txt\<rparr> # ms)
      else map_option (Cons m) (append_to_system txt ms))"

definition enhanceMessagesWithLiveStats :: "LLMMessage list \<Rightarrow> (string \<times> json) list \<Rightarrow> LLMMessage list" where
  "enhanceMessagesWithLiveStats messages liveStats =
     (let statsContext = stats_context liveStats
      in case append_to_system statsContext messages of
           Some enhanced \<Rightarrow> enhanced
         | None \<Rightarrow>
             \<lparr>lm_role = System,
              lm_content = ''You have access to live query statistics from ResLens. Use this information to provide more accurate and context-aware responses.'' @ statsContext\<rparr>
             # messages)"


section \<open>Dispatch\<close>

definition provider_name :: "llm_provider \<Rightarrow> string" where
  "provider_name p =
     (case p of Deepseek \<Rightarrow> ''deepseek'' | Openai \<Rightarrow> ''openai'' | Anthropic \<Rightarrow> ''anthropic''
      | Huggingface \<Rightarrow> ''huggingface'' | LocalModel \<Rightarrow> ''local'' | Gemini \<Rightarrow> ''gemini'')"

definition isRetryableError :: "string \<Rightarrow> bool" where
  "isRetryableError msg =
     (let message = toLowerCase msg
      in str_includes message ''network'' \<or> str_includes message ''timeout'' \<or> str_includes message ''rate limit''
         \<or> str_includes message ''429'' \<or> str_includes message ''500'' \<or> str_includes message ''503'')"

text \<open>
  How the \<open>try\<close> block is left: by an exception, with the calls made until then, or by returning a promise.
  The promise of an asynchronous method is given by its calls and by how it settles. A
  promise that is returned without \<open>await\<close> settles after the block has been left; its rejection is no
  exception of the block.
\<close>

datatype try_exit = Exception "llm_request list" string | Return llm_outcome

definition try_block :: "Providers \<Rightarrow> LLMClient \<Rightarrow> LLMMessage list \<Rightarrow> LLMOptions \<Rightarrow> try_exit" where
  "try_block w c enhancedMessages opts =
     (case lk_provider c of
        Openai \<Rightarrow> Return (generateOpenAICompletion w c enhancedMessages opts)
      | Deepseek \<Rightarrow> Return (generateOpenAICompletion w c enhancedMessages opts)
      | Anthropic \<Rightarrow> Return (generateAnthropicCompletion w c enhancedMessages opts)
      | Gemini \<Rightarrow> Return (generateGeminiCompletion w c enhancedMessages opts)
      | Huggingface \<Rightarrow> Return (generateHuggingFaceCompletion w c enhancedMessages opts)
      | LocalModel \<Rightarrow> Return (generateLocalCompletion w c enhancedMessages opts))"

definition enhanced_messages :: "LLMClient \<Rightarrow> LLMMessage list \<Rightarrow> LLMOptions \<Rightarrow> LLMMessage list" where
  "enhanced_messages c messages opts =
     (case lo_liveStats opts of
        Some liveStats \<Rightarrow> if lk_enableLiveStats c then enhanceMessagesWithLiveStats messages liveStats else messages
      | None \<Rightarrow> messages)"

text \<open>
  The whole method. After a retryable exception the \<open>catch\<close> block starts again with the same arguments, without
  a bound; that the method ends rests on the fact that the block raises no exception.
\<close>

lemma try_block_returns: "try_block w c ms opts \<noteq> Exception rqs err"
  by (simp add: try_block_def split: llm_provider.split)

function generateCompletion ::
  "Providers \<Rightarrow> LLMClient \<Rightarrow> LLMMessage list \<Rightarrow> LLMOptions \<Rightarrow> llm_outcome" where
  "generateCompletion w c messages opts =
     (if \<not> llm_isAvailable c
      then ([], Inl (''LLM client not available. Please set LLM_API_KEY environment variable for provider: '' @ provider_name (lk_provider c)))
      else case try_block w c (enhanced_messages c messages opts) opts of
             Return promise \<Rightarrow> promise
           | Exception rqs err \<Rightarrow>
               if isRetryableError err
               then (case generateCompletion w c messages opts of (rqs', result) \<Rightarrow> (rqs @ rqs', result))
               else (rqs, Inl err))"
  by pat_completeness auto
termination by (relation "{}") (simp_all add: try_block_returns)

declare generateCompletion.simps [simp del]

lemma completion_returns:
  "llm_isAvailable c \<Longrightarrow> try_block w c (enhanced_messages c messages opts) opts = Return p \<Longrightarrow> generateCompletion w c messages opts = p"
  by (subst generateCompletion.simps) simp

lemma completion_unavailable: "\<not> llm_isAvailable c \<Longrightarrow> isl (snd (generateCompletion w c messages opts))"
  by (subst generateCompletion.simps) simp

definition chat :: "Providers \<Rightarrow> LLMClient \<Rightarrow> string \<Rightarrow> string option \<Rightarrow> LLMOptions \<Rightarrow> llm_request list \<times> (string + string)" where
  "chat w c userMessage systemMessage opts =
     (let messages = (if present systemMessage then [\<lparr>lm_role = System, lm_content = or_empty systemMessage\<rparr>] else [])
            @ [\<lparr>lm_role = User, lm_content = userMessage\<rparr>]
      in case generateCompletion w c messages opts of
           (rqs, Inl err) \<Rightarrow> (rqs, Inl err)
         | (rqs, Inr response) \<Rightarrow> (rqs, Inr (lr_content response)))"


section \<open>Lemmas\<close>

text \<open>The constructor creates the SDK object of its provider whenever the client is available.\<close>

lemma available_initialized:
  assumes "llm_isAvailable (new_LLMClient env)"
  shows "case env_LLM_PROVIDER env of
      Openai \<Rightarrow> lk_openaiClient (new_LLMClient env) = Some None
    | Deepseek \<Rightarrow> lk_openaiClient (new_LLMClient env) = Some (Some ''https://api.deepseek.com/v1'')
    | Anthropic \<Rightarrow> lk_anthropicClient (new_LLMClient env)
    | Gemini \<Rightarrow> lk_geminiClient (new_LLMClient env)
    | Huggingface \<Rightarrow> lk_huggingfaceClient (new_LLMClient env)
    | LocalModel \<Rightarrow> True"
  using assms unfolding llm_isAvailable_def new_LLMClient_def getLLMConfig_def Let_def
  by (cases "env_LLM_PROVIDER env") (auto split: if_splits)

lemma provider_new [simp]: "lk_provider (new_LLMClient env) = env_LLM_PROVIDER env"
  by (simp add: new_LLMClient_def getLLMConfig_def Let_def)

lemma append_to_system_conversation: "append_to_system txt ms = Some ms' \<Longrightarrow> conversation ms' = conversation ms"
  by (induction ms arbitrary: ms') (auto simp: conversation_def split: if_splits)

lemma append_to_system_some:
  "append_to_system t ms = Some ms' \<Longrightarrow>
     \<exists>pre post. map lm_content (filter (\<lambda>m. lm_role m = System) ms') = (pre @ t) # post
       \<and> map lm_content (filter (\<lambda>m. lm_role m = System) ms) = pre # post"
  by (induction ms arbitrary: ms') (auto split: if_splits)

lemma append_to_system_none: "append_to_system t ms = None \<Longrightarrow> filter (\<lambda>m. lm_role m = System) ms = []"
  by (induction ms) (auto split: if_splits)

lemma enhance_conversation: "conversation (enhanceMessagesWithLiveStats ms st) = conversation ms"
  using append_to_system_conversation [of "stats_context st" ms]
  by (auto simp: enhanceMessagesWithLiveStats_def Let_def conversation_def split: option.splits)

lemma str_includes_suffix: "str_includes s p \<Longrightarrow> str_includes (t @ s) p"
  by (induction t) auto

lemma retryable_suffix: "isRetryableError s \<Longrightarrow> isRetryableError (t @ s)"
  using str_includes_suffix [of "toLowerCase s" _ "toLowerCase t"]
  by (auto simp: isRetryableError_def Let_def toLowerCase_def)

lemma huggingface_error_suffix: "\<exists>t. huggingface_error e = t @ e"
  unfolding huggingface_error_def by (auto intro: exI)

lemma huggingface_error_retryable: "isRetryableError e \<Longrightarrow> isRetryableError (huggingface_error e)"
  using huggingface_error_suffix [of e] retryable_suffix by metis


text \<open>Every completion that starts makes one call and settles as its reply does.\<close>

lemma enhanced_conversation: "conversation (enhanced_messages c ms opts) = conversation ms"
  by (simp add: enhanced_messages_def enhance_conversation split: option.split)

lemma one_call:
  assumes "llm_isAvailable (new_LLMClient env)" "conversation messages \<noteq> []"
  shows "\<exists>rq result. try_block w (new_LLMClient env) (enhanced_messages (new_LLMClient env) messages opts) opts = Return ([rq], result)"
  using available_initialized [OF assms(1)] enhanced_conversation assms(2)
  by (cases "env_LLM_PROVIDER env")
     (simp_all add: try_block_def generateOpenAICompletion_def generateAnthropicCompletion_def generateGeminiCompletion_def
        generateHuggingFaceCompletion_def generateLocalCompletion_def Let_def)


section \<open>Properties\<close>

text \<open>
  C32. The retry for transient failures is never reached: the \<open>try\<close> block returns the promise without
  awaiting it. Whatever the provider answers, an available client calls the provider's client exactly
  once, and when that call is rejected with an error that counts as retryable, the caller
  gets an error that still does.
\<close>

theorem llm_error_not_retried:
  assumes "llm_isAvailable (new_LLMClient env)" "isRetryableError err" "conversation messages \<noteq> []"
    and "w = \<lparr>pv_openai = (\<lambda>_. Inl err), pv_anthropic = (\<lambda>_. Inl err), pv_gemini = (\<lambda>_. Inl err),
              pv_huggingface = (\<lambda>_. FetchFails err), pv_local = (\<lambda>_. Inl err)\<rparr>"
  shows "length (fst (generateCompletion w' (new_LLMClient env) messages opts)) = 1
    \<and> (\<exists>err'. snd (generateCompletion w (new_LLMClient env) messages opts) = Inl err' \<and> isRetryableError err')"
proof
  show "length (fst (generateCompletion w' (new_LLMClient env) messages opts)) = 1"
    using assms(1) one_call [OF assms(1,3), of w' opts] by (auto simp: completion_returns)
  note ready = available_initialized [OF assms(1)]
  have conv: "conversation (enhanced_messages (new_LLMClient env) messages opts) \<noteq> []" using assms(3) by (simp add: enhanced_conversation)
  show "\<exists>err'. snd (generateCompletion w (new_LLMClient env) messages opts) = Inl err' \<and> isRetryableError err'"
    using ready conv assms(2) huggingface_error_retryable [OF assms(2)] completion_returns [OF assms(1), of w messages opts]
    unfolding try_block_def provider_new assms(4)
    by (cases "env_LLM_PROVIDER env")
      (simp_all add: generateOpenAICompletion_def generateAnthropicCompletion_def generateGeminiCompletion_def
        generateHuggingFaceCompletion_def generateLocalCompletion_def Let_def)
qed

definition gemini_env :: LlmEnv where
  "gemini_env = \<lparr>env_LLM_PROVIDER = Gemini, env_LLM_API_KEY = Some ''k'', env_LLM_MODEL = ''gemini-pro'',
     env_LLM_ENABLE_LIVE_STATS = False, env_HUGGINGFACE_API_KEY = None\<rparr>"

definition failing_providers :: "string \<Rightarrow> Providers" where
  "failing_providers err = \<lparr>pv_openai = (\<lambda>_. Inl err), pv_anthropic = (\<lambda>_. Inl err), pv_gemini = (\<lambda>_. Inl err),
     pv_huggingface = (\<lambda>_. FetchFails err), pv_local = (\<lambda>_. Inl err)\<rparr>"

definition no_llm_options :: LLMOptions where
  "no_llm_options = \<lparr>lo_temperature = None, lo_maxTokens = None, lo_liveStats = None\<rparr>"

theorem llm_error_not_retried_witness:
  "length (fst (generateCompletion (failing_providers ''503 Service Unavailable'') (new_LLMClient gemini_env)
      [\<lparr>lm_role = User, lm_content = ''hi''\<rparr>] no_llm_options)) = 1
   \<and> (\<exists>err'. snd (generateCompletion (failing_providers ''503 Service Unavailable'') (new_LLMClient gemini_env)
      [\<lparr>lm_role = User, lm_content = ''hi''\<rparr>] no_llm_options) = Inl err' \<and> isRetryableError err')"
proof (rule llm_error_not_retried)
  show "llm_isAvailable (new_LLMClient gemini_env)" by code_simp
  show "isRetryableError ''503 Service Unavailable''" by code_simp
  show "conversation [\<lparr>lm_role = User, lm_content = ''hi''\<rparr>] \<noteq> []" by (simp add: conversation_def)
qed (simp add: failing_providers_def)

text \<open>
  Live statistics reach the model only through the system message: the conversation is unchanged,
  and the system text is the previous one (or the fixed introduction, when there was none) with
  the statistics appended to its first message.
\<close>

theorem live_stats_in_system:
  "conversation (enhanceMessagesWithLiveStats ms stats) = conversation ms
   \<and> (\<exists>pre post. map lm_content (filter (\<lambda>m. lm_role m = System) (enhanceMessagesWithLiveStats ms stats))
        = (pre @ stats_context stats) # post
      \<and> (map lm_content (filter (\<lambda>m. lm_role m = System) ms) = pre # post
         \<or> filter (\<lambda>m. lm_role m = System) ms = [] \<and> post = []))"
proof -
  show ?thesis
  proof (cases "append_to_system (stats_context stats) ms")
    case None
    with append_to_system_none [OF None] show ?thesis
      by (simp add: enhance_conversation) (simp add: enhanceMessagesWithLiveStats_def)
  next
    case (Some ms')
    with append_to_system_some [OF Some] show ?thesis
      by (simp add: enhance_conversation) (auto simp: enhanceMessagesWithLiveStats_def)
  qed
qed

end
