(* ===== verification/Explanation_Service.thy ===== *)
theory Explanation_Service
  imports Simple_Cache "HOL-Library.Multiset"
begin

text \<open>
  Model of the request handling of \<open>llm/explanation-service.ts\<close>: \<open>explain\<close> with its response
  cache and its map of pending requests. Several calls are in progress at a time, so the service
  is a machine: an event is a call, the end of one execution, or the periodic clean-up. The text
  an execution returns is an argument of its end. The theory shows that a caller only ever gets
  the result of an execution for its own query and options, that at most one execution runs per
  query, and that every call is answered once.
\<close>

section \<open>Recognising queries\<close>

text \<open>\<open>/\{\s*\w+\s*\(/\<close> at a position.\<close>

definition call_at :: "string \<Rightarrow> bool" where
  "call_at s \<longleftrightarrow> s \<noteq> [] \<and> hd s = CHR ''{''
     \<and> (let r = dropWhile is_ws (tl s)
        in takeWhile is_word r \<noteq> [] \<and> startsWith (dropWhile is_ws (dropWhile is_word r)) ''('')"

text \<open>\<open>/query\s+|mutation\s+|subscription\s+/i\<close> at a position.\<close>

definition keyword_at :: "string \<Rightarrow> bool" where
  "keyword_at s \<longleftrightarrow> list_ex (\<lambda>w. startsWith (toLowerCase s) w \<and> drop (length w) s \<noteq> [] \<and> is_ws (hd (drop (length w) s)))
     [''query'', ''mutation'', ''subscription'']"

fun matches_somewhere :: "(string \<Rightarrow> bool) \<Rightarrow> string \<Rightarrow> bool" where
  "matches_somewhere p [] \<longleftrightarrow> p []"
| "matches_somewhere p (c # s) \<longleftrightarrow> p (c # s) \<or> matches_somewhere p s"

definition looksLikeQuery :: "string \<Rightarrow> bool" where
  "looksLikeQuery trimmedQuery \<longleftrightarrow> startsWith trimmedQuery ''{''
     \<or> matches_somewhere call_at trimmedQuery \<or> matches_somewhere keyword_at trimmedQuery"


section \<open>The service\<close>

record ExplanationResult =
  er_explanation :: string
  er_query :: string
  er_contextChunksUsed :: nat
  er_liveStatsIncluded :: bool

type_synonym options = "(string \<times> json) list"

text \<open>A call: who made it, its query as given, and its options.\<close>

record Request =
  rq_caller :: nat
  rq_query :: string
  rq_options :: options

text \<open>An execution of \<open>executeExplain\<close> in progress: the call that started it, and all calls that wait for it.\<close>

record Execution =
  xe_id :: nat
  xe_request :: Request
  xe_waiting :: "Request list"

text \<open>
  The fields \<open>ex_answers\<close> and \<open>ex_finished\<close> record what the callers got and which executions
  returned a result; the class does not store them.
\<close>

record ExplanationService =
  ex_cache :: "ExplanationResult SimpleCache"
  ex_pending :: "(string \<times> nat) list"
  ex_running :: "Execution list"
  ex_next :: nat
  ex_answers :: "(Request \<times> (string + ExplanationResult)) list"
  ex_finished :: "(Request \<times> ExplanationResult) list"

definition new_ExplanationService :: ExplanationService where
  "new_ExplanationService = \<lparr>ex_cache = new_SimpleCache (Some 3600000), ex_pending = [], ex_running = [],
     ex_next = 0, ex_answers = [], ex_finished = []\<rparr>"

definition pendingKey :: "Request \<Rightarrow> string" where
  "pendingKey rq = stringify (JObj [(''query'', JStr (trim (rq_query rq))), (''options'', JObj (rq_options rq))])"

text \<open>The options object given to the cache: \<open>{ options }\<close>.\<close>

definition cacheOptions :: "Request \<Rightarrow> json option" where
  "cacheOptions rq = Some (JObj [(''options'', JObj (rq_options rq))])"

definition cacheable :: "Request \<Rightarrow> bool" where
  "cacheable rq \<longleftrightarrow> looksLikeQuery (trim (rq_query rq))"

definition answer :: "Request \<Rightarrow> string + ExplanationResult \<Rightarrow> ExplanationService \<Rightarrow> ExplanationService" where
  "answer rq a st = st\<lparr>ex_answers := ex_answers st @ [(rq, a)]\<rparr>"

definition start_execution :: "Request \<Rightarrow> ExplanationService \<Rightarrow> ExplanationService" where
  "start_execution rq st =
     st\<lparr>ex_running := ex_running st @ [\<lparr>xe_id = ex_next st, xe_request = rq, xe_waiting = [rq]\<rparr>],
        ex_next := ex_next st + 1,
        ex_pending := (if cacheable rq then AList.update (pendingKey rq) (ex_next st) (ex_pending st) else ex_pending st)\<rparr>"

definition join_execution :: "nat \<Rightarrow> Request \<Rightarrow> ExplanationService \<Rightarrow> ExplanationService" where
  "join_execution rid rq st =
     st\<lparr>ex_running := map (\<lambda>e. if xe_id e = rid then e\<lparr>xe_waiting := xe_waiting e @ [rq]\<rparr> else e) (ex_running st)\<rparr>"

text \<open>\<open>explain\<close> up to its answer or its wait.\<close>

definition explain :: "Request \<Rightarrow> int \<Rightarrow> ExplanationService \<Rightarrow> ExplanationService" where
  "explain rq now st =
     (if cacheable rq
      then (let (cached, c) = cache_get (ex_cache st) now (trim (rq_query rq)) (cacheOptions rq); st' = st\<lparr>ex_cache := c\<rparr>
            in case cached of
                 Some r \<Rightarrow> answer rq (Inr r) st'
               | None \<Rightarrow>
                   (case map_of (ex_pending st') (pendingKey rq) of
                      Some rid \<Rightarrow> join_execution rid rq st'
                    | None \<Rightarrow> start_execution rq st'))
      else start_execution rq st)"

text \<open>The end of an execution: the starter's continuation, and the answers to everyone who waited.\<close>

definition finish :: "nat \<Rightarrow> string + ExplanationResult \<Rightarrow> int \<Rightarrow> ExplanationService \<Rightarrow> ExplanationService" where
  "finish rid result now st =
     (case find (\<lambda>e. xe_id e = rid) (ex_running st) of
        None \<Rightarrow> st
      | Some e \<Rightarrow>
          (let rq = xe_request e;
               st1 = st\<lparr>ex_running := filter (\<lambda>e'. xe_id e' \<noteq> rid) (ex_running st),
                        ex_answers := ex_answers st @ map (\<lambda>w. (w, result)) (xe_waiting e)\<rparr>
           in case result of
                Inr r \<Rightarrow>
                  (let st2 = st1\<lparr>ex_finished := ex_finished st @ [(rq, r)]\<rparr>
                   in if cacheable rq
                      then st2\<lparr>ex_cache := cache_set (ex_cache st) now (trim (rq_query rq)) r (cacheOptions rq) None,
                               ex_pending := AList.delete (pendingKey rq) (ex_pending st)\<rparr>
                      else st2)
              | Inl err \<Rightarrow> st1\<lparr>ex_pending := AList.delete (pendingKey rq) (ex_pending st)\<rparr>))"

datatype explain_event =
    Call Request int
  | Finish nat "string + ExplanationResult" int
  | CleanUp int

fun explain_step :: "explain_event \<Rightarrow> ExplanationService \<Rightarrow> ExplanationService" where
  "explain_step (Call rq now) st = explain rq now st"
| "explain_step (Finish rid result now) st = finish rid result now st"
| "explain_step (CleanUp now) st = st\<lparr>ex_cache := clearExpired (ex_cache st) now\<rparr>"

fun calls :: "explain_event list \<Rightarrow> Request list" where
  "calls [] = []"
| "calls (Call rq now # es) = rq # calls es"
| "calls (e # es) = calls es"

text \<open>The states after a sequence of events, with the calls made.\<close>

inductive explain_reachable :: "Request list \<Rightarrow> ExplanationService \<Rightarrow> bool" where
  created: "explain_reachable [] new_ExplanationService"
| step: "explain_reachable rs st \<Longrightarrow> explain_reachable (rs @ calls [ev]) (explain_step ev st)"


section \<open>Keys\<close>

text \<open>Requests with the same query up to surrounding white space and the same text of the options.\<close>

definition same_request :: "Request \<Rightarrow> Request \<Rightarrow> bool" where
  "same_request a b \<longleftrightarrow> trim (rq_query a) = trim (rq_query b)
     \<and> stringify (JObj (rq_options a)) = stringify (JObj (rq_options b))"

lemma pendingKey_same: "pendingKey a = pendingKey b \<longleftrightarrow> same_request a b"
proof
  assume "pendingKey a = pendingKey b"
  then have "json_quote (trim (rq_query a)) @ ('','' @ json_quote ''options'' @ '':'' @ stringify (JObj (rq_options a)) @ ''}'')
      = json_quote (trim (rq_query b)) @ ('','' @ json_quote ''options'' @ '':'' @ stringify (JObj (rq_options b)) @ ''}'')"
    by (simp add: pendingKey_def)
  from json_quote_prefix [OF this] show "same_request a b"
    by (simp add: same_request_def)
next
  assume "same_request a b"
  then show "pendingKey a = pendingKey b"
    unfolding pendingKey_def stringify.simps(6) [of "[_, _]"] by (simp add: same_request_def)
qed

lemma cacheKey_same:
  "generateKey (trim (rq_query a)) (cacheOptions a) = generateKey (trim (rq_query b)) (cacheOptions b) \<longleftrightarrow> same_request a b"
proof
  assume "generateKey (trim (rq_query a)) (cacheOptions a) = generateKey (trim (rq_query b)) (cacheOptions b)"
  then have "trim (rq_query a) = trim (rq_query b)
      \<and> map_option stringify (cacheOptions a) = map_option stringify (cacheOptions b)"
    by (rule generateKey_text) (simp_all add: cacheOptions_def)
  then show "same_request a b" by (simp add: cacheOptions_def same_request_def)
next
  assume "same_request a b"
  then show "generateKey (trim (rq_query a)) (cacheOptions a) = generateKey (trim (rq_query b)) (cacheOptions b)"
    unfolding generateKey_def cacheOptions_def by (simp add: same_request_def)
qed

lemma same_request_refl [simp]: "same_request a a"
  by (simp add: same_request_def)

lemma same_request_trans: "same_request a b \<Longrightarrow> same_request b c \<Longrightarrow> same_request a c"
  by (simp add: same_request_def)

lemma same_request_sym: "same_request a b \<Longrightarrow> same_request b a"
  by (simp add: same_request_def)

lemma same_request_cacheable: "same_request a b \<Longrightarrow> cacheable a \<longleftrightarrow> cacheable b"
  by (simp add: same_request_def cacheable_def)


section \<open>Invariants\<close>

definition running_ok :: "ExplanationService \<Rightarrow> bool" where
  "running_ok st \<longleftrightarrow> distinct (map xe_id (ex_running st)) \<and> (\<forall>e \<in> set (ex_running st). xe_id e < ex_next st)"

text \<open>The map of pending requests holds exactly the running executions of queries.\<close>

definition pending_ok :: "ExplanationService \<Rightarrow> bool" where
  "pending_ok st \<longleftrightarrow> distinct (map fst (ex_pending st)) \<and>
     (\<forall>k rid. (k, rid) \<in> set (ex_pending st) \<longleftrightarrow>
        (\<exists>e \<in> set (ex_running st). xe_id e = rid \<and> cacheable (xe_request e) \<and> pendingKey (xe_request e) = k))"

definition from_finished :: "(Request \<times> ExplanationResult) list \<Rightarrow> Request \<Rightarrow> ExplanationResult \<Rightarrow> bool" where
  "from_finished fin rq r \<longleftrightarrow> (\<exists>rq'. (rq', r) \<in> set fin \<and> same_request rq rq')"

definition waiting_ok :: "ExplanationService \<Rightarrow> bool" where
  "waiting_ok st \<longleftrightarrow> (\<forall>e \<in> set (ex_running st). \<forall>w \<in> set (xe_waiting e). same_request w (xe_request e))"

definition cache_ok :: "ExplanationService \<Rightarrow> bool" where
  "cache_ok st \<longleftrightarrow> (\<forall>k entry. (k, entry) \<in> set (sc_cache (ex_cache st)) \<longrightarrow>
     (\<exists>rq. (rq, ce_data entry) \<in> set (ex_finished st) \<and> k = generateKey (trim (rq_query rq)) (cacheOptions rq)))"

definition answers_ok :: "ExplanationService \<Rightarrow> bool" where
  "answers_ok st \<longleftrightarrow> (\<forall>rq r. (rq, Inr r) \<in> set (ex_answers st) \<longrightarrow> from_finished (ex_finished st) rq r)"

definition accounted :: "Request list \<Rightarrow> ExplanationService \<Rightarrow> bool" where
  "accounted rs st \<longleftrightarrow> mset rs = mset (map fst (ex_answers st)) + mset (concat (map xe_waiting (ex_running st)))"

definition explain_inv :: "Request list \<Rightarrow> ExplanationService \<Rightarrow> bool" where
  "explain_inv rs st \<longleftrightarrow> running_ok st \<and> pending_ok st \<and> waiting_ok st \<and> cache_ok st \<and> answers_ok st \<and> accounted rs st"

lemmas explain_inv_defs = explain_inv_def running_ok_def pending_ok_def waiting_ok_def cache_ok_def answers_ok_def accounted_def

lemma inv_new: "explain_inv [] new_ExplanationService"
  by (simp add: explain_inv_defs new_ExplanationService_def new_SimpleCache_def)

text \<open>A smaller cache and a clean-up.\<close>

lemma inv_smaller_cache:
  assumes "explain_inv rs st" "set (sc_cache c) \<subseteq> set (sc_cache (ex_cache st))"
  shows "explain_inv rs (st\<lparr>ex_cache := c\<rparr>)"
  using assms unfolding explain_inv_defs by (auto simp: subset_iff)

lemma get_subset: "set (sc_cache (snd (cache_get c now q opts))) \<subseteq> set (sc_cache c)"
  by (auto simp: cache_get_def Let_def AList.delete_eq split: option.splits)

lemma clearExpired_subset: "set (sc_cache (clearExpired c now)) \<subseteq> set (sc_cache c)"
  by (auto simp: clearExpired_def)

lemma get_hit_entry:
  "fst (cache_get c now q opts) = Some r \<Longrightarrow> \<exists>entry. (generateKey q opts, entry) \<in> set (sc_cache c) \<and> ce_data entry = r"
  by (auto simp: cache_get_def Let_def dest: map_of_SomeD split: option.splits if_splits)

lemma hit_from_finished:
  assumes "cache_ok st" "fst (cache_get (ex_cache st) now (trim (rq_query rq)) (cacheOptions rq)) = Some r"
  shows "from_finished (ex_finished st) rq r"
proof -
  obtain entry where "(generateKey (trim (rq_query rq)) (cacheOptions rq), entry) \<in> set (sc_cache (ex_cache st))" "ce_data entry = r"
    using get_hit_entry [OF assms(2)] by blast
  with assms(1) obtain rq' where "(rq', r) \<in> set (ex_finished st)"
      "generateKey (trim (rq_query rq)) (cacheOptions rq) = generateKey (trim (rq_query rq')) (cacheOptions rq')"
    unfolding cache_ok_def by blast
  then show ?thesis unfolding from_finished_def by (auto simp: cacheKey_same)
qed

lemma inv_answer:
  assumes "explain_inv rs st" "from_finished (ex_finished st) rq r"
  shows "explain_inv (rs @ [rq]) (answer rq (Inr r) st)"
  using assms unfolding explain_inv_defs answer_def by auto

lemma pending_start:
  assumes ok: "pending_ok st" "running_ok st" and new: "cacheable rq \<Longrightarrow> map_of (ex_pending st) (pendingKey rq) = None"
  shows "pending_ok (start_execution rq st)"
proof (cases "cacheable rq")
  case True
  then have "pendingKey rq \<notin> fst ` set (ex_pending st)" using new by (simp add: map_of_eq_None_iff)
  with True ok show ?thesis
    unfolding pending_ok_def start_execution_def by (auto simp: update_fresh)
next
  case False
  with ok(1) show ?thesis by (simp add: pending_ok_def start_execution_def)
qed

lemma inv_start:
  assumes inv: "explain_inv rs st" and new: "cacheable rq \<Longrightarrow> map_of (ex_pending st) (pendingKey rq) = None"
  shows "explain_inv (rs @ [rq]) (start_execution rq st)"
proof -
  have "running_ok (start_execution rq st)" "waiting_ok (start_execution rq st)" "cache_ok (start_execution rq st)"
      "answers_ok (start_execution rq st)" "accounted (rs @ [rq]) (start_execution rq st)"
    using inv unfolding explain_inv_defs start_execution_def by (auto simp: less_SucI)
  moreover have "pending_ok (start_execution rq st)"
    using pending_start [OF _ _ new] inv unfolding explain_inv_def by blast
  ultimately show ?thesis by (simp add: explain_inv_def)
qed

lemma join_waiting:
  assumes "distinct (map xe_id es)" "e \<in> set es"
  shows "mset (concat (map xe_waiting (map (\<lambda>x. if xe_id x = xe_id e then x\<lparr>xe_waiting := xe_waiting x @ [rq]\<rparr> else x) es)))
    = mset (concat (map xe_waiting es)) + {#rq#}"
  using assms
proof (induction es)
  case (Cons x es)
  show ?case
  proof (cases "x = e")
    case True
    have "xe_id e \<notin> xe_id ` set es" using True Cons.prems(1) by simp
    then have "xe_id y \<noteq> xe_id e" if "y \<in> set es" for y using that by (metis imageI)
    then have "map (\<lambda>x. if xe_id x = xe_id e then x\<lparr>xe_waiting := xe_waiting x @ [rq]\<rparr> else x) es = es"
      by (simp add: map_idI)
    with True show ?thesis by simp
  next
    case False
    then have "e \<in> set es" "xe_id x \<noteq> xe_id e" using Cons.prems by auto
    with Cons show ?thesis by simp
  qed
qed simp

lemma inv_join:
  assumes inv: "explain_inv rs st" and pend: "map_of (ex_pending st) (pendingKey rq) = Some rid"
  shows "explain_inv (rs @ [rq]) (join_execution rid rq st)"
proof -
  define f where "f = (\<lambda>e :: Execution. if xe_id e = rid then e\<lparr>xe_waiting := xe_waiting e @ [rq]\<rparr> else e)"
  have keep [simp]: "xe_id (f e) = xe_id e" "xe_request (f e) = xe_request e" for e by (simp_all add: f_def)
  have ids: "map xe_id (map f es) = map xe_id es" for es by simp
  have st': "join_execution rid rq st = st\<lparr>ex_running := map f (ex_running st)\<rparr>"
    by (simp add: join_execution_def f_def)
  obtain e where e: "e \<in> set (ex_running st)" "xe_id e = rid" "pendingKey (xe_request e) = pendingKey rq"
    using inv map_of_SomeD [OF pend] unfolding explain_inv_def pending_ok_def by blast
  have d: "distinct (map xe_id (ex_running st))" using inv unfolding explain_inv_def running_ok_def by blast
  have "same_request w (xe_request x)" if "x \<in> set (ex_running st)" "w \<in> set (xe_waiting (f x))" for x w
  proof (cases "w = rq \<and> xe_id x = rid")
    case True
    then have "x = e" using that e d by (auto simp: distinct_map dest: inj_onD)
    then show ?thesis using e(3) True pendingKey_same by metis
  next
    case False
    then have "w \<in> set (xe_waiting x)" using that(2) by (auto simp: f_def split: if_splits)
    then show ?thesis using inv that(1) by (simp add: explain_inv_def waiting_ok_def)
  qed
  then have "waiting_ok (st\<lparr>ex_running := map f (ex_running st)\<rparr>)" by (simp add: waiting_ok_def)
  moreover have "accounted (rs @ [rq]) (st\<lparr>ex_running := map f (ex_running st)\<rparr>)"
    using inv join_waiting [OF d e(1), of rq] e(2) unfolding explain_inv_def accounted_def
    by (simp add: f_def del: map_map)
  moreover have "running_ok (st\<lparr>ex_running := map f (ex_running st)\<rparr>)"
    using inv unfolding explain_inv_def running_ok_def by (simp add: ids del: map_map)
  moreover have "pending_ok (st\<lparr>ex_running := map f (ex_running st)\<rparr>)"
    using inv unfolding explain_inv_def pending_ok_def by simp
  ultimately show ?thesis
    using inv unfolding st' by (simp add: explain_inv_def cache_ok_def answers_ok_def)
qed

lemma inv_explain:
  assumes "explain_inv rs st"
  shows "explain_inv (rs @ [rq]) (explain rq now st)"
proof -
  obtain cached c where get: "cache_get (ex_cache st) now (trim (rq_query rq)) (cacheOptions rq) = (cached, c)"
    by (cases "cache_get (ex_cache st) now (trim (rq_query rq)) (cacheOptions rq)")
  have inv': "explain_inv rs (st\<lparr>ex_cache := c\<rparr>)"
    using inv_smaller_cache [OF assms] get_subset [of "ex_cache st" now "trim (rq_query rq)" "cacheOptions rq"] get by simp
  have "from_finished (ex_finished st) rq r" if "cached = Some r" for r
    using hit_from_finished [of st now rq r] assms that get by (simp add: explain_inv_def)
  with get inv' assms show ?thesis
    by (auto simp: explain_def Let_def split: option.splits intro!: inv_answer inv_join inv_start)
qed

lemma remove_waiting:
  assumes "distinct (map xe_id es)" "e \<in> set es"
  shows "mset (concat (map xe_waiting es))
    = mset (xe_waiting e) + mset (concat (map xe_waiting (filter (\<lambda>x. xe_id x \<noteq> xe_id e) es)))"
  using assms
proof (induction es)
  case (Cons x es)
  show ?case
  proof (cases "x = e")
    case True
    have "xe_id e \<notin> xe_id ` set es" using True Cons.prems(1) by simp
    then have "xe_id y \<noteq> xe_id e" if "y \<in> set es" for y using that by (metis imageI)
    then have "filter (\<lambda>x. xe_id x \<noteq> xe_id e) es = es" by (simp add: filter_id_conv)
    with True show ?thesis by simp
  next
    case False
    then have "e \<in> set es" "xe_id x \<noteq> xe_id e" using Cons.prems by auto
    with Cons show ?thesis by simp
  qed
qed simp

lemma same_id: "running_ok st \<Longrightarrow> e \<in> set (ex_running st) \<Longrightarrow> e' \<in> set (ex_running st) \<Longrightarrow> xe_id e = xe_id e' \<Longrightarrow> e = e'"
  by (auto simp: running_ok_def distinct_map dest: inj_onD)

lemma same_key:
  assumes ok: "pending_ok st" "running_ok st"
    and e: "e \<in> set (ex_running st)" "cacheable (xe_request e)"
    and e': "e' \<in> set (ex_running st)" "same_request (xe_request e) (xe_request e')"
  shows "e = e'"
proof -
  have "(pendingKey (xe_request e), xe_id e) \<in> set (ex_pending st)"
    using ok(1) e unfolding pending_ok_def by blast
  moreover have "(pendingKey (xe_request e'), xe_id e') \<in> set (ex_pending st)"
    using ok(1) e(2) e' same_request_cacheable [OF e'(2)] unfolding pending_ok_def by blast
  moreover have "pendingKey (xe_request e) = pendingKey (xe_request e')" using e'(2) by (simp add: pendingKey_same)
  ultimately have "xe_id e = xe_id e'" using ok(1) unfolding pending_ok_def by (metis eq_key_imp_eq_value)
  then show ?thesis using same_id [OF ok(2)] e(1) e'(1) by blast
qed

lemma set_delete: "set (AList.delete k al) = {p \<in> set al. fst p \<noteq> k}"
  by (auto simp: AList.delete_eq)

lemma pending_delete:
  assumes ok: "pending_ok st" "running_ok st" and e: "e \<in> set (ex_running st)"
  shows "pending_ok (st\<lparr>ex_running := filter (\<lambda>x. xe_id x \<noteq> xe_id e) (ex_running st),
    ex_pending := AList.delete (pendingKey (xe_request e)) (ex_pending st)\<rparr>)"
proof -
  have other: "xe_id x \<noteq> xe_id e \<longleftrightarrow> pendingKey (xe_request x) \<noteq> pendingKey (xe_request e)"
    if "x \<in> set (ex_running st)" "cacheable (xe_request x)" for x
  proof
    assume "xe_id x \<noteq> xe_id e"
    then show "pendingKey (xe_request x) \<noteq> pendingKey (xe_request e)"
      using same_key [OF ok that e] unfolding pendingKey_same by blast
  next
    assume "pendingKey (xe_request x) \<noteq> pendingKey (xe_request e)"
    then show "xe_id x \<noteq> xe_id e" using same_id [OF ok(2) that(1) e] by blast
  qed
  have pend: "p \<in> set (ex_pending st) \<longleftrightarrow>
      (\<exists>x \<in> set (ex_running st). xe_id x = snd p \<and> cacheable (xe_request x) \<and> pendingKey (xe_request x) = fst p)" for p
    using ok(1) unfolding pending_ok_def by (cases p) simp
  have main: "p \<in> set (ex_pending st) \<and> fst p \<noteq> pendingKey (xe_request e) \<longleftrightarrow>
      (\<exists>x \<in> set (filter (\<lambda>x. xe_id x \<noteq> xe_id e) (ex_running st)).
        xe_id x = snd p \<and> cacheable (xe_request x) \<and> pendingKey (xe_request x) = fst p)" for p
    using pend [of p] by auto (metis other)+
  have "(k, rid) \<in> set (AList.delete (pendingKey (xe_request e)) (ex_pending st)) \<longleftrightarrow>
      (\<exists>x \<in> set (filter (\<lambda>x. xe_id x \<noteq> xe_id e) (ex_running st)).
        xe_id x = rid \<and> cacheable (xe_request x) \<and> pendingKey (xe_request x) = k)" for k rid
    using main [of "(k, rid)"] by (simp add: set_delete)
  then show ?thesis
    using ok(1) by (simp add: pending_ok_def distinct_delete)
qed

lemma delete_question:
  assumes "pending_ok st" "\<not> cacheable rq"
  shows "AList.delete (pendingKey rq) (ex_pending st) = ex_pending st"
proof (rule delete_id, rule notI)
  assume "pendingKey rq \<in> fst ` set (ex_pending st)"
  then obtain rid where "(pendingKey rq, rid) \<in> set (ex_pending st)" by auto
  then obtain e :: Execution where "cacheable (xe_request e)" "pendingKey (xe_request e) = pendingKey rq"
    using assms(1) unfolding pending_ok_def by blast
  then show False using assms(2) same_request_cacheable [of "xe_request e" rq] by (simp add: pendingKey_same)
qed

text \<open>The state after an execution, with the two outcomes brought to one form.\<close>

definition finished_cache :: "Request \<Rightarrow> string + ExplanationResult \<Rightarrow> int \<Rightarrow> ExplanationResult SimpleCache \<Rightarrow> ExplanationResult SimpleCache" where
  "finished_cache rq result now c =
     (case result of Inl err \<Rightarrow> c
      | Inr r \<Rightarrow> if cacheable rq then cache_set c now (trim (rq_query rq)) r (cacheOptions rq) None else c)"

lemma finish_eq:
  assumes ok: "pending_ok st" "running_ok st" and e: "e \<in> set (ex_running st)"
  shows "finish (xe_id e) result now st = st\<lparr>
    ex_running := filter (\<lambda>x. xe_id x \<noteq> xe_id e) (ex_running st),
    ex_answers := ex_answers st @ map (\<lambda>w. (w, result)) (xe_waiting e),
    ex_finished := ex_finished st @ (case result of Inl err \<Rightarrow> [] | Inr r \<Rightarrow> [(xe_request e, r)]),
    ex_cache := finished_cache (xe_request e) result now (ex_cache st),
    ex_pending := AList.delete (pendingKey (xe_request e)) (ex_pending st)\<rparr>"
proof -
  have "find (\<lambda>x. xe_id x = xe_id e) (ex_running st) = Some e"
  proof (cases "find (\<lambda>x. xe_id x = xe_id e) (ex_running st)")
    case None
    then show ?thesis using e by (auto simp: find_None_iff)
  next
    case (Some x)
    then have "x \<in> set (ex_running st)" "xe_id x = xe_id e" by (auto simp: find_Some_iff)
    then show ?thesis using Some same_id [OF ok(2) _ e] by simp
  qed
  then show ?thesis
    using delete_question [OF ok(1), of "xe_request e"]
    by (cases result) (auto simp: finish_def Let_def finished_cache_def)
qed

lemma update_member: "(k', v') \<in> set (AList.update k v al) \<Longrightarrow> k' = k \<and> v' = v \<or> (k', v') \<in> set al"
  by (induction al) (auto split: if_splits)

lemma cache_finished:
  assumes "cache_ok st"
  shows "cache_ok (st\<lparr>ex_cache := finished_cache rq result now (ex_cache st),
    ex_finished := ex_finished st @ (case result of Inl err \<Rightarrow> [] | Inr r \<Rightarrow> [(rq, r)])\<rparr>)"
  using assms unfolding cache_ok_def finished_cache_def cache_set_def
  by (auto dest!: update_member split: sum.splits if_splits)

lemma inv_finish:
  assumes inv: "explain_inv rs st"
  shows "explain_inv rs (finish rid result now st)"
proof (cases "find (\<lambda>e. xe_id e = rid) (ex_running st)")
  case None
  then show ?thesis using inv by (simp add: finish_def)
next
  case (Some e)
  then have e: "e \<in> set (ex_running st)" "xe_id e = rid" by (auto simp: find_Some_iff)
  have ok: "pending_ok st" "running_ok st" using inv by (simp_all add: explain_inv_def)
  let ?st = "finish (xe_id e) result now st"
  have "pending_ok ?st"
    using pending_delete [OF ok e(1)] unfolding finish_eq [OF ok e(1)] pending_ok_def by simp
  moreover have "running_ok ?st"
    using ok(2) unfolding finish_eq [OF ok e(1)] running_ok_def by (simp add: distinct_map_filter)
  moreover have "waiting_ok ?st"
    using inv unfolding finish_eq [OF ok e(1)] explain_inv_def waiting_ok_def by simp
  moreover have "cache_ok ?st"
    using cache_finished [of st "xe_request e" result now] inv
    unfolding finish_eq [OF ok e(1)] explain_inv_def cache_ok_def by simp
  moreover have "answers_ok ?st"
    using inv e(1) unfolding finish_eq [OF ok e(1)] explain_inv_def answers_ok_def waiting_ok_def from_finished_def
    by (auto split: sum.splits) blast+
  moreover have "accounted rs ?st"
    using inv remove_waiting [OF _ e(1)] ok(2)
    unfolding finish_eq [OF ok e(1)] explain_inv_def accounted_def running_ok_def by (simp add: comp_def)
  ultimately show ?thesis using e(2) by (simp add: explain_inv_def)
qed

lemma inv_reachable: "explain_reachable rs st \<Longrightarrow> explain_inv rs st"
proof (induction rule: explain_reachable.induct)
  case created
  then show ?case by (rule inv_new)
next
  case (step rs st ev)
  then show ?case
    by (cases ev) (auto simp: inv_explain inv_finish intro!: inv_smaller_cache clearExpired_subset)
qed


lemma reachable_ttl: "explain_reachable rs st \<Longrightarrow> sc_defaultTTL (ex_cache st) = 3600000"
proof (induction rule: explain_reachable.induct)
  case created
  then show ?case by (simp add: new_ExplanationService_def new_SimpleCache_def)
next
  case (step rs st ev)
  have get: "sc_defaultTTL (snd (cache_get c now q opts)) = sc_defaultTTL c" for c :: "ExplanationResult SimpleCache" and now q opts
    using step_defaultTTL [of c now "OpGet q opts"] by simp
  have "sc_defaultTTL (ex_cache (explain rq now st)) = sc_defaultTTL (ex_cache st)" for rq now
    using get [of "ex_cache st" now "trim (rq_query rq)" "cacheOptions rq"]
    by (auto simp: explain_def answer_def start_execution_def join_execution_def Let_def split: prod.splits option.splits)
  moreover have "sc_defaultTTL (ex_cache (finish rid result now st)) = sc_defaultTTL (ex_cache st)" for rid result now
    by (auto simp: finish_def cache_set_def Let_def split: option.splits sum.splits)
  ultimately show ?case using step.IH by (cases ev) (simp_all add: clearExpired_def)
qed

text \<open>Running executions to their end.\<close>

fun drain :: "(nat \<times> (string + ExplanationResult)) list \<Rightarrow> int \<Rightarrow> ExplanationService \<Rightarrow> ExplanationService" where
  "drain [] now st = st"
| "drain ((rid, result) # rest) now st = drain rest now (finish rid result now st)"

lemma running_finish: "ex_running (finish rid result now st) = filter (\<lambda>e. xe_id e \<noteq> rid) (ex_running st)"
proof (cases "find (\<lambda>e. xe_id e = rid) (ex_running st)")
  case None
  then have "filter (\<lambda>e. xe_id e \<noteq> rid) (ex_running st) = ex_running st" by (auto simp: find_None_iff filter_id_conv)
  with None show ?thesis by (simp add: finish_def)
next
  case (Some e)
  then show ?thesis by (auto simp: finish_def Let_def split: sum.splits)
qed

lemma running_drain: "ex_running (drain fs now st) = filter (\<lambda>e. xe_id e \<notin> fst ` set fs) (ex_running st)"
  by (induction fs now st rule: drain.induct) (auto simp: running_finish intro!: filter_cong)

lemma inv_drain: "explain_inv rs st \<Longrightarrow> explain_inv rs (drain fs now st)"
  by (induction fs now st rule: drain.induct) (simp_all add: inv_finish)

text \<open>The cache answers a finished query for an hour.\<close>

lemma cached_answer:
  assumes "explain_reachable rs st" "e \<in> set (ex_running st)" "cacheable (xe_request e)"
    and "pendingKey rq = pendingKey (xe_request e)" "later \<le> now + 3600000"
    and st': "st' = finish (xe_id e) (Inr r) now st"
  shows "ex_answers (explain rq later st') = ex_answers st' @ [(rq, Inr r)] \<and> ex_running (explain rq later st') = ex_running st'"
proof -
  have ok: "pending_ok st" "running_ok st" using inv_reachable [OF assms(1)] by (simp_all add: explain_inv_def)
  have same: "same_request rq (xe_request e)" using assms(4) by (simp add: pendingKey_same)
  have ttl: "sc_defaultTTL (ex_cache st) = 3600000" using reachable_ttl [OF assms(1)] .
  let ?c = "cache_set (ex_cache st) now (trim (rq_query (xe_request e))) r (cacheOptions (xe_request e)) None"
  have key: "generateKey (trim (rq_query rq)) (cacheOptions rq)
      = generateKey (trim (rq_query (xe_request e))) (cacheOptions (xe_request e))"
    using same by (simp add: cacheKey_same)
  have hit: "fst (cache_get ?c later (trim (rq_query rq)) (cacheOptions rq)) = Some r"
    using sc.hit_after_put [of later now "ex_cache st" "(trim (rq_query (xe_request e)), cacheOptions (xe_request e))" r] assms(5) ttl
    unfolding live_get key by (simp add: get_pair_def set_pair_def live_get)
  have "cacheable rq" using assms(3) same_request_cacheable [OF same] by simp
  with hit assms(3) show ?thesis
    unfolding st' finish_eq [OF ok assms(2)]
    by (auto simp: explain_def finished_cache_def answer_def Let_def split: prod.splits)
qed


section \<open>Properties\<close>

text \<open>
  C4. A caller never gets somebody else's explanation: whatever the interleaving of calls, ends of
  executions and clean-ups, every result handed to a caller was computed by an execution for the
  same query (up to surrounding white space) and the same options.
\<close>

theorem explain_own_result:
  assumes "explain_reachable rs st" "(rq, Inr r) \<in> set (ex_answers st)"
  shows "\<exists>rq'. (rq', r) \<in> set (ex_finished st) \<and> trim (rq_query rq') = trim (rq_query rq)
    \<and> stringify (JObj (rq_options rq')) = stringify (JObj (rq_options rq))"
proof -
  have "answers_ok st" using inv_reachable [OF assms(1)] by (simp add: explain_inv_def)
  then have "from_finished (ex_finished st) rq r" using assms(2) by (simp add: answers_ok_def)
  then show ?thesis unfolding from_finished_def same_request_def by metis
qed

definition sample_request :: Request where
  "sample_request = \<lparr>rq_caller = 1, rq_query = ''{ a }'', rq_options = []\<rparr>"

definition padded_request :: Request where
  "padded_request = \<lparr>rq_caller = 2, rq_query = '' { a } '', rq_options = []\<rparr>"

definition sample_result :: ExplanationResult where
  "sample_result = \<lparr>er_explanation = ''x'', er_query = ''{ a }'', er_contextChunksUsed = 0, er_liveStatsIncluded = False\<rparr>"

definition sample_joined :: ExplanationService where
  "sample_joined = explain_step (Call padded_request 1) (explain_step (Call sample_request 0) new_ExplanationService)"

definition sample_done :: ExplanationService where
  "sample_done = explain_step (Finish 0 (Inr sample_result) 2) sample_joined"

lemma sample_reachable:
  "explain_reachable [sample_request, padded_request] sample_joined"
  "explain_reachable [sample_request, padded_request] sample_done"
proof -
  show j: "explain_reachable [sample_request, padded_request] sample_joined"
    using step [OF step [OF created, of "Call sample_request 0"], of "Call padded_request 1"] by (simp add: sample_joined_def)
  show "explain_reachable [sample_request, padded_request] sample_done"
    using step [OF j, of "Finish 0 (Inr sample_result) 2"] by (simp add: sample_done_def)
qed

theorem explain_own_result_witness:
  "(padded_request, Inr sample_result) \<in> set (ex_answers sample_done)
   \<and> (\<exists>rq'. (rq', sample_result) \<in> set (ex_finished sample_done) \<and> trim (rq_query rq') = trim (rq_query padded_request)
      \<and> stringify (JObj (rq_options rq')) = stringify (JObj (rq_options padded_request)))"
proof -
  have "(padded_request, Inr sample_result) \<in> set (ex_answers sample_done)" by code_simp
  with explain_own_result [OF sample_reachable(2)] show ?thesis by blast
qed

text \<open>
  C6. Requests are deduplicated: at any moment at most one execution is running for a query with given
  options, and every call made so far either has exactly one answer or waits for exactly one
  execution.
\<close>

theorem explain_deduplicates:
  assumes "explain_reachable rs st"
  shows "(\<forall>e \<in> set (ex_running st). \<forall>e' \<in> set (ex_running st).
      cacheable (xe_request e) \<and> pendingKey (xe_request e) = pendingKey (xe_request e') \<longrightarrow> e = e')
    \<and> mset rs = mset (map fst (ex_answers st)) + mset (concat (map xe_waiting (ex_running st)))"
proof -
  have inv: "pending_ok st" "running_ok st" "accounted rs st"
    using inv_reachable [OF assms] by (simp_all add: explain_inv_def)
  then show ?thesis unfolding accounted_def using same_key [OF inv(1,2)] pendingKey_same by blast
qed

theorem explain_deduplicates_witness:
  "length (ex_running sample_joined) = 1 \<and> ex_answers sample_joined = []
   \<and> mset [sample_request, padded_request] = mset (concat (map xe_waiting (ex_running sample_joined)))"
proof -
  have "length (ex_running sample_joined) = 1" "ex_answers sample_joined = []" by code_simp+
  with explain_deduplicates [OF sample_reachable(1)] show ?thesis by simp
qed

text \<open>
  C17. No call is forgotten: once all running executions have ended, whether with a result or with an
  error and in whatever order, no request is pending and every call has exactly one answer.
\<close>

theorem explain_all_answered:
  assumes "explain_reachable rs st" "fst ` set outcomes = xe_id ` set (ex_running st)"
  shows "ex_running (drain outcomes now st) = [] \<and> ex_pending (drain outcomes now st) = []
    \<and> mset (map fst (ex_answers (drain outcomes now st))) = mset rs"
proof -
  have run: "ex_running (drain outcomes now st) = []"
    unfolding running_drain assms(2) by (simp add: filter_empty_conv)
  have inv: "explain_inv rs (drain outcomes now st)" using inv_drain inv_reachable [OF assms(1)] by blast
  have "ex_pending (drain outcomes now st) = []"
  proof (cases "ex_pending (drain outcomes now st)")
    case (Cons p ps)
    then have "(fst p, snd p) \<in> set (ex_pending (drain outcomes now st))" by simp
    then show ?thesis using inv run unfolding explain_inv_def pending_ok_def by (metis empty_iff list.set(1))
  qed
  then show ?thesis using run inv by (simp add: explain_inv_def accounted_def)
qed

theorem explain_all_answered_witness:
  "fst ` set [(0 :: nat, Inl ''down'' :: string + ExplanationResult)] = xe_id ` set (ex_running sample_joined)
   \<and> mset (map fst (ex_answers (drain [(0, Inl ''down'')] 5 sample_joined))) = mset [sample_request, padded_request]"
proof -
  have ids: "map xe_id (ex_running sample_joined) = [0]" by code_simp
  have "fst ` set [(0 :: nat, Inl ''down'' :: string + ExplanationResult)] = xe_id ` set (ex_running sample_joined)"
    unfolding set_map [symmetric] ids by simp
  with explain_all_answered [OF sample_reachable(1) this, of 5] show ?thesis by blast
qed

text \<open>
  For one hour after an execution for a query has returned, the same query is answered at once from
  the cache with its result and starts no execution; a question that is not a query is executed
  every time.
\<close>

theorem explain_cached_hour:
  assumes "explain_reachable rs st" "e \<in> set (ex_running st)" "cacheable (xe_request e)"
    and "pendingKey rq = pendingKey (xe_request e)" "later \<le> now + 3600000" and "\<not> cacheable question"
  shows "(let st' = finish (xe_id e) (Inr r) now st
      in ex_answers (explain rq later st') = ex_answers st' @ [(rq, Inr r)] \<and> ex_running (explain rq later st') = ex_running st')
    \<and> length (ex_running (explain question later st)) = length (ex_running st) + 1"
  using cached_answer [OF assms(1-5) refl, of r] assms(6) by (simp add: Let_def explain_def start_execution_def)

definition sample_question :: Request where
  "sample_question = \<lparr>rq_caller = 3, rq_query = ''What is GraphQL?'', rq_options = []\<rparr>"

theorem explain_cached_hour_witness:
  "ex_answers (explain padded_request 3000000 sample_done) = ex_answers sample_done @ [(padded_request, Inr sample_result)]
   \<and> ex_running (explain padded_request 3000000 sample_done) = ex_running sample_done"
proof -
  define e where "e = \<lparr>xe_id = 0, xe_request = sample_request, xe_waiting = [sample_request, padded_request]\<rparr>"
  have run: "ex_running sample_joined = [e]" unfolding e_def by code_simp
  have c: "cacheable (xe_request e)" "pendingKey padded_request = pendingKey (xe_request e)" "\<not> cacheable sample_question"
    unfolding e_def by code_simp+
  have "sample_done = finish (xe_id e) (Inr sample_result) 2 sample_joined"
    by (simp add: sample_done_def e_def)
  with explain_cached_hour [OF sample_reachable(1) _ c(1,2) _ c(3), of 3000000 2 sample_result] run show ?thesis
    by (simp add: Let_def)
qed

end
