(* ===== verification/Explanation_Execution.thy ===== *)
theory Explanation_Execution
  imports Explanation_Service Prompts Llm_Client Retrieval_Service Context_Formatter ResLens_Client
begin

text \<open>
  Model of \<open>executeExplain\<close>, \<open>explainQuick\<close> and \<open>explainWithContext\<close> of
  \<open>llm/explanation-service.ts\<close>: retrieval, live statistics, the prompt, the model's answer, and
  the texts the service makes up itself when the model fails or its answer is poor. It composes
  the models of the retrieval service, the context formatter, the prompts, the LLM client and the
  ResLens client. The theory shows that an execution always returns a result, and what an outage
  of the model leaves in the cache.
\<close>

section \<open>Text helpers\<close>

text \<open>\<open>text.replace(/^\[Source:[^\]]+\]\s*/gm, '')\<close>; the flag says whether the position is the start of a line.\<close>

definition source_tag :: "string \<Rightarrow> string option" where
  "source_tag s =
     (let body = takeWhile (\<lambda>c. c \<noteq> CHR '']'') (drop 8 s); rest = dropWhile (\<lambda>c. c \<noteq> CHR '']'') (drop 8 s)
      in if startsWith s ''[Source:'' \<and> body \<noteq> [] \<and> rest \<noteq> [] then Some (dropWhile is_ws (tl rest)) else None)"

lemma source_tag_shorter: "source_tag s = Some r \<Longrightarrow> length r < length s"
proof -
  assume a: "source_tag s = Some r"
  let ?rest = "dropWhile (\<lambda>c. c \<noteq> CHR '']'') (drop 8 s)"
  have r: "r = dropWhile is_ws (tl ?rest)" "?rest \<noteq> []"
    using a by (auto simp: source_tag_def Let_def split: if_splits)
  have "length r \<le> length (tl ?rest)" unfolding r(1) by (rule length_dropWhile_le)
  also have "\<dots> < length ?rest" using r(2) by simp
  also have "\<dots> \<le> length (drop 8 s)" by (rule length_dropWhile_le)
  finally show ?thesis by simp
qed

function drop_sources :: "bool \<Rightarrow> string \<Rightarrow> string" where
  "drop_sources bol [] = []"
| "drop_sources bol (c # s) =
     (case (if bol then source_tag (c # s) else None) of
        Some rest \<Rightarrow> drop_sources (is_line_term ((c # s) ! (length (c # s) - length rest - 1))) rest
      | None \<Rightarrow> c # drop_sources (is_line_term c) s)"
  by pat_completeness auto
termination
  by (relation "measure (length \<circ> snd)") (auto dest: source_tag_shorter split: if_splits)

text \<open>
  \<open>text.replace(/^---\s*$/gm, '')\<close>: the white space after the dashes reaches the end of the text,
  or else is matched up to its last line terminator.
\<close>

definition rule_line :: "string \<Rightarrow> string option" where
  "rule_line s =
     (let run = takeWhile is_ws (drop 3 s); rest = dropWhile is_ws (drop 3 s)
      in if \<not> startsWith s ''---'' then None
         else if rest = [] then Some []
         else if list_ex is_line_term run
         then Some (drop (length run - length (takeWhile (\<lambda>c. \<not> is_line_term c) (rev run)) - 1) run @ rest)
         else None)"

lemma rule_line_shorter: "s \<noteq> [] \<Longrightarrow> rule_line s = Some r \<Longrightarrow> length r < length s"
proof -
  assume a: "s \<noteq> []" "rule_line s = Some r"
  have s: "length (drop 3 s) = length (takeWhile is_ws (drop 3 s)) + length (dropWhile is_ws (drop 3 s))"
    by (metis length_append takeWhile_dropWhile_id)
  have "startsWith s ''---''" using a(2) by (auto simp: rule_line_def Let_def split: if_splits)
  then have "length (take (length ''---'') s) = length ''---''" by (simp only: startsWith_def)
  then have "length s \<ge> 3" by simp
  then show ?thesis using a(2) s by (auto simp: rule_line_def Let_def split: if_splits)
qed

function drop_rules :: "bool \<Rightarrow> string \<Rightarrow> string" where
  "drop_rules bol [] = []"
| "drop_rules bol (c # s) =
     (case (if bol then rule_line (c # s) else None) of
        Some rest \<Rightarrow> drop_rules (is_line_term ((c # s) ! (length (c # s) - length rest - 1))) rest
      | None \<Rightarrow> c # drop_rules (is_line_term c) s)"
  by pat_completeness auto
termination
  by (relation "measure (length \<circ> snd)") (auto dest: rule_line_shorter [rotated] split: if_splits)

definition clean_chunk :: "string \<Rightarrow> string" where
  "clean_chunk chunkText = trim (drop_rules True (drop_sources True chunkText))"

text \<open>The leftmost match of a pattern, given by its result at a position.\<close>

fun first_match :: "(string \<Rightarrow> 'a option) \<Rightarrow> string \<Rightarrow> 'a option" where
  "first_match p [] = p []"
| "first_match p (c # s) = (case p (c # s) of Some r \<Rightarrow> Some r | None \<Rightarrow> first_match p s)"

text \<open>\<open>/\{?\s*(\w+)\s*\(/\<close>.\<close>

definition name_at :: "string \<Rightarrow> string option" where
  "name_at s =
     (let r = dropWhile is_ws (if startsWith s ''{'' then tl s else s); w = takeWhile is_word r
      in if w \<noteq> [] \<and> startsWith (dropWhile is_ws (dropWhile is_word r)) ''('' then Some w else None)"

text \<open>
  \<open>/\{\s*([^}]+)\s*\}/\<close>: the group is the text up to the next closing brace without leading white
  space, or its last character when it is white space only.
\<close>

definition fields_at :: "string \<Rightarrow> string option" where
  "fields_at s =
     (let content = takeWhile (\<lambda>c. c \<noteq> CHR ''}'') (tl s); rest = dropWhile (\<lambda>c. c \<noteq> CHR ''}'') (tl s); g = dropWhile is_ws content
      in if startsWith s ''{'' \<and> content \<noteq> [] \<and> rest \<noteq> [] then Some (if g = [] then [last content] else g) else None)"

definition queryName :: "string \<Rightarrow> string" where
  "queryName query = or_default (first_match name_at query) ''the query''"

definition basic_fields :: "string \<Rightarrow> string" where
  "basic_fields query = (case first_match fields_at query of None \<Rightarrow> ''data'' | Some f \<Rightarrow> trim f)"

definition punctuation :: "string \<Rightarrow> bool" where
  "punctuation f \<longleftrightarrow> f \<noteq> [] \<and> list_all (\<lambda>c. c \<in> set (''{}()[]:,='' @ [CHR 0x22])) f"

definition field_names :: "string \<Rightarrow> string list" where
  "field_names query =
     (case first_match fields_at query of
        None \<Rightarrow> []
      | Some g \<Rightarrow>
          filter (\<lambda>f. f \<noteq> [] \<and> f \<noteq> ''getTransaction'' \<and> f \<noteq> queryName query)
            (filter (\<lambda>f. f \<noteq> [] \<and> \<not> punctuation f \<and> \<not> str_includes f ''('' \<and> \<not> str_includes f '')'') (map trim (split_ws g))))"

fun occurrences :: "string \<Rightarrow> string \<Rightarrow> nat" where
  "occurrences p [] = 0"
| "occurrences p (c # s) = (if startsWith (c # s) p then 1 else 0) + occurrences p s"


section \<open>Options and environment\<close>

record ExplanationOptions =
  eo_detailed :: "bool option"
  eo_includeLiveStats :: "bool option"
  eo_maxContextChunks :: "nat option"
  eo_minSimilarity :: "real option"

text \<open>The clients of the service, with the reply of the ResLens API to the request for metrics.\<close>

record ExplainDeps =
  xd_rag :: RagWorld
  xd_embedding :: EmbeddingService
  xd_providers :: Providers
  xd_llm :: LLMClient
  xd_resLens :: ResLensClient
  xd_metrics :: "QueryExecutionMetrics api_response"

definition ask_model :: "ExplainDeps \<Rightarrow> string \<Rightarrow> string \<Rightarrow> rat \<Rightarrow> nat \<Rightarrow> string + string" where
  "ask_model d system user temperature maxTokens =
     map_sum id lr_content (snd (generateCompletion (xd_providers d) (xd_llm d)
       [\<lparr>lm_role = System, lm_content = system\<rparr>, \<lparr>lm_role = User, lm_content = user\<rparr>]
       \<lparr>lo_temperature = Some temperature, lo_maxTokens = Some maxTokens, lo_liveStats = None\<rparr>))"

definition retrieval_options :: "nat \<Rightarrow> real \<Rightarrow> RetrievalOptions" where
  "retrieval_options limit minSimilarity =
     \<lparr>ro_limit = Some limit, ro_minSimilarity = Some minSimilarity, ro_source = None, ro_type = None, ro_includeScores = Some False\<rparr>"

definition format_options :: "nat \<Rightarrow> format_style option \<Rightarrow> FormatOptions" where
  "format_options maxTokens style =
     \<lparr>fo_maxTokens = Some maxTokens, fo_includeMetadata = None, fo_includeScores = None, fo_format = style, fo_separator = None\<rparr>"


section \<open>Questions\<close>

fun numbered_documents :: "nat \<Rightarrow> StoredChunk list \<Rightarrow> string list" where
  "numbered_documents n [] = []"
| "numbered_documents n (c # cs) =
     (''[Document '' @ show_nat n @ '']'' @ nl @ clean_chunk (st_chunkText c)) # numbered_documents (n + 1) cs"

definition shortened :: "nat \<Rightarrow> string \<Rightarrow> string" where
  "shortened n s = take n s @ (if length s > n then ''...'' else [])"

text \<open>The answer from the documents alone.\<close>

definition raw_answer :: "StoredChunk list \<Rightarrow> string" where
  "raw_answer topChunks =
     ''**Answer to your question:**'' @ nl @ nl
     @ (case topChunks of
          [] \<Rightarrow> []
        | c # cs \<Rightarrow> shortened 800 (clean_chunk (st_chunkText c))
            @ concat (map (\<lambda>c. nl @ nl @ ''**Additional information:**'' @ nl @ shortened 400 (clean_chunk (st_chunkText c))) cs))"

definition no_documentation :: "string \<Rightarrow> string" where
  "no_documentation trimmedQuery =
      ''I couldn't find specific documentation to answer '' @ [CHR 0x22] @ trimmedQuery @ [CHR 0x22] @ ''.'' @ nl @ nl
      @ ''**To get an explanation of a GraphQL query, please provide a valid query like:**'' @ nl @ ''- `{ getTransaction(id: ''
      @ [CHR 0x22] @ ''test'' @ [CHR 0x22] @ '') { asset } }`'' @ nl @ ''- `{ getTransaction(id: '' @ [CHR 0x22] @ ''123'' @ [CHR 0x22]
      @ '') { asset amount timestamp } }`'' @ nl @ nl @ ''**What is GraphQL?**'' @ nl
      @ ''GraphQL is a query language for APIs that allows you to request exactly the data you need. In ResilientDB, you can use GraphQL to query transaction data.''"

definition answer_question :: "ExplainDeps \<Rightarrow> string \<Rightarrow> VectorStore \<Rightarrow> ExplanationResult \<times> VectorStore" where
  "answer_question d trimmedQuery vs =
     (let (reply, vs') = retrieveDocumentationContext (xd_rag d) (xd_embedding d) trimmedQuery (retrieval_options 5 (1/5)) vs;
          chunks = (case reply of Inl e \<Rightarrow> [] | Inr r \<Rightarrow> rr_chunks r)
      in if chunks \<noteq> []
         then (let topChunks = take 3 chunks; contextText = join (nl @ nl) (numbered_documents 1 topChunks)
               in (\<lparr>er_explanation =
                      (case ask_model d
                          ''You are a helpful assistant that answers questions about GraphQL and ResilientDB using the provided documentation. Provide clear, concise answers based only on the documentation provided.''
                          (''Question: '' @ trimmedQuery @ nl @ nl @ ''Documentation:'' @ nl @ contextText @ nl @ nl
                          @ ''Answer the question using the documentation above. Be clear and concise.'')
                          (7/10) 1000 of
                         Inr content \<Rightarrow> content
                       | Inl llmError \<Rightarrow> raw_answer topChunks),
                    er_query = trimmedQuery, er_contextChunksUsed = length chunks, er_liveStatsIncluded = False\<rparr>, vs'))
         else (\<lparr>er_explanation = no_documentation trimmedQuery, er_query = trimmedQuery, er_contextChunksUsed = 0,
                er_liveStatsIncluded = False\<rparr>, vs'))"


section \<open>Queries\<close>

definition isLocalSmallModel :: "LLMClient \<Rightarrow> bool" where
  "isLocalSmallModel c \<longleftrightarrow> lk_provider c = LocalModel \<and> (str_includes (lk_model c) ''gpt2'' \<or> str_includes (lk_model c) ''distil'')"

definition model_choice :: "LLMClient \<Rightarrow> 'a \<Rightarrow> 'a \<Rightarrow> 'a \<Rightarrow> 'a" where
  "model_choice c small gemini other =
     (if isLocalSmallModel c then small else if lk_provider c = Gemini then gemini else other)"

text \<open>\<open>Promise.all\<close> of the two retrievals: if either fails, both results are empty.\<close>

definition retrieve_context ::
  "ExplainDeps \<Rightarrow> string \<Rightarrow> nat \<Rightarrow> real \<Rightarrow> VectorStore \<Rightarrow> (StoredChunk list \<times> StoredChunk list) \<times> VectorStore" where
  "retrieve_context d query maxContextChunks minSimilarity vs =
     (let (doc, vs1) = retrieveDocumentationContext (xd_rag d) (xd_embedding d) query (retrieval_options maxContextChunks minSimilarity) vs;
          (schema, vs2) = retrieveSchemaContext (xd_rag d) (xd_embedding d) query (retrieval_options (maxContextChunks div 2) (1/4)) vs1
      in (case (doc, schema) of
            (Inr a, Inr b) \<Rightarrow> (rr_chunks a, rr_chunks b)
          | _ \<Rightarrow> ([], []), vs2))"

definition or_na :: "rat option \<Rightarrow> string" where
  "or_na x = (case nonzero x of None \<Rightarrow> ''N/A'' | Some s \<Rightarrow> s)"

definition resourceUsageStr :: "ResourceUsage \<Rightarrow> string" where
  "resourceUsageStr u =
     ''CPU: '' @ or_na (ru_cpu u) @ ''%, Memory: '' @ or_na (ru_memory u) @ ''MB, Network: '' @ or_na (ru_network u) @ ''KB''"

definition query_live_stats :: "ExplainDeps \<Rightarrow> bool \<Rightarrow> string \<Rightarrow> PromptLiveStats option" where
  "query_live_stats d includeLiveStats query =
     (if includeLiveStats
      then (case getMetrics (xd_resLens d) (xd_metrics d) query of
              Some metrics \<Rightarrow>
                if m_query metrics = query
                then Some \<lparr>pl_executionTime = Some (m_executionTime metrics),
                           pl_resourceUsage = map_option resourceUsageStr (m_resourceUsage metrics),
                           pl_queryComplexity = (case m_resultSize metrics of
                               None \<Rightarrow> None
                             | Some n \<Rightarrow> if n = 0 then None else Some (''Result Size: '' @ show_nat n @ '' items'')),
                           pl_throughput = None\<rparr>
                else None
            | None \<Rightarrow> None)
      else None)"

text \<open>\<open>context.replace(/^Relevant Documentation Context:\s*\n*/i, '')\<close>.\<close>

definition drop_context_title :: "string \<Rightarrow> string" where
  "drop_context_title s =
     (if startsWith (toLowerCase s) ''relevant documentation context:'' then dropWhile is_ws (drop 31 s) else s)"

definition small_model_prompt :: "string \<Rightarrow> string \<Rightarrow> string" where
  "small_model_prompt query documentationContext =
     (let cleanContext = take 400 (trim (drop_context_title documentationContext))
      in ''Question: What does this GraphQL query do?'' @ nl @ nl @ ''Query: '' @ query @ nl @ nl
         @ (if cleanContext \<noteq> [] then ''Documentation: '' @ cleanContext @ nl @ nl else [])
         @ ''Answer: This query'')"

definition explanation_prompt ::
  "LLMClient \<Rightarrow> bool \<Rightarrow> string \<Rightarrow> string \<Rightarrow> string option \<Rightarrow> PromptLiveStats option \<Rightarrow> string \<times> string" where
  "explanation_prompt c detailed query documentationContext schemaContext liveStats =
     (if isLocalSmallModel c
      then (''Answer questions about GraphQL queries using the documentation provided.'', small_model_prompt query documentationContext)
      else (EXPLANATION_SYSTEM_PROMPT,
            if detailed then formatDetailedExplanationPrompt query documentationContext schemaContext
            else formatExplanationPrompt \<lparr>ep_query = query, ep_documentationContext = documentationContext,
                   ep_schemaContext = schemaContext, ep_liveStats = liveStats\<rparr>))"

text \<open>The checks on the model's answer.\<close>

definition poor_answer :: "string \<Rightarrow> bool" where
  "poor_answer explanation \<longleftrightarrow>
     length (filter (\<lambda>line. str_includes line ''Question:'' \<or> str_includes line ''Query:'' \<or> str_includes line ''Answer:'')
       (split_char (CHR 0x0A) explanation)) > 3
     \<or> length (trim explanation) < 50
     \<or> str_includes explanation ''Question: What does this GraphQL query do?'' \<and> occurrences ''Question:'' explanation + 1 > 2"

definition uses_text :: "string \<Rightarrow> string" where
  "uses_text query =
      ''This GraphQL query uses `'' @ queryName query @ ''` to retrieve data from ResilientDB.'' @ nl @ nl"

text \<open>The explanation made from the documents.\<close>

definition documents_explanation :: "string \<Rightarrow> StoredChunk \<Rightarrow> StoredChunk list \<Rightarrow> string" where
  "documents_explanation query topChunk others =
     (let chunkText = trim (st_chunkText topChunk);
          fields = (case first_match fields_at query of None \<Rightarrow> [] | Some g \<Rightarrow> trim g)
      in uses_text query
         @ (if chunkText \<noteq> [] then ''According to the documentation:'' @ nl @ nl @ shortened 600 (clean_chunk chunkText) else [])
         @ (if fields \<noteq> [] then nl @ nl @ ''The query requests the following fields: '' @ fields else [])
         @ (case others of [] \<Rightarrow> []
            | c # _ \<Rightarrow> nl @ nl @ ''Additional information: '' @ take 200 (clean_chunk (st_chunkText c)) @ ''...''))"

text \<open>The explanation made from the query alone.\<close>

definition structural_explanation :: "string \<Rightarrow> string" where
  "structural_explanation query =
     uses_text query
     @ (if field_names query \<noteq> []
        then ''**Fields requested:**'' @ nl
          @ concat (map (\<lambda>field. ''- `'' @ field @ ''`: Retrieves the '' @ field @ '' field from the transaction'' @ nl) (field_names query))
        else ''**Fields requested:** All available fields for the transaction'' @ nl)
     @ nl @ ''**What it does:**'' @ nl
      @ ''This query fetches a single transaction by its ID and returns the specified fields. The `getTransaction` operation is a read operation that retrieves transaction data from the ResilientDB database.''"

text \<open>The explanation after a failure of the model.\<close>

definition fallback_explanation :: "string \<Rightarrow> StoredChunk list \<Rightarrow> string" where
  "fallback_explanation query docChunks =
     (case docChunks of
        c # _ \<Rightarrow> ''This GraphQL query retrieves transaction data.'' @ nl @ nl @ ''Documentation: '' @ take 400 (st_chunkText c) @ ''...''
      | [] \<Rightarrow>
          ''This GraphQL query uses `'' @ queryName query @ ''` to retrieve '' @ basic_fields query
                          @ '' from ResilientDB. The query structure suggests it's fetching transaction data by ID.'')"

definition final_explanation :: "LLMClient \<Rightarrow> string \<Rightarrow> StoredChunk list \<Rightarrow> string + string \<Rightarrow> string" where
  "final_explanation c query docChunks reply =
     (case reply of
        Inl err \<Rightarrow> fallback_explanation query docChunks
      | Inr content \<Rightarrow>
          if isLocalSmallModel c \<or> poor_answer content
          then (case docChunks of t # others \<Rightarrow> documents_explanation query t others | [] \<Rightarrow> structural_explanation query)
          else content)"

text \<open>
  Every step that can fail has its own handler, so the outermost \<open>catch\<close> of the method has nothing
  to handle.
\<close>

definition executeExplain ::
  "ExplainDeps \<Rightarrow> string \<Rightarrow> ExplanationOptions \<Rightarrow> VectorStore \<Rightarrow> ExplanationResult \<times> VectorStore" where
  "executeExplain d query opts vs =
     (let trimmedQuery = trim query; c = xd_llm d
      in if \<not> looksLikeQuery trimmedQuery \<and> trimmedQuery \<noteq> [] \<and> \<not> startsWith trimmedQuery ''{''
         then answer_question d trimmedQuery vs
         else
           (let detailed = or_default (eo_detailed opts) True;
                includeLiveStats = or_default (eo_includeLiveStats opts) (env_LLM_ENABLE_LIVE_STATS (lk_env c));
                maxContextChunks = or_default (eo_maxContextChunks opts) (model_choice c 2 5 10);
                minSimilarity = or_default (eo_minSimilarity opts) (3/10);
                ((docChunks, schemaChunks), vs') = retrieve_context d query maxContextChunks minSimilarity vs;
                documentationContext = formatForExplanation docChunks None (format_options (model_choice c 300 1000 2000) None);
                schemaContext = (if schemaChunks \<noteq> []
                  then Some (format_context schemaChunks None (format_options (model_choice c 150 500 1000) (Some Compact))) else None);
                liveStats = query_live_stats d includeLiveStats query;
                (systemPrompt, prompt) = explanation_prompt c detailed query documentationContext schemaContext liveStats;
                reply = ask_model d systemPrompt prompt (if isLocalSmallModel c then 3/10 else 7/10)
                  (model_choice c 200 2000 (if detailed then 3000 else 1500))
            in (\<lparr>er_explanation = final_explanation c query docChunks reply, er_query = query,
                 er_contextChunksUsed = length docChunks + length schemaChunks,
                 er_liveStatsIncluded = (liveStats \<noteq> None)\<rparr>, vs')))"


section \<open>Other operations\<close>

definition explainQuick ::
  "ExplainDeps \<Rightarrow> string \<Rightarrow> VectorStore \<Rightarrow> ((retrieval_error + string) + string) \<times> VectorStore" where
  "explainQuick d query vs =
     (case retrieve (xd_rag d) (xd_embedding d) query
        \<lparr>ro_limit = Some 3, ro_minSimilarity = Some (3/10), ro_source = None, ro_type = None, ro_includeScores = None\<rparr> vs of
        (Inl e, vs') \<Rightarrow> (Inl (Inl e), vs')
      | (Inr r, vs') \<Rightarrow>
          (let context = (if rr_chunks r \<noteq> [] then Some (format_context (rr_chunks r) None (format_options 500 (Some Compact))) else None);
               prompt = ''Briefly explain this GraphQL query (2-3 sentences):'' @ nl @ nl @ fenced_query query
                 @ optional_section ''Context: '' context (nl @ nl) @ ''Provide a concise explanation.''
           in (case ask_model d EXPLANATION_SYSTEM_PROMPT prompt (7/10) 200 of
                 Inl e \<Rightarrow> Inl (Inr e)
               | Inr content \<Rightarrow> Inr content, vs')))"

definition explainWithContext :: "ExplainDeps \<Rightarrow> string \<Rightarrow> string \<Rightarrow> bool option \<Rightarrow> string + string" where
  "explainWithContext d query context includeLiveStats =
     (let liveStats = query_live_stats d (or_default includeLiveStats (env_LLM_ENABLE_LIVE_STATS (lk_env (xd_llm d)))) query
      in ask_model d EXPLANATION_SYSTEM_PROMPT
           (formatExplanationPrompt \<lparr>ep_query = query, ep_documentationContext = context, ep_schemaContext = None, ep_liveStats = liveStats\<rparr>)
           (7/10) 1500)"

text \<open>The request for metrics never throws, so the ResLens client always counts as available.\<close>

definition explanation_checkAvailability :: "ExplainDeps \<Rightarrow> VectorStore \<Rightarrow> (bool \<times> bool \<times> bool) \<times> VectorStore" where
  "explanation_checkAvailability d vs =
     (case retrieval_checkAvailability (xd_rag d) (xd_embedding d) vs of
        ((store, embedding), vs') \<Rightarrow> ((llm_isAvailable (xd_llm d), store \<and> embedding, True), vs'))"


section \<open>Properties\<close>

lemma ask_model_outage:
  "(\<forall>ms o'. isl (snd (generateCompletion (xd_providers d) (xd_llm d) ms o'))) \<Longrightarrow> \<exists>err. ask_model d s u t n = Inl err"
  unfolding ask_model_def by (metis map_sum.simps(1) sum.collapse(1))

lemma executeExplain_query:
  assumes "looksLikeQuery (trim query)"
  shows "\<exists>docChunks s p t n. er_explanation (fst (executeExplain d query opts vs))
    = final_explanation (xd_llm d) query docChunks (ask_model d s p t n)"
  using assms unfolding executeExplain_def Let_def by (simp split: prod.splits) metis

text \<open>
  C31. An outage of the model is remembered for an hour: when every completion fails, the execution for
  a query returns one of the fixed fallback texts as an ordinary result, and for the next hour
  every call for the same query and options is answered with that text from the cache, whether or
  not the model is back.
\<close>

theorem outage_cached_for_an_hour:
  assumes "explain_reachable rs st" "e \<in> set (ex_running st)" "cacheable (xe_request e)"
    and "\<forall>ms o'. isl (snd (generateCompletion (xd_providers d) (xd_llm d) ms o'))"
    and "r = fst (executeExplain d (rq_query (xe_request e)) opts vs)"
    and "pendingKey rq = pendingKey (xe_request e)" "later \<le> now + 3600000"
  shows "(\<exists>chunks. er_explanation r = fallback_explanation (rq_query (xe_request e)) chunks)
    \<and> last (ex_answers (explain rq later (finish (xe_id e) (Inr r) now st))) = (rq, Inr r)
    \<and> ex_running (explain rq later (finish (xe_id e) (Inr r) now st)) = ex_running (finish (xe_id e) (Inr r) now st)"
proof -
  obtain chunks s p t n where "er_explanation r = final_explanation (xd_llm d) (rq_query (xe_request e)) chunks (ask_model d s p t n)"
    using executeExplain_query [of "rq_query (xe_request e)" d opts vs] assms(3,5) by (auto simp: cacheable_def)
  moreover obtain err where "ask_model d s p t n = Inl err" using ask_model_outage [OF assms(4)] by blast
  ultimately have "er_explanation r = fallback_explanation (rq_query (xe_request e)) chunks"
    by (simp add: final_explanation_def)
  then show ?thesis using cached_answer [OF assms(1-3,6,7) refl, of r] by auto
qed

definition outage_deps :: ExplainDeps where
  "outage_deps = \<lparr>xd_rag = sample_world, xd_embedding = new_EmbeddingService Local, xd_providers = failing_providers ''down'',
     xd_llm = new_LLMClient \<lparr>env_LLM_PROVIDER = Gemini, env_LLM_API_KEY = None, env_LLM_MODEL = ''m'',
       env_LLM_ENABLE_LIVE_STATS = False, env_HUGGINGFACE_API_KEY = None\<rparr>,
     xd_resLens = new_ResLensClient None, xd_metrics = ApiThrows\<rparr>"

definition no_explanation_options :: ExplanationOptions where
  "no_explanation_options = \<lparr>eo_detailed = None, eo_includeLiveStats = None, eo_maxContextChunks = None, eo_minSimilarity = None\<rparr>"

lemma outage_deps_down: "\<forall>ms o'. isl (snd (generateCompletion (xd_providers outage_deps) (xd_llm outage_deps) ms o'))"
  by (intro allI completion_unavailable) (simp add: outage_deps_def llm_isAvailable_def new_LLMClient_def getLLMConfig_def Let_def present_def)

theorem outage_cached_for_an_hour_witness:
  "\<exists>r chunks. er_explanation r = fallback_explanation ''{ a }'' chunks
    \<and> last (ex_answers (explain padded_request 3000000 (finish 0 (Inr r) 2 sample_joined))) = (padded_request, Inr r)"
proof -
  define e where "e = \<lparr>xe_id = 0, xe_request = sample_request, xe_waiting = [sample_request, padded_request]\<rparr>"
  have run: "ex_running sample_joined = [e]" unfolding e_def by code_simp
  have c: "cacheable (xe_request e)" "pendingKey padded_request = pendingKey (xe_request e)"
    unfolding e_def by code_simp+
  have "xe_id e = 0" "rq_query (xe_request e) = ''{ a }''" by (simp_all add: e_def sample_request_def)
  with outage_cached_for_an_hour [OF sample_reachable(1) _ c(1) outage_deps_down refl c(2), of 3000000 2 no_explanation_options new_VectorStore] run
  show ?thesis by auto
qed

lemma executeExplain_live:
  "looksLikeQuery (trim query) \<Longrightarrow> er_liveStatsIncluded (fst (executeExplain d query opts vs))
     = (query_live_stats d (or_default (eo_includeLiveStats opts) (env_LLM_ENABLE_LIVE_STATS (lk_env (xd_llm d)))) query \<noteq> None)"
  unfolding executeExplain_def Let_def by (simp split: prod.splits)

text \<open>
  The statistics of a query do not reach the model in the default, detailed mode: whatever the
  ResLens client knows and answers, the explanation is the same, although the result reports live
  statistics as included when there were any.
\<close>

theorem live_stats_unused_in_detail:
  assumes "eo_detailed opts \<noteq> Some False"
  shows "er_explanation (fst (executeExplain (d\<lparr>xd_resLens := rl, xd_metrics := reply\<rparr>) query opts vs))
    = er_explanation (fst (executeExplain d query opts vs))"
proof -
  have same: "ask_model (d\<lparr>xd_resLens := rl, xd_metrics := reply\<rparr>) = ask_model d"
      "retrieve_context (d\<lparr>xd_resLens := rl, xd_metrics := reply\<rparr>) = retrieve_context d"
    by (simp_all add: fun_eq_iff ask_model_def retrieve_context_def)
  have q: "answer_question (d\<lparr>xd_resLens := rl, xd_metrics := reply\<rparr>) t vs = answer_question d t vs" for t
    unfolding answer_question_def same(1) by simp
  have det: "or_default (eo_detailed opts) True = True"
    using assms by (cases "eo_detailed opts") (auto simp: or_default_def)
  show ?thesis
    unfolding executeExplain_def Let_def q same det explanation_prompt_def
    by (simp add: case_prod_beta)
qed

definition stored_metrics :: ResLensClient where
  "stored_metrics = snd (captureMetrics (new_ResLensClient None) 0 ''{ a }'' ''{ a }'' 12 True no_data)"

theorem live_stats_unused_in_detail_witness:
  "er_liveStatsIncluded (fst (executeExplain (outage_deps\<lparr>xd_resLens := stored_metrics, xd_metrics := ApiThrows\<rparr>) ''{ a }''
      (no_explanation_options\<lparr>eo_includeLiveStats := Some True\<rparr>) new_VectorStore))
   \<and> er_explanation (fst (executeExplain (outage_deps\<lparr>xd_resLens := stored_metrics, xd_metrics := ApiThrows\<rparr>) ''{ a }''
      (no_explanation_options\<lparr>eo_includeLiveStats := Some True\<rparr>) new_VectorStore))
     = er_explanation (fst (executeExplain outage_deps ''{ a }'' (no_explanation_options\<lparr>eo_includeLiveStats := Some True\<rparr>) new_VectorStore))"
proof
  have q: "looksLikeQuery (trim ''{ a }'')" by code_simp
  show "er_liveStatsIncluded (fst (executeExplain (outage_deps\<lparr>xd_resLens := stored_metrics, xd_metrics := ApiThrows\<rparr>) ''{ a }''
      (no_explanation_options\<lparr>eo_includeLiveStats := Some True\<rparr>) new_VectorStore))"
    unfolding executeExplain_live [OF q]
    by (simp add: query_live_stats_def or_default_def getMetrics_def use_api_def stored_metrics_def captureMetrics_def
        new_ResLensClient_def no_data_def Let_def)
qed (rule live_stats_unused_in_detail, simp add: no_explanation_options_def)

end
