(* ===== verification/Optimization_Service.thy ===== *)
theory Optimization_Service
  imports Query_Analyzer Explanation_Execution
begin

text \<open>
  Model of \<open>llm/optimization-service.ts\<close>: the suggestions for a query, made from the query
  analyzer's opportunities and from the numbered items of the model's answer, without duplicates
  and by priority. It composes the analyzer, the retrieval service, the context formatter, the
  prompts, the LLM client and the ResLens client. The theory shows that every finding of the
  analyzer reaches the caller and that the list is a stable sort of the first suggestion of each
  text.
\<close>

section \<open>Suggestions\<close>

record OptimizationSuggestion =
  os_suggestion :: string
  os_reason :: string
  os_expectedImprovement :: "string option"
  os_optimizedQuery :: "string option"
  os_priority :: level

definition inferPriority :: "string \<Rightarrow> level" where
  "inferPriority suggestion =
     (let lower = toLowerCase suggestion
      in if str_includes lower ''critical'' \<or> str_includes lower ''urgent'' \<or> str_includes lower ''severe'' then High
         else if str_includes lower ''important'' \<or> str_includes lower ''significant'' \<or> str_includes lower ''major'' then Medium
         else Low)"

definition suggestion_key :: "OptimizationSuggestion \<Rightarrow> string" where
  "suggestion_key s = toLowerCase (take 100 (os_suggestion s))"

text \<open>The loop with the set of keys seen so far.\<close>

fun unique_suggestions :: "string list \<Rightarrow> OptimizationSuggestion list \<Rightarrow> OptimizationSuggestion list" where
  "unique_suggestions seen [] = []"
| "unique_suggestions seen (s # ss) =
     (if suggestion_key s \<in> set seen then unique_suggestions seen ss
      else s # unique_suggestions (suggestion_key s # seen) ss)"

definition priorityOrder :: "level \<Rightarrow> int" where
  "priorityOrder p = (case p of High \<Rightarrow> 3 | Medium \<Rightarrow> 2 | Low \<Rightarrow> 1)"

definition deduplicateSuggestions :: "OptimizationSuggestion list \<Rightarrow> OptimizationSuggestion list" where
  "deduplicateSuggestions suggestions = sort_desc (\<lambda>s. priorityOrder (os_priority s)) (unique_suggestions [] suggestions)"


section \<open>The model's answer\<close>

text \<open>\<open>/^\d+\./\<close>, and the rest after \<open>/^\d+\.\s*/\<close>.\<close>

definition numbered_item :: "string \<Rightarrow> string option" where
  "numbered_item trimmed =
     (let rest = dropWhile is_digit trimmed
      in if takeWhile is_digit trimmed \<noteq> [] \<and> startsWith rest ''.'' then Some (dropWhile is_ws (tl rest)) else None)"

text \<open>\<open>/^[A-Z][^:]+:/\<close>.\<close>

definition header_line :: "string \<Rightarrow> bool" where
  "header_line trimmed \<longleftrightarrow> trimmed \<noteq> [] \<and> is_upper_az (hd trimmed)
     \<and> takeWhile (\<lambda>c. c \<noteq> CHR '':'') (tl trimmed) \<noteq> [] \<and> CHR '':'' \<in> set (tl trimmed)"

definition section_title :: "string \<Rightarrow> string" where
  "section_title trimmed = replace_first (filter (\<lambda>c. c \<noteq> CHR ''*'') trimmed) '':'' []"

definition line_suggestion :: "string \<Rightarrow> string \<Rightarrow> OptimizationSuggestion list" where
  "line_suggestion currentSection trimmed =
     (case numbered_item trimmed of
        Some suggestion \<Rightarrow>
          if length suggestion > 20
          then [\<lparr>os_suggestion = suggestion, os_reason = (if currentSection \<noteq> [] then currentSection else ''Based on best practices''),
                 os_expectedImprovement = None, os_optimizedQuery = None, os_priority = inferPriority suggestion\<rparr>]
          else []
      | None \<Rightarrow> [])"

fun parse_lines :: "string \<Rightarrow> string list \<Rightarrow> OptimizationSuggestion list" where
  "parse_lines currentSection [] = []"
| "parse_lines currentSection (line # lines) =
     (let trimmed = trim line
      in line_suggestion currentSection trimmed
         @ parse_lines (if startsWith trimmed ''**'' \<or> header_line trimmed then section_title trimmed else currentSection) lines)"

definition opportunity_suggestion :: "OptimizationOpportunity \<Rightarrow> OptimizationSuggestion" where
  "opportunity_suggestion opportunity =
     \<lparr>os_suggestion = (if present (opp_suggestion opportunity) then or_default (opp_suggestion opportunity) [] else opp_description opportunity),
      os_reason = opp_description opportunity, os_expectedImprovement = None, os_optimizedQuery = None,
      os_priority = opp_severity opportunity\<rparr>"

definition parseOptimizationResponse :: "string \<Rightarrow> QueryAnalysis \<Rightarrow> OptimizationSuggestion list" where
  "parseOptimizationResponse llmResponse analysis =
     (let found = map opportunity_suggestion (qa_opportunities analysis) @ parse_lines [] (split_char (CHR 0x0A) llmResponse);
          suggestions = (if length found = length (qa_opportunities analysis) \<and> length llmResponse > 100
            then found @ [\<lparr>os_suggestion = take 500 llmResponse, os_reason = ''LLM analysis'', os_expectedImprovement = None,
                           os_optimizedQuery = None, os_priority = Medium\<rparr>]
            else found)
      in deduplicateSuggestions suggestions)"


section \<open>The service\<close>

record OptimizationOptions =
  oo_includeSimilarQueries :: "bool option"
  oo_maxContextChunks :: "nat option"
  oo_minSimilarity :: "real option"

record OptimizationResult =
  or_query :: string
  or_suggestions :: "OptimizationSuggestion list"
  or_analysis :: QueryAnalysis
  or_similarQueries :: "SimilarQuery list option"

datatype optimize_error = RetrievalRejected retrieval_error | CompletionRejected string

text \<open>\<open>index === self.findIndex(s => s.query === sq.query)\<close>.\<close>

fun first_by_query :: "SimilarQuery list \<Rightarrow> SimilarQuery list \<Rightarrow> SimilarQuery list" where
  "first_by_query before [] = []"
| "first_by_query before (sq # sqs) =
     (if list_ex (\<lambda>s. sq_query s = sq_query sq) before then first_by_query (before @ [sq]) sqs
      else sq # first_by_query (before @ [sq]) sqs)"

definition similar_queries :: "QueryExecutionMetrics list \<Rightarrow> SimilarQuery list" where
  "similar_queries recentQueries =
     take 5 (first_by_query []
       (map (\<lambda>q. \<lparr>sq_query = m_query q, sq_executionTime = m_executionTime q,
                   sq_description = ''Similar query executed '' @ show_number (m_executionTime q) @ ''ms''\<rparr>) recentQueries))"

text \<open>The reply of the ResLens API to the request for recent queries, and the time, are arguments.\<close>

definition optimize ::
  "ExplainDeps \<Rightarrow> list_body api_response \<Rightarrow> int \<Rightarrow> string \<Rightarrow> OptimizationOptions \<Rightarrow> VectorStore
     \<Rightarrow> (optimize_error + OptimizationResult) \<times> VectorStore" where
  "optimize d recent now query opts vs =
     (let maxContextChunks = or_default (oo_maxContextChunks opts) 10;
          minSimilarity = or_default (oo_minSimilarity opts) (3/10);
          analysis = analyze query;
          (doc, vs1) = retrieveDocumentationContext (xd_rag d) (xd_embedding d)
            (''GraphQL query optimization best practices '' @ query) (retrieval_options maxContextChunks minSimilarity) vs;
          (schema, vs2) = retrieveSchemaContext (xd_rag d) (xd_embedding d) query
            (retrieval_options (maxContextChunks div 2) (1/4)) vs1
      in case (doc, schema) of
           (Inl e, _) \<Rightarrow> (Inl (RetrievalRejected e), vs2)
         | (Inr _, Inl e) \<Rightarrow> (Inl (RetrievalRejected e), vs2)
         | (Inr docResult, Inr schemaResult) \<Rightarrow>
             (let documentationContext = formatForOptimization (rr_chunks docResult) None (format_options 2000 None);
                  schemaContext = (if rr_chunks schemaResult \<noteq> []
                    then Some (format_context (rr_chunks schemaResult) None (format_options 1000 (Some Compact))) else None);
                  similarQueries = (if or_default (oo_includeSimilarQueries opts) True
                    then Some (similar_queries (getRecentQueries (xd_resLens d) now recent 10)) else None);
                  prompt = formatOptimizationPrompt \<lparr>op_query = query, op_documentationContext = documentationContext,
                    op_schemaContext = schemaContext, op_similarQueries = similarQueries\<rparr>
              in case ask_model d OPTIMIZATION_SYSTEM_PROMPT prompt (1/2) 2000 of
                   Inl e \<Rightarrow> (Inl (CompletionRejected e), vs2)
                 | Inr content \<Rightarrow>
                     (Inr \<lparr>or_query = query, or_suggestions = parseOptimizationResponse content analysis, or_analysis = analysis,
                           or_similarQueries = similarQueries\<rparr>, vs2)))"

definition quickAnalyze :: "string \<Rightarrow> QueryAnalysis" where
  "quickAnalyze query = analyze query"

definition optimization_checkAvailability :: "ExplainDeps \<Rightarrow> VectorStore \<Rightarrow> (bool \<times> bool \<times> bool \<times> bool) \<times> VectorStore" where
  "optimization_checkAvailability d vs =
     (case retrieval_checkAvailability (xd_rag d) (xd_embedding d) vs of
        ((store, embedding), vs') \<Rightarrow> ((llm_isAvailable (xd_llm d), store \<and> embedding, True, True), vs'))"


section \<open>Deduplication\<close>

lemma unique_keys:
  "distinct (map suggestion_key (unique_suggestions seen ss)) \<and> set (map suggestion_key (unique_suggestions seen ss)) \<inter> set seen = {}"
  by (induction seen ss rule: unique_suggestions.induct) auto

lemma unique_cover:
  "s \<in> set ss \<Longrightarrow> suggestion_key s \<in> set seen \<or> suggestion_key s \<in> suggestion_key ` set (unique_suggestions seen ss)"
  by (induction seen ss rule: unique_suggestions.induct) auto

lemma unique_first:
  "u \<in> set (unique_suggestions seen ss) \<Longrightarrow> find (\<lambda>s. suggestion_key s = suggestion_key u) ss = Some u"
proof (induction seen ss rule: unique_suggestions.induct)
  case (2 seen s ss)
  show ?case
  proof (cases "suggestion_key s \<in> set seen")
    case True
    then have u: "u \<in> set (unique_suggestions seen ss)" using 2(3) by simp
    then have "suggestion_key u \<notin> set seen" using unique_keys [of seen ss] by auto
    then show ?thesis using 2(1) [OF True u] True by auto
  next
    case False
    note F = False
    show ?thesis
    proof (cases "u = s")
      case False
      then have u: "u \<in> set (unique_suggestions (suggestion_key s # seen) ss)" using 2(3) F by simp
      then have "suggestion_key u \<noteq> suggestion_key s" using unique_keys [of "suggestion_key s # seen" ss] by (auto; metis imageI)
      then show ?thesis using 2(2) [OF F u] by auto
    qed simp
  qed
qed simp

lemma dedup_covers: "s \<in> set ss \<Longrightarrow> suggestion_key s \<in> suggestion_key ` set (deduplicateSuggestions ss)"
  using unique_cover [of s ss "[]"] by (simp add: deduplicateSuggestions_def)

text \<open>The list given to the deduplication.\<close>

lemma parse_sources:
  obtains ss where "parseOptimizationResponse r a = deduplicateSuggestions ss"
    "opportunity_suggestion ` set (qa_opportunities a) \<subseteq> set ss" "length r > 100 \<Longrightarrow> ss \<noteq> []"
proof -
  define found where "found = map opportunity_suggestion (qa_opportunities a) @ parse_lines [] (split_char (CHR 0x0A) r)"
  define ss where "ss = (if length found = length (qa_opportunities a) \<and> length r > 100
    then found @ [\<lparr>os_suggestion = take 500 r, os_reason = ''LLM analysis'', os_expectedImprovement = None,
                   os_optimizedQuery = None, os_priority = Medium\<rparr>] else found)"
  have "parseOptimizationResponse r a = deduplicateSuggestions ss"
    by (simp add: parseOptimizationResponse_def ss_def found_def Let_def)
  moreover have "opportunity_suggestion ` set (qa_opportunities a) \<subseteq> set ss"
    by (auto simp: ss_def found_def)
  moreover have "ss \<noteq> []" if "length r > 100"
    using that by (auto simp: ss_def found_def)
  ultimately show thesis by (rule that)
qed


section \<open>Properties\<close>

text \<open>
  C33. Deduplication keeps exactly the first suggestion of each text (compared without case on the
  first 100 characters), and the result is ordered by priority, the highest first.
\<close>

theorem dedup_first_by_priority:
  "distinct (map suggestion_key (deduplicateSuggestions ss))
   \<and> set (deduplicateSuggestions ss) = {u. find (\<lambda>s. suggestion_key s = suggestion_key u) ss = Some u}
   \<and> sorted_wrt (\<lambda>x y. priorityOrder (os_priority y) \<le> priorityOrder (os_priority x)) (deduplicateSuggestions ss)"
proof -
  have inj: "inj_on suggestion_key (set (unique_suggestions [] ss))" "distinct (unique_suggestions [] ss)"
    using unique_keys [of "[]" ss] by (simp_all add: distinct_map)
  have "u \<in> set (unique_suggestions [] ss)" if f: "find (\<lambda>s. suggestion_key s = suggestion_key u) ss = Some u" for u
  proof -
    have "u \<in> set ss" using f by (auto simp: find_Some_iff)
    then obtain v where v: "v \<in> set (unique_suggestions [] ss)" "suggestion_key u = suggestion_key v"
      using unique_cover [of u ss "[]"] by auto
    then show ?thesis using unique_first [OF v(1)] f by simp
  qed
  then have "set (unique_suggestions [] ss) = {u. find (\<lambda>s. suggestion_key s = suggestion_key u) ss = Some u}"
    using unique_first [of _ "[]" ss] by blast
  then show ?thesis
    using inj by (simp add: deduplicateSuggestions_def distinct_map sorted_sort_desc)
qed

text \<open>
  No finding of the analyzer is lost, whatever the model answers: for every opportunity the result
  has a suggestion with the same text, and an answer of more than 100 characters always gives at
  least one suggestion.
\<close>

theorem parse_keeps_opportunities:
  assumes "opp \<in> set (qa_opportunities analysis)"
  shows "(\<exists>s \<in> set (parseOptimizationResponse r analysis). suggestion_key s = suggestion_key (opportunity_suggestion opp))
    \<and> (length r > 100 \<longrightarrow> parseOptimizationResponse r (analysis\<lparr>qa_opportunities := []\<rparr>) \<noteq> [])"
proof
  obtain ss where ss: "parseOptimizationResponse r analysis = deduplicateSuggestions ss"
      "opportunity_suggestion ` set (qa_opportunities analysis) \<subseteq> set ss" by (rule parse_sources)
  then show "\<exists>s \<in> set (parseOptimizationResponse r analysis). suggestion_key s = suggestion_key (opportunity_suggestion opp)"
    using dedup_covers [of "opportunity_suggestion opp" ss] assms by (metis imageE image_subset_iff)
  show "length r > 100 \<longrightarrow> parseOptimizationResponse r (analysis\<lparr>qa_opportunities := []\<rparr>) \<noteq> []"
  proof
    assume r: "length r > 100"
    obtain ts where ts: "parseOptimizationResponse r (analysis\<lparr>qa_opportunities := []\<rparr>) = deduplicateSuggestions ts"
        "length r > 100 \<Longrightarrow> ts \<noteq> []" using parse_sources [of r "analysis\<lparr>qa_opportunities := []\<rparr>"] by metis
    then obtain t where "t \<in> set ts" using r by (meson last_in_set)
    then show "parseOptimizationResponse r (analysis\<lparr>qa_opportunities := []\<rparr>) \<noteq> []"
      using dedup_covers [of t ts] ts(1) by auto
  qed
qed

definition nested_opportunity :: OptimizationOpportunity where
  "nested_opportunity = \<lparr>opp_type = Nested_depth, opp_description = ''deep'', opp_severity = High, opp_suggestion = Some ''Reduce nesting''\<rparr>"

definition nested_analysis :: QueryAnalysis where
  "nested_analysis = \<lparr>qa_query = ''{ a }'', qa_complexity = Low, qa_fieldCount = 1, qa_depth = 1,
     qa_opportunities = [nested_opportunity], qa_estimatedResourceUsage = None\<rparr>"

theorem parse_keeps_opportunities_witness:
  "\<exists>s. s \<in> set (parseOptimizationResponse ''1. Use pagination for large lists'' nested_analysis)
     \<and> suggestion_key s = ''reduce nesting''"
proof -
  have "nested_opportunity \<in> set (qa_opportunities nested_analysis)" by (simp add: nested_analysis_def)
  moreover have "suggestion_key (opportunity_suggestion nested_opportunity) = ''reduce nesting''" by code_simp
  ultimately show ?thesis
    using parse_keeps_opportunities [of nested_opportunity nested_analysis "''1. Use pagination for large lists''"] by auto
qed

end
