(* ===== verification/Json_Parse.thy ===== *)
theory Json_Parse
  imports Json_Text
begin

text \<open>
  \<open>JSON.parse\<close> on texts whose characters and escapes are Latin-1. The parser is recursive descent
  with a bound on the number of nested calls, which twice the length of the text always meets. An
  object keeps the last value of a repeated property, as in JavaScript; the ordering that
  JavaScript gives to integer-like property names is not modelled. The main result is the round
  trip: parsing the text of a value in normal form gives the value back.
\<close>

section \<open>Lexical parts\<close>

definition json_ws :: "char \<Rightarrow> bool" where
  "json_ws c \<longleftrightarrow> c = CHR '' '' \<or> c = CHR 0x09 \<or> c = CHR 0x0A \<or> c = CHR 0x0D"

definition skip_ws :: "string \<Rightarrow> string" where
  "skip_ws s = dropWhile json_ws s"

definition hex_value :: "char \<Rightarrow> nat option" where
  "hex_value c =
     (let n = char_code c
      in if 48 \<le> n \<and> n \<le> 57 then Some (n - 48)
         else if 97 \<le> n \<and> n \<le> 102 then Some (n - 87)
         else if 65 \<le> n \<and> n \<le> 70 then Some (n - 55) else None)"

text \<open>The character of a \<open>\u\<close> escape; None when a digit is invalid or the code is above 255.\<close>

definition hex_char :: "string \<Rightarrow> char option" where
  "hex_char ds =
     (case map hex_value ds of
        [Some a, Some b, Some c, Some d] \<Rightarrow> if a = 0 \<and> b = 0 then Some (char_of (16 * c + d)) else None
      | _ \<Rightarrow> None)"

definition simple_escape :: "char \<Rightarrow> char option" where
  "simple_escape e =
     (if e = CHR 0x22 \<or> e = CHR 0x5C \<or> e = CHR ''/'' then Some e
      else if e = CHR ''b'' then Some (CHR 0x08) else if e = CHR ''f'' then Some (CHR 0x0C)
      else if e = CHR ''n'' then Some (CHR 0x0A) else if e = CHR ''r'' then Some (CHR 0x0D)
      else if e = CHR ''t'' then Some (CHR 0x09) else None)"

text \<open>The characters of a string literal after its opening quote, and the text after the closing one.\<close>

function parse_chars :: "string \<Rightarrow> (string \<times> string) option" where
  "parse_chars [] = None"
| "parse_chars (c # s) =
     (if c = CHR 0x22 then Some ([], s)
      else if c = CHR 0x5C
      then (if s = [] then None
            else if hd s = CHR ''u''
            then (case hex_char (take 4 (tl s)) of
                    None \<Rightarrow> None
                  | Some x \<Rightarrow> map_option (apfst (Cons x)) (parse_chars (drop 4 (tl s))))
            else (case simple_escape (hd s) of
                    None \<Rightarrow> None
                  | Some x \<Rightarrow> map_option (apfst (Cons x)) (parse_chars (tl s))))
      else if char_code c < 32 then None
      else map_option (apfst (Cons c)) (parse_chars s))"
  by pat_completeness auto
termination
  by (relation "measure length") auto

definition digits_value :: "string \<Rightarrow> nat" where
  "digits_value ds = foldl (\<lambda>n d. 10 * n + (char_code d - 48)) 0 ds"

text \<open>\<open>n / 10^k\<close> without superfluous zeros.\<close>

fun strip_zeros :: "int \<Rightarrow> nat \<Rightarrow> json" where
  "strip_zeros n 0 = JNum n 0"
| "strip_zeros n (Suc k) = (if n mod 10 = 0 then strip_zeros (n div 10) k else JNum n (Suc k))"

definition decimal :: "int \<Rightarrow> int \<Rightarrow> json" where
  "decimal n k = (if k \<le> 0 then JNum (n * 10 ^ nat (- k)) 0 else strip_zeros n (nat k))"

text \<open>The exponent of a number, and the rest.\<close>

definition parse_exponent :: "string \<Rightarrow> (int \<times> string) option" where
  "parse_exponent s =
     (if s \<noteq> [] \<and> (hd s = CHR ''e'' \<or> hd s = CHR ''E'')
      then (let r = tl s;
                neg = startsWith r ''-'';
                r' = (if neg \<or> startsWith r ''+'' then tl r else r);
                ds = takeWhile is_digit r'
            in if ds = [] then None
               else Some (if neg then - int (digits_value ds) else int (digits_value ds), dropWhile is_digit r'))
      else Some (0, s))"

definition parse_fraction :: "string \<Rightarrow> (string \<times> string) option" where
  "parse_fraction s =
     (if startsWith s ''.''
      then (let ds = takeWhile is_digit (tl s) in if ds = [] then None else Some (ds, dropWhile is_digit (tl s)))
      else Some ([], s))"

definition parse_number :: "string \<Rightarrow> (json \<times> string) option" where
  "parse_number s =
     (let neg = startsWith s ''-''; s1 = (if neg then tl s else s);
          ds = (if startsWith s1 ''0'' then ''0'' else takeWhile is_digit s1)
      in if ds = [] then None
         else (case parse_fraction (drop (length ds) s1) of
                 None \<Rightarrow> None
               | Some (fs, s2) \<Rightarrow>
                   (case parse_exponent s2 of
                      None \<Rightarrow> None
                    | Some (e, s3) \<Rightarrow>
                        (let n = int (digits_value (ds @ fs))
                         in Some (decimal (if neg then - n else n) (int (length fs) - e), s3)))))"


section \<open>Values\<close>

fun parse_value :: "nat \<Rightarrow> string \<Rightarrow> (json \<times> string) option"
and parse_elements :: "nat \<Rightarrow> string \<Rightarrow> (json list \<times> string) option"
and parse_members :: "nat \<Rightarrow> (string \<times> json) list \<Rightarrow> string \<Rightarrow> ((string \<times> json) list \<times> string) option"
where
  "parse_value 0 s = None"
| "parse_value (Suc f) s =
     (let t = skip_ws s
      in if t = [] then None
         else if hd t = CHR ''{''
         then (if startsWith (skip_ws (tl t)) ''}'' then Some (JObj [], tl (skip_ws (tl t)))
               else map_option (apfst JObj) (parse_members f [] (tl t)))
         else if hd t = CHR ''[''
         then (if startsWith (skip_ws (tl t)) '']'' then Some (JArr [], tl (skip_ws (tl t)))
               else map_option (apfst JArr) (parse_elements f (tl t)))
         else if hd t = CHR 0x22 then map_option (apfst JStr) (parse_chars (tl t))
         else if startsWith t ''null'' then Some (JNull, drop 4 t)
         else if startsWith t ''true'' then Some (JBool True, drop 4 t)
         else if startsWith t ''false'' then Some (JBool False, drop 5 t)
         else parse_number t)"
| "parse_elements 0 s = None"
| "parse_elements (Suc f) s =
     (case parse_value f s of
        None \<Rightarrow> None
      | Some (v, r) \<Rightarrow>
          (let t = skip_ws r
           in if startsWith t '','' then map_option (apfst (Cons v)) (parse_elements f (tl t))
              else if startsWith t '']'' then Some ([v], tl t)
              else None))"
| "parse_members 0 acc s = None"
| "parse_members (Suc f) acc s =
     (let t = skip_ws s
      in if startsWith t [CHR 0x22]
         then (case parse_chars (tl t) of
                 None \<Rightarrow> None
               | Some (k, r) \<Rightarrow>
                   (if startsWith (skip_ws r) '':''
                    then (case parse_value f (tl (skip_ws r)) of
                            None \<Rightarrow> None
                          | Some (v, r') \<Rightarrow>
                              (let acc' = AList.update k v acc; t' = skip_ws r'
                               in if startsWith t' '','' then parse_members f acc' (tl t')
                                  else if startsWith t' ''}'' then Some (acc', tl t')
                                  else None))
                    else None))
         else None)"

definition json_parse :: "string \<Rightarrow> json option" where
  "json_parse s =
     (case parse_value (2 * length s + 1) s of
        None \<Rightarrow> None
      | Some (v, r) \<Rightarrow> if skip_ws r = [] then Some v else None)"


section \<open>Strings\<close>

lemma hex_value_digit: "n < 16 \<Longrightarrow> hex_value (hex_digit n) = Some n"
  by (auto simp: hex_value_def hex_digit_def char_code_char_of Let_def)

lemma hex_value_0: "hex_value (CHR ''0'') = Some 0"
  by code_simp

lemma char_of_code [simp]: "char_of (char_code c) = c"
  by (simp add: char_code_def)

lemma hex_char_code:
  assumes "char_code c < 32"
  shows "hex_char [CHR ''0'', CHR ''0'', hex_digit (char_code c div 16), hex_digit (char_code c mod 16)] = Some c"
proof -
  have "char_code c div 16 < 16" "char_code c mod 16 < 16" using assms by simp_all
  then show ?thesis by (simp add: hex_char_def hex_value_digit hex_value_0)
qed

lemma plain_char_code:
  assumes "json_escape_char c = [c]" shows "c \<noteq> CHR 0x22 \<and> c \<noteq> CHR 0x5C \<and> \<not> char_code c < 32"
  using assms by (auto simp: json_escape_char_def split: if_splits)

lemma simple_escape_unescape:
  assumes "json_escape_char c = [CHR 0x5C, x]" shows "x \<noteq> CHR ''u'' \<and> simple_escape x = Some c"
  using assms by (auto simp: json_escape_char_def simple_escape_def split: if_splits)

lemma parse_escaped: "parse_chars (json_escape_char c @ t) = map_option (apfst (Cons c)) (parse_chars t)"
proof (cases c rule: json_escape_char_cases)
  case plain
  then show ?thesis using plain_char_code [OF plain(1)] by simp
next
  case (short x)
  then show ?thesis using simple_escape_unescape [OF short(1)] by simp
next
  case hex
  then show ?thesis using hex_char_code [OF hex(1)] by simp
qed

lemma parse_chars_escapes: "parse_chars (concat (map json_escape_char s) @ CHR 0x22 # r) = Some (s, r)"
proof (induction s)
  case (Cons c s)
  have "concat (map json_escape_char (c # s)) @ CHR 0x22 # r = json_escape_char c @ (concat (map json_escape_char s) @ CHR 0x22 # r)" by simp
  then show ?case by (simp only: parse_escaped Cons) simp
qed simp


section \<open>Numbers\<close>

lemma digits_value_snoc: "digits_value (ds @ [d]) = 10 * digits_value ds + (char_code d - 48)"
  by (simp add: digits_value_def)

lemma digits_value_append: "digits_value (as @ bs) = digits_value as * 10 ^ length bs + digits_value bs"
proof (induction bs rule: rev_induct)
  case (snoc b bs)
  have "digits_value (as @ bs @ [b]) = 10 * digits_value (as @ bs) + (char_code b - 48)"
    using digits_value_snoc [of "as @ bs" b] by simp
  then show ?case by (simp add: snoc digits_value_snoc)
qed (simp add: digits_value_def)

lemma digits_value_show [simp]: "digits_value (show_nat n) = n"
proof (induction n rule: show_nat.induct)
  case (1 n)
  show ?case
  proof (cases "n < 10")
    case True
    then show ?thesis by (simp add: show_nat.simps [of n] digits_value_def char_code_char_of)
  next
    case False
    then have "show_nat n = show_nat (n div 10) @ [char_of (48 + n mod 10)]" by (simp add: show_nat.simps [of n])
    then show ?thesis using 1 [OF False] by (simp add: digits_value_snoc char_code_char_of)
  qed
qed

lemma length_show_nat: "0 < k \<Longrightarrow> m < 10 ^ k \<Longrightarrow> length (show_nat m) \<le> k"
proof (induction k arbitrary: m)
  case (Suc k)
  show ?case
  proof (cases "m < 10")
    case False
    then have "0 < k" using Suc.prems(2) by (cases k) simp_all
    moreover have "m div 10 < 10 ^ k" using Suc.prems(2) by (simp add: less_mult_imp_div_less mult.commute)
    ultimately have "length (show_nat (m div 10)) \<le> k" by (rule Suc.IH)
    then show ?thesis using False by (simp add: show_nat.simps [of m])
  qed (simp add: show_nat.simps [of m])
qed simp

lemma digits_value_zeros [simp]: "digits_value (replicate i (CHR ''0'')) = 0"
proof (induction i)
  case (Suc i)
  have "digits_value (CHR ''0'' # replicate i (CHR ''0'')) = digits_value [CHR ''0''] * 10 ^ i + digits_value (replicate i (CHR ''0''))"
    using digits_value_append [of "[CHR ''0'']" "replicate i (CHR ''0'')"] by simp
  then show ?case using Suc by (simp add: digits_value_def char_code_def)
qed (simp add: digits_value_def)

lemma pad_zeros_value [simp]: "digits_value (pad_zeros k (show_nat m)) = m"
  by (simp add: pad_zeros_def digits_value_append)

lemma pad_zeros_digits: "list_all is_digit (pad_zeros k (show_nat m))"
  using show_nat_digits [of m] by (auto simp: pad_zeros_def is_digit_def char_code_def list_all_iff)

lemma length_pad_zeros: "0 < k \<Longrightarrow> m < 10 ^ k \<Longrightarrow> length (pad_zeros k (show_nat m)) = k"
  using length_show_nat [of k m] by (simp add: pad_zeros_def)

lemma zero_char: "char_of (48 :: nat) = CHR ''0''"
  by code_simp

lemma show_nat_zero_start: "startsWith (show_nat n @ r) ''0'' \<longleftrightarrow> n = 0"
proof (induction n arbitrary: r rule: show_nat.induct)
  case (1 n)
  show ?case
  proof (cases "n < 10")
    case True
    have "char_of (48 + n) = CHR ''0'' \<longleftrightarrow> n = 0"
    proof
      assume "char_of (48 + n) = CHR ''0''"
      then have "char_code (char_of (48 + n)) = char_code (CHR ''0'')" by simp
      then show "n = 0" using True by (simp add: char_code_char_of char_code_def)
    qed (simp add: zero_char)
    then show ?thesis using True by (simp add: show_nat.simps [of n])
  next
    case False
    then show ?thesis using 1 [OF False] by (simp add: show_nat.simps [of n])
  qed
qed

text \<open>A text that cannot continue a value: empty, or starting with a comma, a closing bracket or white space.\<close>

definition delimited :: "string \<Rightarrow> bool" where
  "delimited r \<longleftrightarrow> r = [] \<or> hd r \<in> {CHR '','', CHR '']'', CHR ''}''} \<or> json_ws (hd r)"

lemma delimited_number:
  "delimited r \<Longrightarrow> (r = [] \<or> \<not> is_digit (hd r)) \<and> \<not> startsWith r ''.'' \<and> parse_exponent r = Some (0, r)"
  by (cases r) (auto simp: delimited_def is_digit_def char_code_def parse_exponent_def json_ws_def)

lemma split_digits:
  assumes "list_all is_digit ds" "r = [] \<or> \<not> is_digit (hd r)"
  shows "takeWhile is_digit (ds @ r) = ds \<and> dropWhile is_digit (ds @ r) = r"
proof -
  have "takeWhile is_digit r = []" "dropWhile is_digit r = r" using assms(2) by (cases r; simp)+
  then show ?thesis
    using assms(1) takeWhile_append2 [of ds is_digit r] dropWhile_append2 [of ds is_digit r] by (simp add: list_all_iff)
qed

lemma parse_fraction_pad:
  assumes "delimited r" "0 < k" "m < 10 ^ k"
  shows "parse_fraction (CHR ''.'' # pad_zeros k (show_nat m) @ r) = Some (pad_zeros k (show_nat m), r)"
proof -
  have "pad_zeros k (show_nat m) \<noteq> []" by (simp add: pad_zeros_def)
  then show ?thesis
    using split_digits [OF pad_zeros_digits, of r k m] delimited_number [OF assms(1)] by (simp add: parse_fraction_def Let_def)
qed

text \<open>The integer part that the parser takes from the text of a natural number.\<close>

lemma integer_part:
  assumes "r = [] \<or> \<not> is_digit (hd r)"
  shows "(if startsWith (show_nat n @ r) ''0'' then ''0'' else takeWhile is_digit (show_nat n @ r)) = show_nat n"
  using show_nat_zero_start [of n r] take_digits_show_nat [OF assms] by (auto simp: show_nat.simps [of 0] zero_char)

lemma digit_not_minus: "\<not> startsWith (show_nat n @ r) ''-''"
proof -
  obtain c t where c: "show_nat n = c # t" by (cases "show_nat n") simp_all
  then have "is_digit c" using show_nat_digits [of n] by simp
  then show ?thesis unfolding c by (auto simp: is_digit_def char_code_def)
qed

lemma parse_decimal:
  assumes d: "delimited r" and normal: "k = 0 \<or> n mod 10 \<noteq> 0"
  shows "parse_number (show_decimal n k @ r) = Some (JNum n k, r)"
proof -
  define a b where "a = nat \<bar>n\<bar> div 10 ^ k" and "b = nat \<bar>n\<bar> mod 10 ^ k"
  define fs where "fs = (if k = 0 then [] else pad_zeros k (show_nat b))"
  define rest where "rest = (if k = 0 then r else CHR ''.'' # fs @ r)"
  have txt': "show_decimal n k @ r = (if n < 0 then ''-'' else []) @ show_nat a @ rest"
    by (simp add: show_decimal_def a_def b_def fs_def rest_def)
  have b: "b < 10 ^ k" by (simp add: b_def)
  have frac: "parse_fraction rest = Some (fs, r)"
  proof (cases "k = 0")
    case True
    then show ?thesis using delimited_number [OF d] by (simp add: rest_def fs_def parse_fraction_def)
  next
    case False
    then show ?thesis using parse_fraction_pad [OF d _ b] by (simp add: rest_def fs_def)
  qed
  have nd: "rest = [] \<or> \<not> is_digit (hd rest)"
    using delimited_number [OF d] by (auto simp: rest_def is_digit_def char_code_def)
  have len: "length fs = k" using length_pad_zeros [OF _ b] by (simp add: fs_def)
  have "digits_value (show_nat a @ fs) = a * 10 ^ k + b"
    using len by (auto simp: digits_value_append fs_def) (simp add: digits_value_def b_def)
  also have "\<dots> = nat \<bar>n\<bar>" unfolding a_def b_def by (rule div_mult_mod_eq)
  finally have val: "int (digits_value (show_nat a @ fs)) = \<bar>n\<bar>" by simp
  have dec: "decimal n (int k) = JNum n k" using normal by (cases k) (auto simp: decimal_def nat_add_distrib)
  let ?s = "if n < 0 then ''-'' else []"
  have sign: "startsWith (?s @ show_nat a @ rest) ''-'' \<longleftrightarrow> n < 0" by (simp add: digit_not_minus)
  have body: "(if n < 0 then tl (?s @ show_nat a @ rest) else ?s @ show_nat a @ rest) = show_nat a @ rest" by simp
  show ?thesis
    unfolding txt' parse_number_def Let_def sign body integer_part [OF nd]
    using frac val dec len delimited_number [OF d] by (auto simp: Let_def)
qed


section \<open>Round trip\<close>

text \<open>Values in normal form: numbers without superfluous zeros, objects without repeated names.\<close>

fun normal :: "json \<Rightarrow> bool" where
  "normal (JNum n k) \<longleftrightarrow> k = 0 \<or> n mod 10 \<noteq> 0"
| "normal (JArr xs) \<longleftrightarrow> list_all normal xs"
| "normal (JObj ps) \<longleftrightarrow> distinct (map fst ps) \<and> list_all (\<lambda>p. normal (snd p)) ps"
| "normal j \<longleftrightarrow> True"

text \<open>The bound on nested calls that a value needs.\<close>

fun need :: "json \<Rightarrow> nat" where
  "need (JArr xs) = Suc (foldr (\<lambda>x m. Suc (max (need x) m)) xs 0)"
| "need (JObj ps) = Suc (foldr (\<lambda>p m. Suc (max (need (snd p)) m)) ps 0)"
| "need j = 1"

lemma decimal_first: "\<exists>c t. show_decimal n k = c # t \<and> (c = CHR ''-'' \<or> is_digit c)"
proof -
  obtain c t where c: "show_nat (nat \<bar>n\<bar> div 10 ^ k) = c # t" by (cases "show_nat (nat \<bar>n\<bar> div 10 ^ k)") simp_all
  then have "is_digit c" using show_nat_digits [of "nat \<bar>n\<bar> div 10 ^ k"] by simp
  with c show ?thesis by (simp add: show_decimal_def)
qed

definition value_start :: "char \<Rightarrow> bool" where
  "value_start c \<longleftrightarrow> \<not> json_ws c \<and> c \<notin> {CHR '','', CHR '']'', CHR ''}''}"

lemma first_char: "\<exists>c t. stringify j = c # t \<and> value_start c"
proof (cases j)
  case (JNum n k)
  have "value_start c" if "c = CHR ''-'' \<or> is_digit c" for c
    using that by (auto simp: value_start_def json_ws_def is_digit_def char_code_def)
  then show ?thesis using decimal_first [of n k] JNum by auto
qed (auto simp: value_start_def json_ws_def json_quote_def)

lemma skip_ws_stringify [simp]: "skip_ws (stringify j @ r) = stringify j @ r"
  using first_char [of j] by (auto simp: skip_ws_def value_start_def)

lemma skip_ws_simps [simp]:
  "skip_ws (CHR '','' # r) = CHR '','' # r" "skip_ws (CHR '']'' # r) = CHR '']'' # r"
  "skip_ws (CHR ''}'' # r) = CHR ''}'' # r" "skip_ws (CHR '':'' # r) = CHR '':'' # r"
  "skip_ws (CHR 0x22 # r) = CHR 0x22 # r" "skip_ws (CHR ''['' # r) = CHR ''['' # r" "skip_ws (CHR ''{'' # r) = CHR ''{'' # r"
  by (simp_all add: skip_ws_def json_ws_def)

definition parses :: "json \<Rightarrow> bool" where
  "parses j \<longleftrightarrow> (\<forall>f r. delimited r \<longrightarrow> need j \<le> f \<longrightarrow> parse_value f (stringify j @ r) = Some (j, r))"

lemma parsesD: "parses j \<Longrightarrow> delimited r \<Longrightarrow> need j \<le> f \<Longrightarrow> parse_value f (stringify j @ r) = Some (j, r)"
  by (simp add: parses_def)

lemma delimited_simps [simp]: "delimited (CHR '','' # r)" "delimited (CHR '']'' # r)" "delimited (CHR ''}'' # r)"
  by (simp_all add: delimited_def)

lemma parse_elements_join:
  assumes "xs \<noteq> []" "list_all parses xs" "foldr (\<lambda>x m. Suc (max (need x) m)) xs 0 \<le> f"
  shows "parse_elements f (join '','' (map stringify xs) @ CHR '']'' # r) = Some (xs, r)"
  using assms
proof (induction xs arbitrary: f)
  case (Cons x xs)
  obtain g where f: "f = Suc g" "need x \<le> g" "foldr (\<lambda>x m. Suc (max (need x) m)) xs 0 \<le> g"
    using Cons.prems(3) by (cases f) simp_all
  show ?case
  proof (cases xs)
    case Nil
    then show ?thesis using parsesD [of x "CHR '']'' # r" g] Cons.prems(2) f by simp
  next
    case (Cons y ys)
    have "parse_elements g (join '','' (map stringify xs) @ CHR '']'' # r) = Some (xs, r)"
      using Cons.IH [OF _ _ f(3)] Cons.prems(2) Cons by simp
    moreover have "parse_value g (stringify x @ CHR '','' # join '','' (map stringify xs) @ CHR '']'' # r)
        = Some (x, CHR '','' # join '','' (map stringify xs) @ CHR '']'' # r)"
      using parsesD [of x _ g] Cons.prems(2) f(2) by simp
    ultimately show ?thesis using Cons f(1) by simp
  qed
qed simp

lemma parse_key: "parse_chars (tl (json_quote k @ r)) = Some (k, r)"
  using parse_chars_escapes [of k r] by (simp add: json_quote_def)

lemma json_quote_start: "skip_ws (json_quote k @ r) = json_quote k @ r" "startsWith (json_quote k @ r) [CHR 0x22]"
  by (simp_all add: json_quote_def)

text \<open>The text of a property.\<close>

definition member_text :: "string \<times> json \<Rightarrow> string" where
  "member_text p = json_quote (fst p) @ '':'' @ stringify (snd p)"

lemma parse_members_join:
  assumes "ps \<noteq> []" "list_all (\<lambda>p. parses (snd p)) ps" "foldr (\<lambda>p m. Suc (max (need (snd p)) m)) ps 0 \<le> f"
    and "distinct (map fst (acc @ ps))"
  shows "parse_members f acc (join '','' (map member_text ps) @ CHR ''}'' # r) = Some (acc @ ps, r)"
  using assms
proof (induction ps arbitrary: f acc)
  case (Cons p ps)
  obtain k v where p: "p = (k, v)" by (cases p)
  obtain g where f: "f = Suc g" "need v \<le> g" "foldr (\<lambda>p m. Suc (max (need (snd p)) m)) ps 0 \<le> g"
    using Cons.prems(3) by (cases f) (simp_all add: p)
  have v: "parses v" using Cons.prems(2) by (simp add: p)
  have m: "member_text p = json_quote k @ CHR '':'' # stringify v" by (simp add: member_text_def p)
  have upd: "AList.update k v acc = acc @ [(k, v)]" using Cons.prems(4) by (intro update_fresh) (simp add: p)
  show ?case
  proof (cases ps)
    case Nil
    have "parse_value g (stringify v @ CHR ''}'' # r) = Some (v, CHR ''}'' # r)" using parsesD [OF v _ f(2)] by simp
    then show ?thesis using Nil upd by (simp add: m f(1) json_quote_start parse_key Let_def) (simp add: p)
  next
    case (Cons q qs)
    let ?rest = "join '','' (map member_text ps) @ CHR ''}'' # r"
    have "parse_members g (acc @ [(k, v)]) ?rest = Some (acc @ (k, v) # ps, r)"
      using Cons.IH [OF _ _ f(3), of "acc @ [(k, v)]"] Cons.prems(2,4) Cons by (simp add: p)
    moreover have "parse_value g (stringify v @ CHR '','' # ?rest) = Some (v, CHR '','' # ?rest)"
      using parsesD [OF v _ f(2)] by simp
    ultimately show ?thesis using Cons upd by (simp add: m f(1) json_quote_start parse_key Let_def) (simp add: p)
  qed
qed simp

lemma stringify_members: "stringify (JObj ps) = CHR ''{'' # join '','' (map member_text ps) @ ''}''"
  by (simp add: member_text_def [abs_def] case_prod_unfold)

lemma join_first:
  assumes "xs \<noteq> []" "\<And>x. x \<in> set xs \<Longrightarrow> \<exists>c t. x = c # t \<and> value_start c"
  shows "\<exists>c t. join sep xs @ r = c # t \<and> value_start c"
proof -
  obtain x ys where xs: "xs = x # ys" using assms(1) by (cases xs) simp_all
  obtain c t where "x = c # t" "value_start c" using assms(2) [of x] xs by auto
  then show ?thesis using xs by (cases ys) auto
qed

lemma skip_value_start:
  assumes "\<exists>c t. s = c # t \<and> value_start c"
  shows "skip_ws s = s \<and> \<not> startsWith s '']'' \<and> \<not> startsWith s ''}''"
  using assms by (auto simp: value_start_def skip_ws_def)

lemma parses_number:
  assumes "normal (JNum n k)"
  shows "parses (JNum n k)"
  unfolding parses_def
proof (intro allI impI)
  fix f r assume r: "delimited r" and "need (JNum n k) \<le> f"
  then obtain g where f: "f = Suc g" by (cases f) simp_all
  obtain c t where c: "show_decimal n k = c # t" "c = CHR ''-'' \<or> is_digit c" using decimal_first by blast
  have "skip_ws (show_decimal n k @ r) = show_decimal n k @ r" using skip_ws_stringify [of "JNum n k" r] by simp
  moreover have "c \<notin> {CHR ''{'', CHR ''['', CHR 0x22, CHR ''n'', CHR ''t'', CHR ''f''}"
    using c(2) by (auto simp: is_digit_def char_code_def)
  moreover have "parse_number (show_decimal n k @ r) = Some (JNum n k, r)"
    using parse_decimal [OF r] assms by simp
  ultimately show "parse_value f (stringify (JNum n k) @ r) = Some (JNum n k, r)"
    unfolding f using c(1) by (simp add: Let_def)
qed

lemma parses_array:
  assumes "list_all parses xs"
  shows "parses (JArr xs)"
  unfolding parses_def
proof (intro allI impI)
  fix f r assume "need (JArr xs) \<le> f"
  then obtain g where f: "f = Suc g" "foldr (\<lambda>x m. Suc (max (need x) m)) xs 0 \<le> g" by (cases f) simp_all
  show "parse_value f (stringify (JArr xs) @ r) = Some (JArr xs, r)"
  proof (cases "xs = []")
    case False
    have "\<exists>c t. join '','' (map stringify xs) @ CHR '']'' # r = c # t \<and> value_start c"
      using False first_char by (intro join_first) fastforce+
    note skip_value_start [OF this]
    with parse_elements_join [OF False assms f(2), of r] show ?thesis by (simp add: f(1) Let_def)
  qed (simp add: f(1))
qed

lemma parses_object:
  assumes "list_all (\<lambda>p. parses (snd p)) ps" "distinct (map fst ps)"
  shows "parses (JObj ps)"
  unfolding parses_def
proof (intro allI impI)
  fix f r assume "need (JObj ps) \<le> f"
  then obtain g where f: "f = Suc g" "foldr (\<lambda>p m. Suc (max (need (snd p)) m)) ps 0 \<le> g" by (cases f) simp_all
  show "parse_value f (stringify (JObj ps) @ r) = Some (JObj ps, r)"
  proof (cases "ps = []")
    case False
    have "\<exists>c t. join '','' (map member_text ps) @ CHR ''}'' # r = c # t \<and> value_start c"
      using False by (intro join_first) (auto simp: member_text_def json_quote_def value_start_def json_ws_def)
    note skip_value_start [OF this]
    with parse_members_join [OF False assms(1) f(2), of "[]" r] assms(2) show ?thesis
      unfolding stringify_members by (simp add: f(1) Let_def)
  qed (simp add: f(1))
qed

lemma normal_parses: "normal j \<Longrightarrow> parses j"
proof (induction j)
  case (JArr xs)
  then show ?case by (intro parses_array) (auto simp: list_all_iff)
next
  case (JObj ps)
  then show ?case by (intro parses_object) (auto simp: list_all_iff)
next
  case (JStr s)
  have "parse_chars (tl (json_quote s @ r)) = Some (s, r)" for r by (rule parse_key)
  moreover have "hd (json_quote s @ r) = CHR 0x22" "json_quote s @ r \<noteq> []" for r by (simp_all add: json_quote_def)
  ultimately show ?case
    by (auto simp: parses_def json_quote_start Let_def gr0_conv_Suc Suc_le_eq)
next
  case (JNum n k)
  then show ?case by (rule parses_number)
qed (auto simp: parses_def gr0_conv_Suc Suc_le_eq skip_ws_def json_ws_def Let_def)

text \<open>Twice the length of the text bounds the nested calls.\<close>

lemma length_stringify: "0 < length (stringify j)"
  using first_char [of j] by auto

lemma need_join:
  assumes "xs \<noteq> []" "\<And>x. x \<in> set xs \<Longrightarrow> g x \<le> 2 * length (h x)"
  shows "foldr (\<lambda>x m. Suc (max (g x) m)) xs 0 \<le> 2 * length (join '','' (map h xs)) + 1"
  using assms
proof (induction xs)
  case (Cons x xs)
  show ?case
  proof (cases xs)
    case Nil
    then show ?thesis using Cons.prems(2) [of x] by simp
  next
    case (Cons y ys)
    have "foldr (\<lambda>x m. Suc (max (g x) m)) xs 0 \<le> 2 * length (join '','' (map h xs)) + 1"
      using Cons.IH Cons.prems(2) Cons by simp
    moreover have "g x \<le> 2 * length (h x)" using Cons.prems(2) by simp
    ultimately show ?thesis using Cons by simp
  qed
qed simp

lemma need_length: "need j \<le> 2 * length (stringify j)"
proof (induction j)
  case (JArr xs)
  then show ?case using need_join [of xs need stringify] by (cases "xs = []") auto
next
  case (JObj ps)
  have "need (snd p) \<le> 2 * length (member_text p)" if "p \<in> set ps" for p
    using JObj [OF that, of "snd p"] by (cases p) (auto simp: member_text_def)
  then show ?case
    unfolding stringify_members using need_join [of ps "\<lambda>p. need (snd p)" member_text] by (cases "ps = []") auto
next
  case (JNum n k)
  then show ?case using length_stringify [of "JNum n k"] by (simp add: Suc_le_eq)
qed (simp_all add: json_quote_def)


section \<open>Properties\<close>

lemma skip_ws_blank: "list_all json_ws u \<Longrightarrow> skip_ws (u @ x) = skip_ws x"
  by (induction u) (auto simp: skip_ws_def)

lemma parse_value_blank: "list_all json_ws u \<Longrightarrow> parse_value f (u @ x) = parse_value f x"
  by (cases f) (simp_all only: parse_value.simps skip_ws_blank)

lemma json_parse_blank:
  assumes "normal j" "list_all json_ws u" "list_all json_ws v"
  shows "json_parse (u @ stringify j @ v) = Some j"
proof -
  have "delimited v" using assms(3) by (cases v) (simp_all add: delimited_def)
  then have "parse_value (2 * length (u @ stringify j @ v) + 1) (stringify j @ v) = Some (j, v)"
    using normal_parses [OF assms(1)] need_length [of j] by (intro parsesD) simp_all
  moreover have "skip_ws v = []" using skip_ws_blank [OF assms(3), of "[]"] by (simp add: skip_ws_def)
  ultimately show ?thesis using parse_value_blank [OF assms(2)] by (simp add: json_parse_def)
qed

lemma parse_stringify: "normal j \<Longrightarrow> json_parse (stringify j) = Some j"
  using json_parse_blank [of j "[]" "[]"] by simp

text \<open>
  Parsing inverts printing: the text of a value in normal form (numbers without superfluous zeros,
  no repeated property names), with white space around it, parses to that value.
\<close>

theorem json_roundtrip:
  assumes "normal j" "list_all json_ws u" "list_all json_ws v"
  shows "json_parse (u @ stringify j @ v) = Some j"
  using assms by (rule json_parse_blank)

definition sample_json :: json where
  "sample_json = JObj [(''id'', JNum (- 125) 1), (''tags'', JArr [JStr [CHR 0x22, CHR 0x07], JNull, JBool True, JArr []]), (''o'', JObj [])]"

theorem json_roundtrip_witness: "json_parse ('' '' @ stringify sample_json @ nl) = Some sample_json"
  by (rule json_roundtrip) (simp_all add: sample_json_def json_ws_def nl_def)


section \<open>Enough fuel\<close>

text \<open>Every part of the parser leaves a shorter rest.\<close>

lemma length_skip_ws: "length (skip_ws s) \<le> length s"
  by (simp add: skip_ws_def length_dropWhile_le)

lemma rest_chars: "parse_chars s = Some (v, r) \<Longrightarrow> length r < length s"
proof (induction s arbitrary: v r rule: parse_chars.induct)
  case (2 c s)
  then show ?case
    by (fastforce split: if_splits option.splits simp: apfst_def map_prod_def)
qed simp

lemma rest_fraction: "parse_fraction s = Some (v, r) \<Longrightarrow> length r \<le> length s"
  using length_dropWhile_le [of is_digit "tl s"]
  by (auto simp: parse_fraction_def Let_def split: if_splits)

lemma rest_exponent: "parse_exponent s = Some (v, r) \<Longrightarrow> length r \<le> length s"
  using length_dropWhile_le [of is_digit "tl s"] length_dropWhile_le [of is_digit "tl (tl s)"]
  by (auto simp: parse_exponent_def Let_def split: if_splits)

lemma rest_number: "parse_number s = Some (v, r) \<Longrightarrow> length r < length s"
proof -
  assume p: "parse_number s = Some (v, r)"
  define s1 where "s1 = (if startsWith s ''-'' then tl s else s)"
  define ds where "ds = (if startsWith s1 ''0'' then ''0'' else takeWhile is_digit s1)"
  from p obtain fs s2 e where
    "ds \<noteq> []" "parse_fraction (drop (length ds) s1) = Some (fs, s2)" "parse_exponent s2 = Some (e, r)"
    unfolding parse_number_def Let_def s1_def [symmetric] unfolding ds_def [symmetric]
    by (auto split: if_splits option.splits prod.splits)
  moreover have "s1 \<noteq> []" using \<open>ds \<noteq> []\<close> by (auto simp: ds_def startsWith_def split: if_splits)
  moreover have "length s1 \<le> length s" by (simp add: s1_def)
  ultimately show ?thesis using rest_fraction rest_exponent by (fastforce simp: neq_Nil_conv)
qed


lemma rest_shorter:
  "parse_value f s = Some (v, r) \<Longrightarrow> length r < length s"
  "parse_elements f s = Some (vs, r) \<Longrightarrow> length r < length s"
  "parse_members f acc s = Some (ps, r) \<Longrightarrow> length r < length s"
proof (induction f s and f s and f acc s arbitrary: v r and vs r and ps r rule: parse_value_parse_elements_parse_members.induct)
  case (2 f s)
  define t where "t = skip_ws s"
  have t: "length t \<le> length s" using length_skip_ws by (simp add: t_def)
  have tt: "length (skip_ws (tl t)) \<le> length (tl t)" by (rule length_skip_ws)
  have "t \<noteq> []" using 2(3) by (auto simp: Let_def t_def [symmetric])
  then obtain c t' where c: "t = c # t'" by (cases t) auto
  have m: "parse_members f [] t' = Some (ps, r) \<Longrightarrow> c = CHR ''{'' \<Longrightarrow> \<not> startsWith (skip_ws t') ''}'' \<Longrightarrow> length r < length t'" for ps
    using 2(1) [of t ps r] c by (simp add: t_def)
  have e: "parse_elements f t' = Some (vs, r) \<Longrightarrow> c = CHR ''['' \<Longrightarrow> \<not> startsWith (skip_ws t') '']'' \<Longrightarrow> length r < length t'" for vs
    using 2(2) [of t vs r] c by (simp add: t_def)
  show ?case
    using 2(3) m e t tt c rest_number [of t v r] rest_chars [of t' _ r]
    by (fastforce simp: Let_def t_def [symmetric] apfst_def map_prod_def split: if_splits option.splits prod.splits)
next
  case (4 f s)
  from 4(3) obtain w q where w: "parse_value f s = Some (w, q)" by (auto split: option.splits)
  define t where "t = skip_ws q"
  have "length t < length s" using 4(1) [OF w] length_skip_ws [of q] by (simp add: t_def)
  moreover have "length r < length (tl t)" if "startsWith t '',''" "parse_elements f (tl t) = Some (us, r)" for us
    using 4(2) [OF w refl refl _ _] that by (simp add: t_def)
  ultimately show ?case using 4(3) w
    by (fastforce simp: Let_def t_def [symmetric] apfst_def map_prod_def split: if_splits option.splits prod.splits)
next
  case (6 f acc s)
  define t where "t = skip_ws s"
  from 6(3) obtain k q where k: "startsWith t [CHR 0x22]" "parse_chars (tl t) = Some (k, q)" "startsWith (skip_ws q) '':''"
    by (auto simp: Let_def t_def [symmetric] split: if_splits option.splits prod.splits)
  with 6(3) obtain v q' where v: "parse_value f (tl (skip_ws q)) = Some (v, q')"
    by (auto simp: Let_def t_def [symmetric] split: if_splits option.splits prod.splits)
  define t' where "t' = skip_ws q'"
  have "length q' < length (tl (skip_ws q))" using 6(1) [OF refl _ _ refl _ v] k by (simp add: t_def)
  then have "length t' < length s"
    using rest_chars [OF k(2)] length_skip_ws [of s] length_skip_ws [of q] length_skip_ws [of q'] by (simp add: t_def t'_def)
  moreover have "length r < length (tl t')" if "startsWith t' '',''" "parse_members f (AList.update k v acc) (tl t') = Some (us, r)" for us
    using 6(2) [OF refl _ _ refl _ v refl refl refl] k that by (simp add: t_def t'_def)
  ultimately show ?case using 6(3) k v
    by (fastforce simp: Let_def t_def [symmetric] t'_def [symmetric] split: if_splits option.splits prod.splits)
qed auto


text \<open>So the bound that \<^const>\<open>json_parse\<close> gives always suffices: more makes no difference.\<close>

lemma fuel_enough:
  "2 * length s + 1 \<le> f \<Longrightarrow> 2 * length s + 1 \<le> g \<Longrightarrow> parse_value f s = parse_value g s"
  "2 * length s + 2 \<le> f \<Longrightarrow> 2 * length s + 2 \<le> g \<Longrightarrow> parse_elements f s = parse_elements g s"
  "2 * length s + 1 \<le> f \<Longrightarrow> 2 * length s + 1 \<le> g \<Longrightarrow> parse_members f acc s = parse_members g acc s"
proof (induction f s and f s and f acc s arbitrary: g and g and g rule: parse_value_parse_elements_parse_members.induct)
  case (2 f s)
  obtain h where g: "g = Suc h" using 2(4) by (cases g) auto
  define t where "t = skip_ws s"
  have t: "length t \<le> length s" using length_skip_ws by (simp add: t_def)
  show ?case
  proof (cases t)
    case Nil
    then show ?thesis using g by (simp add: Let_def t_def [symmetric])
  next
    case (Cons c t')
    then have "2 * length t' + 2 \<le> f" "2 * length t' + 2 \<le> h" using t 2(3,4) g by auto
    then have "c = CHR ''{'' \<Longrightarrow> \<not> startsWith (skip_ws t') ''}'' \<Longrightarrow> parse_members f [] t' = parse_members h [] t'"
      "c = CHR ''['' \<Longrightarrow> \<not> startsWith (skip_ws t') '']'' \<Longrightarrow> parse_elements f t' = parse_elements h t'"
      using 2(1) [of t h] 2(2) [of t h] Cons by (simp_all add: t_def)
    then show ?thesis using g Cons by (simp add: Let_def t_def [symmetric])
  qed
next
  case (4 f s)
  obtain h where g: "g = Suc h" using 4(4) by (cases g) auto
  have v: "parse_value h s = parse_value f s" using 4(1) [of h] 4(3,4) g by simp
  show ?case
  proof (cases "parse_value f s")
    case None
    with v g show ?thesis by simp
  next
    case (Some p)
    obtain w q where w: "parse_value f s = Some (w, q)" using Some by (cases p) auto
    have "length (tl (skip_ws q)) < length s" using rest_shorter(1) [OF w] length_skip_ws [of q] by simp
    then have "2 * length (tl (skip_ws q)) + 2 \<le> f" "2 * length (tl (skip_ws q)) + 2 \<le> h" using 4(3,4) g by auto
    then have "startsWith (skip_ws q) '','' \<Longrightarrow> parse_elements f (tl (skip_ws q)) = parse_elements h (tl (skip_ws q))"
      using 4(2) [OF w refl refl, where g = h] by simp
    with v w g show ?thesis by (simp add: Let_def)
  qed
next
  case (6 f acc s)
  obtain h where g: "g = Suc h" using 6(4) by (cases g) auto
  define t where "t = skip_ws s"
  show ?case
  proof (cases "startsWith t [CHR 0x22] \<and> (\<exists>k q. parse_chars (tl t) = Some (k, q) \<and> startsWith (skip_ws q) '':'')")
    case False
    then show ?thesis using g by (auto simp: Let_def t_def [symmetric] split: option.splits)
  next
    case True
    then obtain k q where k: "startsWith t [CHR 0x22]" "parse_chars (tl t) = Some (k, q)" "startsWith (skip_ws q) '':''" by blast
    let ?q = "tl (skip_ws q)"
    have q: "length ?q < length s" using rest_chars [OF k(2)] length_skip_ws [of s] length_skip_ws [of q] by (simp add: t_def)
    then have "2 * length ?q + 1 \<le> f" "2 * length ?q + 1 \<le> h" using 6(3,4) g by auto
    then have v: "parse_value f ?q = parse_value h ?q" using 6(1) [OF refl _ k(2) [unfolded t_def] refl, where g = h] k by (simp add: t_def)
    show ?thesis
    proof (cases "parse_value f ?q")
      case None
      with v k g show ?thesis by (simp add: Let_def t_def [symmetric])
    next
      case (Some p)
      obtain w r where w: "parse_value f ?q = Some (w, r)" using Some by (cases p) auto
      have "length (tl (skip_ws r)) < length s" using q rest_shorter(1) [OF w] length_skip_ws [of r] by simp
      then have "2 * length (tl (skip_ws r)) + 1 \<le> f" "2 * length (tl (skip_ws r)) + 1 \<le> h" using 6(3,4) g by auto
      then have "startsWith (skip_ws r) '','' \<Longrightarrow>
          parse_members f (AList.update k w acc) (tl (skip_ws r)) = parse_members h (AList.update k w acc) (tl (skip_ws r))"
        using 6(2) [OF refl _ k(2) [unfolded t_def] refl _ w refl refl refl, where g = h] k by (simp add: t_def)
      moreover have "parse_value h ?q = Some (w, r)" using v w by simp
      ultimately show ?thesis using w k g by (simp add: Let_def t_def [symmetric])
    qed
  qed
qed auto

text \<open>
  The fuel of the parser never decides the result: with more fuel it returns the same, so None
  means a syntax error.
\<close>

theorem json_parse_total:
  assumes "2 * length s + 1 \<le> f"
  shows "json_parse s = (case parse_value f s of None \<Rightarrow> None | Some (v, r) \<Rightarrow> if skip_ws r = [] then Some v else None)"
  unfolding json_parse_def using fuel_enough(1) [OF assms, of "2 * length s + 1"] by simp

theorem json_parse_total_witness: "json_parse ''[1,{}]'' = Some (JArr [JNum 1 0, JObj []])"
proof -
  have "parse_value 100 ''[1,{}]'' = Some (JArr [JNum 1 0, JObj []], [])" by code_simp
  with json_parse_total [of "''[1,{}]''" 100] show ?thesis by (simp add: skip_ws_def)
qed

end
