(* ===== verification/Node_Cache.thy ===== *)
theory Node_Cache
  imports Json_Parse
begin

text \<open>
  Model of \<open>resilient-node-cache/src/index.ts\<close>: \<open>WebSocketMongoSync\<close> copies the blocks of a
  ResilientDB node into a MongoDB collection. Every \<open>await\<close> is a point where other code
  of the object runs, so the model is a machine: each event (a call, an answer of the node, an
  operation of the database, a timer, a change of a socket) runs the code up to the next \<open>await\<close>. The order of the
  events is free, and the node is a parameter that may answer differently at every request.
  The theory shows that the copy of an honest node's chain has no gaps in any order of events,
  when a synchronisation ends, and what a failure or a restart loses.
\<close>

section \<open>Configuration\<close>

record ResilientDBConfig =
  rc_protocol :: string
  rc_hostname :: string
  rc_port :: string
  rc_httpSecure :: "bool option"
  rc_wsSecure :: "bool option"
  rc_httpEndpoint :: "string option"
  rc_wsEndpoint :: "string option"
  rc_reconnectInterval :: "nat option"
  rc_fetchInterval :: "nat option"

record Endpoints =
  ep_http :: string
  ep_ws :: string
  ep_reconnectInterval :: nat
  ep_fetchInterval :: nat

text \<open>
  \<open>initializeEndpoints\<close>, given the parts of the base URL as the \<open>URL\<close> class returns them (the
  protocol with its colon).
\<close>

definition initializeEndpoints :: "ResilientDBConfig \<Rightarrow> string + Endpoints" where
  "initializeEndpoints cfg =
     (if rc_protocol cfg \<noteq> ''resilientdb:'' then Inl ''Invalid protocol in baseUrl. Expected resilientdb://''
      else
        (let hostPort = (if rc_port cfg \<noteq> [] then rc_hostname cfg @ '':'' @ rc_port cfg else rc_hostname cfg);
             httpProtocol = (if or_default (rc_httpSecure cfg) False then ''https'' else ''http'');
             wsProtocol = (if or_default (rc_wsSecure cfg) False then ''wss'' else ''ws'')
         in Inr \<lparr>ep_http = (if present (rc_httpEndpoint cfg) then or_default (rc_httpEndpoint cfg) []
                            else httpProtocol @ ''://'' @ hostPort @ ''/v1/blocks''),
                 ep_ws = (if present (rc_wsEndpoint cfg) then or_default (rc_wsEndpoint cfg) []
                          else wsProtocol @ ''://'' @ hostPort @ ''/blockupdatelistener''),
                 ep_reconnectInterval = or_default (rc_reconnectInterval cfg) 5000,
                 ep_fetchInterval = or_default (rc_fetchInterval cfg) 30000\<rparr>))"


section \<open>Blocks\<close>

text \<open>
  A block: its \<open>id\<close> when it has one, its \<open>transactions\<close> when they are an array, and the other
  properties.
\<close>

record Block =
  bk_id :: "nat option"
  bk_transactions :: "json list option"
  bk_rest :: "(string \<times> json) list"

definition block_id :: "Block \<Rightarrow> nat" where
  "block_id b = or_default (bk_id b) 0"

text \<open>A string value that looks like an object or an array is replaced by what it parses to.\<close>

definition processValue :: "json \<Rightarrow> json" where
  "processValue v =
     (case v of
        JStr s \<Rightarrow>
          (let t = trim s
           in if startsWith t ''{'' \<and> endsWith t ''}'' \<or> startsWith t ''['' \<and> endsWith t '']''
              then (case json_parse s of Some j \<Rightarrow> j | None \<Rightarrow> v)
              else v)
      | _ \<Rightarrow> v)"

definition processTransaction :: "json \<Rightarrow> json" where
  "processTransaction t =
     (case t of JObj ps \<Rightarrow> JObj (map (\<lambda>(k, v). (k, if k = ''value'' then processValue v else v)) ps) | _ \<Rightarrow> t)"

definition processBlock :: "Block \<Rightarrow> Block" where
  "processBlock b = b\<lparr>bk_transactions := map_option (map processTransaction) (bk_transactions b)\<rparr>"

definition processBlocks :: "Block list \<Rightarrow> Block list" where
  "processBlocks blocks = map processBlock blocks"


section \<open>The collection\<close>

text \<open>\<open>$set\<close>: the properties of the block replace those of the document.\<close>

definition set_fields :: "Block \<Rightarrow> Block \<Rightarrow> Block" where
  "set_fields b d =
     \<lparr>bk_id = bk_id b,
      bk_transactions = (case bk_transactions b of None \<Rightarrow> bk_transactions d | Some ts \<Rightarrow> Some ts),
      bk_rest = fold (\<lambda>(k, v). AList.update k v) (bk_rest b) (bk_rest d)\<rparr>"

text \<open>\<open>updateOne\<close> with \<open>upsert\<close>: the first document with the same id, or a new one.\<close>

fun upsert :: "Block \<Rightarrow> Block list \<Rightarrow> Block list" where
  "upsert b [] = [b]"
| "upsert b (d # ds) = (if bk_id d = bk_id b then set_fields b d # ds else d # upsert b ds)"

definition bulkWrite :: "Block list \<Rightarrow> Block list \<Rightarrow> Block list" where
  "bulkWrite blocks docs = fold upsert blocks docs"

text \<open>\<open>findOne({}, { sort: { id: -1 } })\<close> and the test of its id.\<close>

definition lastBlockNumber :: "Block list \<Rightarrow> nat" where
  "lastBlockNumber docs = fold (\<lambda>d. max (block_id d)) docs 0"


section \<open>Synchronisation\<close>

text \<open>
  What the node answers to a request for a range of blocks, at a point of time: the request
  fails, the body is not an array, or it is a list of blocks. Time is the number of events so far.
\<close>

datatype blocks_reply = Unreachable string | NoArray | BlockList "Block list"

type_synonym seq_range = "nat \<times> nat"
type_synonym chain_node = "nat \<Rightarrow> seq_range \<Rightarrow> blocks_reply"

definition batchSize :: nat where
  "batchSize = 100"

definition concurrencyLimit :: nat where
  "concurrencyLimit = 5"

text \<open>
  A call of \<open>initialize\<close> or \<open>fetchAndSyncNewBlocks\<close>, at what it awaits. Only \<open>initialize\<close> opens
  the connection to the database and reads the last block of the collection; the database has
  answered the query at \<open>Found\<close>, and the answer is on its way. Then either call looks for new
  blocks with the ranges found so far, or its workers fetch and write ranges while other ranges
  are queued, or it has ended.
\<close>

datatype worker = Fetching seq_range | Writing seq_range "Block list"

datatype phase =
    Opening
  | Reading
  | Found nat
  | Discovering seq_range "seq_range list"
  | Working "worker list" "seq_range list"
  | Finished
  | Failed string

record Sync =
  sy_initial :: bool
  sy_phase :: phase

text \<open>The next iteration of \<open>while (blocksFetched)\<close>, up to its request.\<close>

definition discover :: "nat \<Rightarrow> seq_range list \<Rightarrow> phase" where
  "discover currentBlockNumber batchRanges =
     (let min_seq = currentBlockNumber + 1; max_seq = min_seq + batchSize - 1
      in Discovering (min_seq, max_seq) batchRanges)"

text \<open>\<open>processBatchRanges\<close>: every worker takes a range from the queue; without ranges the call ends.\<close>

definition processBatchRanges :: "seq_range list \<Rightarrow> phase" where
  "processBatchRanges batchRanges =
     (if batchRanges = [] then Finished
      else Working (map Fetching (take concurrencyLimit batchRanges)) (drop concurrencyLimit batchRanges))"

definition max_id :: "nat \<Rightarrow> Block list \<Rightarrow> nat" where
  "max_id m blocks = fold (\<lambda>b. max (block_id b)) blocks m"

text \<open>The rest of the iteration, after the answer: the new phase and the new \<open>currentBlockNumber\<close>.\<close>

fun discovered :: "blocks_reply \<Rightarrow> seq_range \<Rightarrow> seq_range list \<Rightarrow> nat \<Rightarrow> phase \<times> nat" where
  "discovered (Unreachable e) r batchRanges cur = (Failed e, cur)"
| "discovered NoArray r batchRanges cur = (processBatchRanges batchRanges, cur)"
| "discovered (BlockList []) r batchRanges cur = (processBatchRanges batchRanges, cur)"
| "discovered (BlockList (b # bs)) r batchRanges cur =
     (let cur' = max_id cur (b # bs) in (discover cur' (batchRanges @ [r]), cur'))"

text \<open>
  A worker after the answer to its request: it writes the blocks, or is done with the range. An
  error is logged and swallowed.
\<close>

fun fetched :: "blocks_reply \<Rightarrow> seq_range \<Rightarrow> worker option" where
  "fetched (BlockList (b # bs)) r = Some (Writing r (processBlocks (b # bs)))"
| "fetched reply r = None"

text \<open>A worker that is done with its range takes the next one; when none is left it returns.\<close>

definition next_range :: "nat \<Rightarrow> worker list \<Rightarrow> seq_range list \<Rightarrow> phase" where
  "next_range j workers queue =
     (case queue of
        q # qs \<Rightarrow> Working (workers[j := Fetching q]) qs
      | [] \<Rightarrow> (let rest = take j workers @ drop (Suc j) workers
               in if rest = [] then Finished else Working rest []))"

definition after_fetch :: "blocks_reply \<Rightarrow> seq_range \<Rightarrow> nat \<Rightarrow> worker list \<Rightarrow> seq_range list \<Rightarrow> phase" where
  "after_fetch reply r j workers queue =
     (case fetched reply r of Some w \<Rightarrow> Working (workers[j := w]) queue | None \<Rightarrow> next_range j workers queue)"


section \<open>Connection\<close>

datatype socket_state = Connecting | Open | Closing | Closed

text \<open>
  The sockets opened so far (the last one is \<open>this.ws\<close>) with those that have a listener that
  closes \<open>this.ws\<close> when they open, the timers that wait to reconnect with their delays, the
  running intervals with the one in \<open>fetchIntervalId\<close>, and the events emitted.
\<close>

datatype sync_event = Connected | Disconnected | ErrorEvent | ClosedEvent

record Connection =
  cn_sockets :: "socket_state list"
  cn_closeOnOpen :: "nat list"
  cn_reconnectAttempts :: nat
  cn_isClosing :: bool
  cn_reconnectTimers :: "nat list"
  cn_intervals :: "nat list"
  cn_fetchIntervalId :: "nat option"
  cn_nextInterval :: nat
  cn_events :: "sync_event list"

definition new_Connection :: Connection where
  "new_Connection = \<lparr>cn_sockets = [], cn_closeOnOpen = [], cn_reconnectAttempts = 0, cn_isClosing = False,
     cn_reconnectTimers = [], cn_intervals = [], cn_fetchIntervalId = None, cn_nextInterval = 1, cn_events = []\<rparr>"

definition emit :: "sync_event \<Rightarrow> Connection \<Rightarrow> Connection" where
  "emit e c = c\<lparr>cn_events := cn_events c @ [e]\<rparr>"

definition connectWebSocket :: "Connection \<Rightarrow> Connection" where
  "connectWebSocket c = c\<lparr>cn_sockets := cn_sockets c @ [Connecting]\<rparr>"

definition startPeriodicFetch :: "Connection \<Rightarrow> Connection" where
  "startPeriodicFetch c =
     c\<lparr>cn_intervals := cn_intervals c @ [cn_nextInterval c], cn_fetchIntervalId := Some (cn_nextInterval c),
       cn_nextInterval := cn_nextInterval c + 1\<rparr>"

definition stopPeriodicFetch :: "Connection \<Rightarrow> Connection" where
  "stopPeriodicFetch c =
     (case cn_fetchIntervalId c of
        None \<Rightarrow> c
      | Some i \<Rightarrow> c\<lparr>cn_intervals := filter (\<lambda>j. j \<noteq> i) (cn_intervals c)\<rparr>)"

definition attemptReconnection :: "nat \<Rightarrow> Connection \<Rightarrow> Connection" where
  "attemptReconnection reconnectInterval c =
     c\<lparr>cn_reconnectTimers := cn_reconnectTimers c @ [reconnectInterval * 2 ^ cn_reconnectAttempts c]\<rparr>"

text \<open>\<open>this.ws.close()\<close>.\<close>

definition close_socket :: "Connection \<Rightarrow> Connection" where
  "close_socket c =
     (let i = length (cn_sockets c) - 1
      in if cn_sockets c \<noteq> [] \<and> cn_sockets c ! i \<in> {Connecting, Open}
         then c\<lparr>cn_sockets := (cn_sockets c)[i := Closing]\<rparr> else c)"

text \<open>The handler of \<open>open\<close>, followed by the one that \<open>close\<close> may have added.\<close>

definition on_open :: "nat \<Rightarrow> Connection \<Rightarrow> Connection" where
  "on_open i c =
     (if i < length (cn_sockets c) \<and> cn_sockets c ! i = Connecting
      then (let c' = emit Connected (c\<lparr>cn_sockets := (cn_sockets c)[i := Open], cn_reconnectAttempts := 0\<rparr>)
            in if i \<in> set (cn_closeOnOpen c') then close_socket c' else c')
      else c)"

definition on_close :: "nat \<Rightarrow> nat \<Rightarrow> Connection \<Rightarrow> Connection" where
  "on_close reconnectInterval i c =
     (if i < length (cn_sockets c) \<and> cn_sockets c ! i \<noteq> Closed
      then (let c' = emit Disconnected (c\<lparr>cn_sockets := (cn_sockets c)[i := Closed]\<rparr>)
            in if cn_isClosing c' then c' else attemptReconnection reconnectInterval c')
      else c)"

definition on_reconnect_timer :: "nat \<Rightarrow> Connection \<Rightarrow> Connection" where
  "on_reconnect_timer k c =
     (if k < length (cn_reconnectTimers c)
      then connectWebSocket (c\<lparr>cn_reconnectTimers := take k (cn_reconnectTimers c) @ drop (Suc k) (cn_reconnectTimers c),
                              cn_reconnectAttempts := cn_reconnectAttempts c + 1\<rparr>)
      else c)"

text \<open>\<open>close\<close>, when the MongoDB client closes or fails to.\<close>

definition close_connection :: "bool \<Rightarrow> Connection \<Rightarrow> Connection" where
  "close_connection mongo_closes c =
     (let c1 = c\<lparr>cn_isClosing := True\<rparr>; i = length (cn_sockets c1) - 1;
          c2 = (if cn_sockets c1 = [] then c1
                else case cn_sockets c1 ! i of
                       Connecting \<Rightarrow> c1\<lparr>cn_closeOnOpen := cn_closeOnOpen c1 @ [i]\<rparr>
                     | Open \<Rightarrow> close_socket c1
                     | _ \<Rightarrow> c1);
          c3 = stopPeriodicFetch c2
      in if mongo_closes then emit ClosedEvent c3 else c3)"

text \<open>
  What a message asks for: text that is not JSON is its own type; \<open>null\<close> has no properties.
\<close>

datatype message_action = StartSync | Unrecognized | MessageError

definition on_message :: "string \<Rightarrow> message_action" where
  "on_message message =
     (case (case json_parse message of Some j \<Rightarrow> j | None \<Rightarrow> JObj [(''type'', JStr message)]) of
        JNull \<Rightarrow> MessageError
      | JObj ps \<Rightarrow> if map_of ps ''type'' = Some (JStr ''Update blocks'') then StartSync else Unrecognized
      | _ \<Rightarrow> Unrecognized)"


section \<open>The whole object\<close>

record SyncState =
  sn_currentBlockNumber :: nat
  sn_collection :: "Block list"
  sn_syncs :: "Sync list"
  sn_clock :: nat
  sn_conn :: Connection

definition new_SyncState :: "Block list \<Rightarrow> SyncState" where
  "new_SyncState docs = \<lparr>sn_currentBlockNumber = 0, sn_collection = docs, sn_syncs = [], sn_clock = 0, sn_conn = new_Connection\<rparr>"

text \<open>\<open>initialize\<close>, up to its \<open>await this.mongoClient.connect()\<close>.\<close>

definition initialize :: "SyncState \<Rightarrow> SyncState" where
  "initialize s = s\<lparr>sn_syncs := sn_syncs s @ [\<lparr>sy_initial = True, sy_phase = Opening\<rparr>]\<rparr>"

definition fetchAndSyncNewBlocks :: "SyncState \<Rightarrow> SyncState" where
  "fetchAndSyncNewBlocks s =
     s\<lparr>sn_syncs := sn_syncs s @ [\<lparr>sy_initial = False, sy_phase = discover (sn_currentBlockNumber s) []\<rparr>]\<rparr>"

text \<open>
  What follows when a call ends: \<open>initialize\<close> starts the periodic fetch and the socket, or
  throws; a failed \<open>fetchAndSyncNewBlocks\<close> emits the error.
\<close>

definition after_phase :: "bool \<Rightarrow> phase \<Rightarrow> Connection \<Rightarrow> Connection" where
  "after_phase initial p c =
     (case p of
        Finished \<Rightarrow> if initial then connectWebSocket (startPeriodicFetch c) else c
      | Failed e \<Rightarrow> if initial then c else emit ErrorEvent c
      | _ \<Rightarrow> c)"

definition set_phase :: "nat \<Rightarrow> phase \<Rightarrow> SyncState \<Rightarrow> SyncState" where
  "set_phase t p s =
     (let y = sn_syncs s ! t
      in s\<lparr>sn_syncs := (sn_syncs s)[t := y\<lparr>sy_phase := p\<rparr>], sn_conn := after_phase (sy_initial y) p (sn_conn s)\<rparr>)"

text \<open>
  \<open>fetchAndSyncInitialBlocks\<close>, called by \<open>initialize\<close> once the connection is open: up to the
  query for the last block, and from its answer to the first request for blocks.
\<close>

definition fetchAndSyncInitialBlocks :: "nat \<Rightarrow> SyncState \<Rightarrow> SyncState" where
  "fetchAndSyncInitialBlocks t s = set_phase t Reading s"

definition last_block_found :: "nat \<Rightarrow> nat \<Rightarrow> SyncState \<Rightarrow> SyncState" where
  "last_block_found t lastBlock s = set_phase t (discover lastBlock []) (s\<lparr>sn_currentBlockNumber := lastBlock\<rparr>)"

text \<open>The database evaluates the query that call \<open>t\<close> awaits.\<close>

definition evaluate_query :: "nat \<Rightarrow> SyncState \<Rightarrow> SyncState" where
  "evaluate_query t s =
     (if t < length (sn_syncs s) \<and> sy_phase (sn_syncs s ! t) = Reading
      then set_phase t (Found (lastBlockNumber (sn_collection s))) s
      else s)"

text \<open>
  The promise of the database that call \<open>t\<close> awaits settles. An error of the connection or of the
  query leaves \<open>fetchAndSyncInitialBlocks\<close> and \<open>initialize\<close>, which log it and throw it again.
\<close>

definition database :: "nat \<Rightarrow> string option \<Rightarrow> SyncState \<Rightarrow> SyncState" where
  "database t error s =
     (if t < length (sn_syncs s)
      then (case (sy_phase (sn_syncs s ! t), error) of
              (Opening, None) \<Rightarrow> fetchAndSyncInitialBlocks t s
            | (Found lastBlock, None) \<Rightarrow> last_block_found t lastBlock s
            | (Opening, Some e) \<Rightarrow> set_phase t (Failed e) s
            | (Reading, Some e) \<Rightarrow> set_phase t (Failed e) s
            | (Found lastBlock, Some e) \<Rightarrow> set_phase t (Failed e) s
            | _ \<Rightarrow> s)
      else s)"

text \<open>The answer to the request that sync \<open>t\<close>, or its worker \<open>j\<close>, awaits.\<close>

definition answer :: "chain_node \<Rightarrow> nat \<Rightarrow> nat \<Rightarrow> SyncState \<Rightarrow> SyncState" where
  "answer node t j s =
     (if t < length (sn_syncs s)
      then (case sy_phase (sn_syncs s ! t) of
              Discovering r batchRanges \<Rightarrow>
                (case discovered (node (sn_clock s) r) r batchRanges (sn_currentBlockNumber s) of
                   (p, cur) \<Rightarrow> set_phase t p (s\<lparr>sn_currentBlockNumber := cur\<rparr>))
            | Working workers queue \<Rightarrow>
                (if j < length workers
                 then (case workers ! j of
                         Fetching r \<Rightarrow> set_phase t (after_fetch (node (sn_clock s) r) r j workers queue) s
                       | Writing r blocks \<Rightarrow> s)
                 else s)
            | _ \<Rightarrow> s)
      else s)"

text \<open>
  The end of the bulk write of worker \<open>j\<close>: all of it, or an error after its first \<open>k\<close> operations.
\<close>

definition write_done :: "nat \<Rightarrow> nat \<Rightarrow> nat option \<Rightarrow> SyncState \<Rightarrow> SyncState" where
  "write_done t j failed_after s =
     (if t < length (sn_syncs s)
      then (case sy_phase (sn_syncs s ! t) of
              Working workers queue \<Rightarrow>
                (if j < length workers
                 then (case workers ! j of
                         Fetching r \<Rightarrow> s
                       | Writing r blocks \<Rightarrow>
                           set_phase t (next_range j workers queue)
                             (s\<lparr>sn_collection := bulkWrite (case failed_after of None \<Rightarrow> blocks | Some k \<Rightarrow> take k blocks)
                                                  (sn_collection s)\<rparr>))
                 else s)
            | _ \<Rightarrow> s)
      else s)"

text \<open>
  The events that drive the object: the calls of its two public methods, what the node, the
  database, the socket and the timers do, and a restart of the process on the same collection.
\<close>

datatype event =
    Initialize
  | Evaluate nat
  | Database nat "string option"
  | FetchTimer
  | Message nat string
  | Answer nat nat
  | WriteDone nat nat "nat option"
  | SocketOpens nat
  | SocketError nat
  | SocketCloses nat
  | ReconnectTimer nat
  | CloseCalled bool
  | Restart

fun handle :: "nat \<Rightarrow> chain_node \<Rightarrow> event \<Rightarrow> SyncState \<Rightarrow> SyncState" where
  "handle iv node Initialize s = initialize s"
| "handle iv node (Evaluate t) s = evaluate_query t s"
| "handle iv node (Database t error) s = database t error s"
| "handle iv node FetchTimer s = (if cn_intervals (sn_conn s) \<noteq> [] then fetchAndSyncNewBlocks s else s)"
| "handle iv node (Message i m) s =
     (if i < length (cn_sockets (sn_conn s)) \<and> cn_sockets (sn_conn s) ! i = Open
      then (case on_message m of
              StartSync \<Rightarrow> fetchAndSyncNewBlocks s
            | Unrecognized \<Rightarrow> s
            | MessageError \<Rightarrow> s\<lparr>sn_conn := emit ErrorEvent (sn_conn s)\<rparr>)
      else s)"
| "handle iv node (Answer t j) s = answer node t j s"
| "handle iv node (WriteDone t j k) s = write_done t j k s"
| "handle iv node (SocketOpens i) s = s\<lparr>sn_conn := on_open i (sn_conn s)\<rparr>"
| "handle iv node (SocketError i) s = s\<lparr>sn_conn := emit ErrorEvent (sn_conn s)\<rparr>"
| "handle iv node (SocketCloses i) s = s\<lparr>sn_conn := on_close iv i (sn_conn s)\<rparr>"
| "handle iv node (ReconnectTimer k) s = s\<lparr>sn_conn := on_reconnect_timer k (sn_conn s)\<rparr>"
| "handle iv node (CloseCalled ok) s = s\<lparr>sn_conn := close_connection ok (sn_conn s)\<rparr>"
| "handle iv node Restart s =
     s\<lparr>sn_currentBlockNumber := 0, sn_syncs := [], sn_conn := new_Connection\<rparr>"

definition sync_step :: "nat \<Rightarrow> chain_node \<Rightarrow> event \<Rightarrow> SyncState \<Rightarrow> SyncState" where
  "sync_step iv node e s = (handle iv node e s)\<lparr>sn_clock := sn_clock s + 1\<rparr>"

definition run_sync :: "nat \<Rightarrow> chain_node \<Rightarrow> event list \<Rightarrow> SyncState \<Rightarrow> SyncState" where
  "run_sync iv node es s = fold (sync_step iv node) es s"


section \<open>Stored blocks\<close>

definition stored :: "nat \<Rightarrow> Block list \<Rightarrow> bool" where
  "stored n docs \<longleftrightarrow> list_ex (\<lambda>d. bk_id d = Some n) docs"

lemma bk_id_set_fields [simp]: "bk_id (set_fields b d) = bk_id b"
  by (simp add: set_fields_def)

lemma bk_id_processBlock [simp]: "bk_id (processBlock b) = bk_id b"
  by (simp add: processBlock_def)

lemma stored_append [simp]: "stored n (bs @ ds) \<longleftrightarrow> stored n bs \<or> stored n ds"
  by (simp add: stored_def)

lemma stored_Cons [simp]: "stored n (b # ds) \<longleftrightarrow> bk_id b = Some n \<or> stored n ds"
  by (simp add: stored_def)

lemma stored_Nil [simp]: "\<not> stored n []"
  by (simp add: stored_def)

lemma stored_upsert [simp]: "stored n (upsert b ds) \<longleftrightarrow> bk_id b = Some n \<or> stored n ds"
  by (induction ds) auto

lemma stored_bulkWrite [simp]: "stored n (bulkWrite bs ds) \<longleftrightarrow> stored n bs \<or> stored n ds"
  unfolding bulkWrite_def by (induction bs arbitrary: ds) auto

lemma stored_processBlocks [simp]: "stored n (processBlocks bs) \<longleftrightarrow> stored n bs"
  unfolding processBlocks_def by (induction bs) auto

lemma stored_takeD: "stored n (take k bs) \<Longrightarrow> stored n bs"
  by (metis append_take_drop_id stored_append)

lemma max_id_ge: "m \<le> max_id m bs" "b \<in> set bs \<Longrightarrow> block_id b \<le> max_id m bs"
  unfolding max_id_def by (induction bs arbitrary: m) (auto intro: order_trans [OF max.cobounded1] order_trans [OF max.cobounded2])

lemma max_id_least: "m \<le> k \<Longrightarrow> (\<And>b. b \<in> set bs \<Longrightarrow> block_id b \<le> k) \<Longrightarrow> max_id m bs \<le> k"
  unfolding max_id_def by (induction bs arbitrary: m) auto

lemma lastBlockNumber_max_id: "lastBlockNumber ds = max_id 0 ds"
  by (simp add: lastBlockNumber_def max_id_def)

lemma lastBlockNumber_stored: "stored n ds \<Longrightarrow> n \<le> lastBlockNumber ds"
  using max_id_ge(2) [of _ ds 0] unfolding lastBlockNumber_max_id stored_def list_ex_iff
  by (force simp: block_id_def or_default_def)

lemma stored_lastBlockNumber: "lastBlockNumber ds = 0 \<or> stored (lastBlockNumber ds) ds"
proof -
  have "max_id m ds = m \<or> stored (max_id m ds) ds" for m
  proof (induction ds arbitrary: m)
    case (Cons d ds)
    from Cons [of "max (block_id d) m"] show ?case
      by (cases "bk_id d") (auto simp: max_id_def block_id_def or_default_def max_def split: if_splits)
  qed (simp add: max_id_def)
  then show ?thesis by (simp add: lastBlockNumber_max_id)
qed


section \<open>An honest node\<close>

text \<open>
  A node that serves a growing chain: at every time it answers with the blocks of the range it
  has. The names of a block's properties are distinct, as in any object.
\<close>

definition serves :: "(nat \<Rightarrow> Block) \<Rightarrow> (nat \<Rightarrow> nat) \<Rightarrow> chain_node \<Rightarrow> bool" where
  "serves chain height node \<longleftrightarrow>
     mono height \<and> (\<forall>n. bk_id (chain n) = Some n \<and> distinct (map fst (bk_rest (chain n))))
     \<and> (\<forall>t a b. node t (a, b) = BlockList (map chain [a..<Suc (min b (height t))]))"

definition authentic :: "(nat \<Rightarrow> Block) \<Rightarrow> Block \<Rightarrow> bool" where
  "authentic chain d \<longleftrightarrow> (case bk_id d of None \<Rightarrow> False | Some n \<Rightarrow> d = processBlock (chain n))"

definition in_range :: "nat \<Rightarrow> seq_range \<Rightarrow> bool" where
  "in_range n r \<longleftrightarrow> fst r \<le> n \<and> n \<le> snd r"

fun worker_covers :: "nat \<Rightarrow> worker \<Rightarrow> bool" where
  "worker_covers n (Fetching r) \<longleftrightarrow> in_range n r"
| "worker_covers n (Writing r bs) \<longleftrightarrow> stored n bs"

fun phase_covers :: "nat \<Rightarrow> phase \<Rightarrow> bool" where
  "phase_covers n (Discovering r rs) \<longleftrightarrow> list_ex (in_range n) rs"
| "phase_covers n (Working ws q) \<longleftrightarrow> list_ex (worker_covers n) ws \<or> list_ex (in_range n) q"
| "phase_covers n p \<longleftrightarrow> False"

text \<open>What a call may hold when \<open>k\<close> blocks are known.\<close>

definition known :: "(nat \<Rightarrow> Block) \<Rightarrow> nat \<Rightarrow> Block \<Rightarrow> bool" where
  "known chain k d \<longleftrightarrow> authentic chain d \<and> block_id d \<le> k"

definition range_ok :: "nat \<Rightarrow> seq_range \<Rightarrow> bool" where
  "range_ok k r \<longleftrightarrow> 1 \<le> fst r \<and> fst r \<le> k + 1 \<and> fst r \<le> snd r"

fun worker_ok :: "(nat \<Rightarrow> Block) \<Rightarrow> nat \<Rightarrow> worker \<Rightarrow> bool" where
  "worker_ok chain k (Writing r bs) \<longleftrightarrow> list_all (known chain k) bs"
| "worker_ok chain k (Fetching r) \<longleftrightarrow> range_ok k r"

fun phase_ok :: "(nat \<Rightarrow> Block) \<Rightarrow> nat \<Rightarrow> phase \<Rightarrow> bool" where
  "phase_ok chain k Opening \<longleftrightarrow> True"
| "phase_ok chain k Reading \<longleftrightarrow> True"
| "phase_ok chain k (Found n) \<longleftrightarrow> n \<le> k"
| "phase_ok chain k (Discovering r rs) \<longleftrightarrow> range_ok k r \<and> list_all (range_ok k) rs"
| "phase_ok chain k (Working ws q) \<longleftrightarrow> list_all (worker_ok chain k) ws \<and> list_all (range_ok k) q"
| "phase_ok chain k Finished \<longleftrightarrow> True"
| "phase_ok chain k (Failed e) \<longleftrightarrow> False"

fun discovering :: "phase \<Rightarrow> bool" where
  "discovering Opening \<longleftrightarrow> True"
| "discovering Reading \<longleftrightarrow> True"
| "discovering (Found n) \<longleftrightarrow> True"
| "discovering (Discovering r rs) \<longleftrightarrow> True"
| "discovering p \<longleftrightarrow> False"

definition phases :: "SyncState \<Rightarrow> phase list" where
  "phases s = map sy_phase (sn_syncs s)"

lemma in_range_pair [simp]: "in_range n (a, b) \<longleftrightarrow> a \<le> n \<and> n \<le> b"
  by (simp add: in_range_def)

lemma list_ex_update: "list_ex P xs \<Longrightarrow> j < length xs \<Longrightarrow> \<not> P (xs ! j) \<or> P y \<Longrightarrow> list_ex P (xs[j := y])"
  unfolding list_ex_length by (metis length_list_update nth_list_update_eq nth_list_update_neq)

lemma list_ex_update_new: "j < length xs \<Longrightarrow> P y \<Longrightarrow> list_ex P (xs[j := y])"
  unfolding list_ex_iff by (metis set_update_memI)

lemma list_all_update: "list_all P xs \<Longrightarrow> P y \<Longrightarrow> list_all P (xs[j := y])"
  unfolding list_all_iff using set_update_subset_insert [of xs j y] by blast

lemma list_ex_drop_nth: "list_ex P xs \<Longrightarrow> j < length xs \<Longrightarrow> \<not> P (xs ! j) \<Longrightarrow> list_ex P (take j xs @ drop (Suc j) xs)"
  by (subst (asm) id_take_nth_drop, assumption) auto

lemma list_all_drop_nth: "list_all P xs \<Longrightarrow> list_all P (take j xs @ drop (Suc j) xs)"
  by (auto simp: list_all_iff dest: in_set_takeD in_set_dropD)

lemma covers_next_range:
  assumes "phase_covers n (Working ws q)" "j < length ws" "\<not> worker_covers n (ws ! j)"
  shows "phase_covers n (next_range j ws q)"
  using assms list_ex_drop_nth [of "worker_covers n" ws j]
  by (auto simp: next_range_def Let_def list_ex_update list_ex_update_new split: list.splits)

lemma ok_next_range: "phase_ok chain k (Working ws q) \<Longrightarrow> phase_ok chain k (next_range j ws q)"
  using list_all_drop_nth [of "worker_ok chain k" ws j]
  by (auto simp: next_range_def Let_def list_all_update split: list.splits)

lemma covers_processBatchRanges: "phase_covers n (processBatchRanges rs) \<longleftrightarrow> list_ex (in_range n) rs"
proof -
  have "list_ex (in_range n) rs \<longleftrightarrow> list_ex (in_range n) (take concurrencyLimit rs) \<or> list_ex (in_range n) (drop concurrencyLimit rs)"
    by (metis append_take_drop_id list_ex_append)
  moreover have "list_ex (worker_covers n) (map Fetching xs) \<longleftrightarrow> list_ex (in_range n) xs" for xs
    by (induction xs) auto
  ultimately show ?thesis by (auto simp: processBatchRanges_def)
qed

lemma ok_processBatchRanges: "list_all (range_ok k) rs \<Longrightarrow> phase_ok chain k (processBatchRanges rs)"
  by (auto simp: processBatchRanges_def list_all_iff dest: in_set_takeD in_set_dropD)

lemma not_discovering [simp]: "\<not> discovering (processBatchRanges rs)" "\<not> discovering (next_range j ws q)" "discovering (discover k rs)"
  by (auto simp: processBatchRanges_def next_range_def discover_def Let_def split: list.splits)


lemma update_same: "map_of ps k = Some v \<Longrightarrow> AList.update k v ps = ps"
  by (induction ps) (auto split: if_splits)

lemma set_fields_same:
  assumes "distinct (map fst (bk_rest b))"
  shows "set_fields b b = b"
proof -
  have "list_all (\<lambda>(k, v). map_of ps k = Some v) qs \<Longrightarrow> fold (\<lambda>(k, v). AList.update k v) qs ps = ps" for qs ps :: "(string \<times> json) list"
    by (induction qs) (auto simp: update_same)
  moreover have "list_all (\<lambda>(k, v). map_of (bk_rest b) k = Some v) (bk_rest b)"
    using assms by (auto simp: list_all_iff)
  ultimately show ?thesis by (cases b) (auto simp: set_fields_def split: option.splits)
qed

lemma serves_chain: "serves chain height node \<Longrightarrow> bk_id (chain n) = Some n"
  and serves_keys: "serves chain height node \<Longrightarrow> distinct (map fst (bk_rest (chain n)))"
  and serves_reply: "serves chain height node \<Longrightarrow> node t (a, b) = BlockList (map chain [a..<Suc (min b (height t))])"
  and serves_mono: "serves chain height node \<Longrightarrow> t \<le> t' \<Longrightarrow> height t \<le> height t'"
  unfolding serves_def by (auto dest: monoD)

lemma authentic_process: "serves chain height node \<Longrightarrow> authentic chain (processBlock (chain n))"
  by (simp add: authentic_def serves_chain)

lemma authentic_upsert:
  assumes h: "serves chain height node" and b: "authentic chain b" and ds: "list_all (authentic chain) ds"
  shows "list_all (authentic chain) (upsert b ds)"
  using ds
proof (induction ds)
  case (Cons d ds)
  have "set_fields b d = b" if "bk_id d = bk_id b"
  proof -
    from that b Cons.prems have "d = b" by (auto simp: authentic_def split: option.splits)
    moreover obtain n where "b = processBlock (chain n)" using b by (auto simp: authentic_def split: option.splits)
    ultimately show ?thesis using set_fields_same [of b] serves_keys [OF h, of n] by (simp add: processBlock_def)
  qed
  with Cons b show ?case by auto
qed (use b in simp)

lemma stored_authentic:
  assumes "list_all (authentic chain) ds" "stored n ds"
  shows "find (\<lambda>d. bk_id d = Some n) ds = Some (processBlock (chain n))"
  using assms by (induction ds) (auto simp: authentic_def split: option.splits)

lemma known_mono: "known chain k d \<Longrightarrow> k \<le> k' \<Longrightarrow> known chain k' d"
  by (simp add: known_def)

lemma known_upsert:
  assumes "serves chain height node" "known chain k b" "list_all (known chain k) ds"
  shows "list_all (known chain k) (upsert b ds)"
proof -
  have "list_all (authentic chain) ds" using assms(3) by (simp add: list_all_iff known_def)
  moreover have "list_all (\<lambda>d. block_id d \<le> k) (upsert b ds)"
    using assms(2,3) by (induction ds) (auto simp: known_def block_id_def list_all_iff)
  ultimately show ?thesis using authentic_upsert [OF assms(1), of b ds] assms(2)
    by (simp add: list_all_iff known_def)
qed

lemma known_bulkWrite:
  assumes "serves chain height node" "list_all (known chain k) bs" "list_all (known chain k) ds"
  shows "list_all (known chain k) (bulkWrite bs ds)"
  using assms(2,3) unfolding bulkWrite_def
  by (induction bs arbitrary: ds) (auto simp: known_upsert [OF assms(1)])

lemma stored_served:
  assumes "serves chain height node"
  shows "stored n (map chain [a..<b]) \<longleftrightarrow> a \<le> n \<and> n < b"
  by (auto simp: stored_def list_ex_iff serves_chain [OF assms])


section \<open>The copy has no gaps\<close>

text \<open>
  The invariant, for a number \<open>k\<close> of blocks the object knows of: each of them is stored or will
  be written by a call in progress. The last part speaks of the calls from number \<open>m\<close> on, which
  began at time \<open>t0\<close> or later: one that has found all blocks knows those the node had at \<open>t0\<close>.
\<close>

definition sync_inv :: "(nat \<Rightarrow> Block) \<Rightarrow> (nat \<Rightarrow> nat) \<Rightarrow> nat \<Rightarrow> nat \<Rightarrow> nat \<Rightarrow> SyncState \<Rightarrow> bool" where
  "sync_inv chain height m t0 k s \<longleftrightarrow>
     sn_currentBlockNumber s \<le> k \<and> k \<le> height (sn_clock s) \<and>
     (\<forall>n. 1 \<le> n \<and> n \<le> k \<longrightarrow> stored n (sn_collection s) \<or> list_ex (phase_covers n) (phases s)) \<and>
     list_all (phase_ok chain k) (phases s) \<and> list_all (known chain k) (sn_collection s) \<and>
     (\<forall>t < length (phases s). m \<le> t \<longrightarrow> \<not> discovering (phases s ! t) \<longrightarrow> height t0 \<le> k)"

lemma range_ok_mono: "range_ok k r \<Longrightarrow> k \<le> k' \<Longrightarrow> range_ok k' r"
  by (simp add: range_ok_def)

lemma worker_ok_mono: "worker_ok chain k w \<Longrightarrow> k \<le> k' \<Longrightarrow> worker_ok chain k' w"
  by (cases w) (auto simp: range_ok_mono list_all_iff known_mono)

lemma phase_ok_mono: "phase_ok chain k p \<Longrightarrow> k \<le> k' \<Longrightarrow> phase_ok chain k' p"
  by (cases p) (auto simp: range_ok_mono list_all_iff worker_ok_mono)

lemma sync_inv_parts:
  assumes "sync_inv chain height m t0 k s"
  shows "sn_currentBlockNumber s \<le> k" "k \<le> height (sn_clock s)" "list_all (known chain k) (sn_collection s)"
    "t < length (phases s) \<Longrightarrow> phases s ! t = p \<Longrightarrow> phase_ok chain k p"
  using assms by (auto simp: sync_inv_def list_all_length)

text \<open>One call takes a step: what it has to show.\<close>

lemma sync_inv_step:
  assumes inv: "sync_inv chain height m t0 k s"
    and t: "t < length (phases s)" "phases s ! t = p" and ps: "phases s' = (phases s)[t := p']"
    and cur: "sn_currentBlockNumber s' \<le> k'" and k: "k \<le> k'" "k' \<le> height (sn_clock s')"
    and old: "\<And>n. 1 \<le> n \<Longrightarrow> n \<le> k \<Longrightarrow> stored n (sn_collection s) \<Longrightarrow> stored n (sn_collection s')"
    and cov: "\<And>n. 1 \<le> n \<Longrightarrow> n \<le> k \<Longrightarrow> phase_covers n p \<Longrightarrow> stored n (sn_collection s') \<or> phase_covers n p'"
    and new: "\<And>n. k < n \<Longrightarrow> n \<le> k' \<Longrightarrow> phase_covers n p'"
    and ok: "phase_ok chain k' p'" and auth: "list_all (known chain k') (sn_collection s')"
    and fin: "\<not> discovering p' \<Longrightarrow> discovering p \<Longrightarrow> height t0 \<le> k'"
  shows "sync_inv chain height m t0 k' s'"
proof -
  have "stored n (sn_collection s') \<or> list_ex (phase_covers n) (phases s')" if n: "1 \<le> n" "n \<le> k'" for n
  proof (cases "n \<le> k")
    case True
    with n inv consider "stored n (sn_collection s)" | "list_ex (phase_covers n) (phases s)"
      by (auto simp: sync_inv_def)
    then show ?thesis
    proof cases
      case 2
      show ?thesis
      proof (cases "phase_covers n p")
        case True
        from cov [OF n(1) \<open>n \<le> k\<close> this] t ps show ?thesis by (auto simp: list_ex_update_new)
      next
        case False
        then show ?thesis using list_ex_update [OF 2 t(1), of p'] t(2) ps by auto
      qed
    qed (use old n True in blast)
  next
    case False
    with new n t show ?thesis unfolding ps by (intro disjI2 list_ex_update_new) auto
  qed
  moreover have "list_all (phase_ok chain k') (phases s')"
    unfolding ps using inv ok k phase_ok_mono
    by (intro list_all_update) (auto simp: sync_inv_def list_all_iff)
  moreover have "height t0 \<le> k'" if "u < length (phases s')" "m \<le> u" "\<not> discovering (phases s' ! u)" for u
    using that inv fin t k unfolding ps sync_inv_def
    by (cases "u = t") (auto intro: order_trans)
  ultimately show ?thesis using cur k auth unfolding sync_inv_def by blast
qed


text \<open>The parts of the state that each operation sets.\<close>

lemma phases_set_phase [simp]: "t < length (sn_syncs s) \<Longrightarrow> phases (set_phase t p s) = (phases s)[t := p]"
  by (simp add: phases_def set_phase_def Let_def map_update)

lemma set_phase_keeps [simp]:
  "sn_currentBlockNumber (set_phase t p s) = sn_currentBlockNumber s"
  "sn_collection (set_phase t p s) = sn_collection s" "sn_clock (set_phase t p s) = sn_clock s"
  by (simp_all add: set_phase_def Let_def)

lemma phases_simps [simp]:
  "phases (s\<lparr>sn_currentBlockNumber := c\<rparr>) = phases s" "phases (s\<lparr>sn_collection := ds\<rparr>) = phases s"
  "phases (s\<lparr>sn_clock := n\<rparr>) = phases s" "phases (s\<lparr>sn_conn := cn\<rparr>) = phases s"
  "length (phases s) = length (sn_syncs s)"
  by (simp_all add: phases_def)

lemma phases_nth: "t < length (sn_syncs s) \<Longrightarrow> phases s ! t = sy_phase (sn_syncs s ! t)"
  by (simp add: phases_def)

lemma max_id_served:
  assumes h: "serves chain height node" and ab: "a \<le> min b (height t)"
  shows "max_id cur (map chain [a..<Suc (min b (height t))]) = max cur (min b (height t))"
proof (rule antisym)
  have *: "block_id (chain n) = n" for n by (simp add: block_id_def or_default_def serves_chain [OF h])
  show "max_id cur (map chain [a..<Suc (min b (height t))]) \<le> max cur (min b (height t))"
    by (rule max_id_least) (auto simp: * less_Suc_eq_le)
  have "chain (min b (height t)) \<in> set (map chain [a..<Suc (min b (height t))])" using ab by simp
  then show "max cur (min b (height t)) \<le> max_id cur (map chain [a..<Suc (min b (height t))])"
    using max_id_ge(2) max_id_ge(1) * by (metis max.boundedI)
qed

lemma discover_pair: "discover k rs = Discovering (k + 1, k + 100) rs"
  by (simp add: discover_def batchSize_def)

text \<open>An answer of the node to the loop that looks for blocks.\<close>

lemma inv_discovered:
  assumes h: "serves chain height node" and inv: "sync_inv chain height m t0 k s" and t0: "t0 \<le> sn_clock s"
    and t: "t < length (sn_syncs s)" "sy_phase (sn_syncs s ! t) = Discovering (a, b) rs"
    and d: "discovered (node (sn_clock s) (a, b)) (a, b) rs (sn_currentBlockNumber s) = (p, cur)"
  shows "\<exists>k'. sync_inv chain height m t0 k' (set_phase t p (s\<lparr>sn_currentBlockNumber := cur\<rparr>))"
proof -
  let ?s = "set_phase t p (s\<lparr>sn_currentBlockNumber := cur\<rparr>)"
  have ps: "phases ?s = (phases s)[t := p]" "phases s ! t = Discovering (a, b) rs" "t < length (phases s)"
    using t by (simp_all add: phases_nth)
  note c = sync_inv_parts(1-3) [OF inv]
  have a: "range_ok k (a, b)" "list_all (range_ok k) rs" using sync_inv_parts(4) [OF inv ps(3,2)] by simp_all
  show ?thesis
  proof (cases "a \<le> min b (height (sn_clock s))")
    case False
    then have e: "[a..<Suc (min b (height (sn_clock s)))] = []" by auto
    with d have p: "p = processBatchRanges rs" "cur = sn_currentBlockNumber s" by (auto simp: serves_reply [OF h])
    have "height (sn_clock s) \<le> k" using False a by (auto simp: range_ok_def)
    then have "height t0 \<le> k" using serves_mono [OF h t0] by simp
    then show ?thesis using c p a
      by (intro exI [of _ k] sync_inv_step [OF inv ps(3,2,1)])
         (auto simp: covers_processBatchRanges ok_processBatchRanges)
  next
    case True
    let ?n = "min b (height (sn_clock s))"
    obtain x xs where x: "map chain [a..<Suc ?n] = x # xs" using True by (cases "map chain [a..<Suc ?n]") auto
    have "max_id (sn_currentBlockNumber s) (x # xs) = max (sn_currentBlockNumber s) ?n"
      using max_id_served [OF h True] x by metis
    with d x have p: "cur = max (sn_currentBlockNumber s) ?n" "p = discover cur (rs @ [(a, b)])"
      by (auto simp: serves_reply [OF h] Let_def)
    have "cur \<le> max k ?n" "max k ?n \<le> height (sn_clock s)" using c p by auto
    moreover have "phase_ok chain (max k ?n) p"
      using a \<open>cur \<le> max k ?n\<close> unfolding p(2) by (auto simp: discover_pair range_ok_def list_all_iff)
    moreover have "list_all (known chain (max k ?n)) (sn_collection s)" using c(3) by (auto simp: list_all_iff known_def)
    ultimately show ?thesis using a p
      by (intro exI [of _ "max k ?n"] sync_inv_step [OF inv ps(3,2,1)]) (auto simp: discover_pair range_ok_def)
  qed
qed

text \<open>An answer to a worker, and the end of a write.\<close>

lemma inv_fetched:
  assumes h: "serves chain height node" and inv: "sync_inv chain height m t0 k s"
    and t: "t < length (sn_syncs s)" "sy_phase (sn_syncs s ! t) = Working ws q"
    and j: "j < length ws" "ws ! j = Fetching (a, b)"
  shows "\<exists>k'. sync_inv chain height m t0 k' (set_phase t (after_fetch (node (sn_clock s) (a, b)) (a, b) j ws q) s)"
proof -
  let ?n = "min b (height (sn_clock s))" and ?p = "after_fetch (node (sn_clock s) (a, b)) (a, b) j ws q"
  have ps: "phases (set_phase t ?p s) = (phases s)[t := ?p]" "phases s ! t = Working ws q" "t < length (phases s)"
    using t by (simp_all add: phases_nth)
  note c = sync_inv_parts(1-3) [OF inv] and ok = sync_inv_parts(4) [OF inv ps(3,2)]
  have ab: "range_ok k (a, b)" using ok j by (auto simp: list_all_length)
  show ?thesis
  proof (cases "a \<le> ?n")
    case False
    then have "[a..<Suc ?n] = []" by auto
    then have p: "?p = next_range j ws q" by (simp add: after_fetch_def serves_reply [OF h])
    have "\<not> worker_covers n (ws ! j)" if "n \<le> k" for n using False that c j by auto
    then show ?thesis using c ok_next_range [OF ok]
      by (intro exI [of _ k] sync_inv_step [OF inv ps(3,2,1)]) (auto simp: p intro!: covers_next_range j)
  next
    case True
    let ?bs = "processBlocks (map chain [a..<Suc ?n])"
    from True obtain x xs where x: "map chain [a..<Suc ?n] = x # xs" by (cases "map chain [a..<Suc ?n]") auto
    then have "node (sn_clock s) (a, b) = BlockList (x # xs)" using serves_reply [OF h, of "sn_clock s" a b] by simp
    then have p: "?p = Working (ws[j := Writing (a, b) ?bs]) q" using x by (simp add: after_fetch_def)
    have st: "stored n ?bs \<longleftrightarrow> a \<le> n \<and> n \<le> ?n" for n using stored_served [OF h, of n a "Suc ?n"] by (auto simp: less_Suc_eq_le)
    have "list_all (known chain (max k ?n)) ?bs"
      by (auto simp: processBlocks_def list_all_iff known_def authentic_process [OF h] block_id_def or_default_def serves_chain [OF h])
    moreover have "list_all (worker_ok chain (max k ?n)) ws \<and> list_all (range_ok (max k ?n)) q"
      using phase_ok_mono [OF ok, of "max k ?n"] by simp
    ultimately have "phase_ok chain (max k ?n) ?p" unfolding p by (auto intro!: list_all_update)
    moreover have "phase_covers n ?p" if "phase_covers n (Working ws q)" "n \<le> k" for n
      using that j c list_ex_update [of "worker_covers n" ws j "Writing (a, b) ?bs"] st [of n] unfolding p
      by auto
    moreover have "phase_covers n ?p" if "k < n" "n \<le> max k ?n" for n
      using that ab j st [of n] unfolding p by (auto simp: range_ok_def intro!: list_ex_update_new)
    moreover have "list_all (known chain (max k ?n)) (sn_collection s)" using c(3) by (auto simp: list_all_iff known_def)
    moreover have "\<not> discovering ?p" by (simp add: p)
    ultimately show ?thesis using c
      by (intro exI [of _ "max k ?n"] sync_inv_step [OF inv ps(3,2,1)]) (auto simp: le_max_iff_disj)
  qed
qed

lemma inv_written:
  assumes h: "serves chain height node" and inv: "sync_inv chain height m t0 k s"
    and t: "t < length (sn_syncs s)" "sy_phase (sn_syncs s ! t) = Working ws q"
    and j: "j < length ws" "ws ! j = Writing r bs"
  shows "sync_inv chain height m t0 k (set_phase t (next_range j ws q) (s\<lparr>sn_collection := bulkWrite bs (sn_collection s)\<rparr>))"
proof -
  let ?s = "set_phase t (next_range j ws q) (s\<lparr>sn_collection := bulkWrite bs (sn_collection s)\<rparr>)"
  have ps: "phases ?s = (phases s)[t := next_range j ws q]" "phases s ! t = Working ws q" "t < length (phases s)"
    using t by (simp_all add: phases_nth)
  note c = sync_inv_parts(1-3) [OF inv] and ok = sync_inv_parts(4) [OF inv ps(3,2)]
  have "list_all (known chain k) bs" using ok j by (auto simp: list_all_length)
  with c have "list_all (known chain k) (sn_collection ?s)" by (simp add: known_bulkWrite [OF h])
  moreover have "stored n (sn_collection ?s) \<or> phase_covers n (next_range j ws q)" if "phase_covers n (Working ws q)" for n
    using covers_next_range [OF that j(1)] j(2) by auto
  ultimately show ?thesis using c ok_next_range [OF ok] by (intro sync_inv_step [OF inv ps(3,2,1)]) auto
qed

text \<open>A new call joins.\<close>

lemma inv_new_sync:
  assumes inv: "sync_inv chain height m t0 k s" and p: "phase_ok chain k p" "discovering p"
    and s': "phases s' = phases s @ [p]" "sn_collection s' = sn_collection s" "sn_clock s' = sn_clock s"
      "sn_currentBlockNumber s' \<le> k"
  shows "sync_inv chain height m t0 k s'"
  using inv p s'(4) unfolding sync_inv_def s'(1-3) by (auto simp: nth_append)

lemma ok_discover: "cur \<le> k \<Longrightarrow> phase_ok chain k (discover cur [])"
  by (simp add: discover_pair range_ok_def)

lemma inv_keeps:
  assumes "serves chain height node" "sync_inv chain height m t0 k s" "phases s' = phases s"
    "sn_collection s' = sn_collection s" "sn_clock s \<le> sn_clock s'" "sn_currentBlockNumber s' = sn_currentBlockNumber s"
  shows "sync_inv chain height m t0 k s'"
  using assms serves_mono [OF assms(1,5)] unfolding sync_inv_def by auto

lemma lastBlockNumber_known: "list_all (known chain k) ds \<Longrightarrow> lastBlockNumber ds \<le> k"
  unfolding lastBlockNumber_max_id by (rule max_id_least) (auto simp: list_all_iff known_def)


text \<open>
  The events of a run in which the process is not restarted and no operation of the database fails.
\<close>

fun orderly :: "event \<Rightarrow> bool" where
  "orderly Restart \<longleftrightarrow> False"
| "orderly (WriteDone t j k) \<longleftrightarrow> k = None"
| "orderly (Database t error) \<longleftrightarrow> error = None"
| "orderly e \<longleftrightarrow> True"

lemma sync_inv_answer:
  assumes h: "serves chain height node" and inv: "sync_inv chain height m t0 k s" and t0: "t0 \<le> sn_clock s"
  shows "\<exists>k'. sync_inv chain height m t0 k' (answer node t j s)"
proof (cases "t < length (sn_syncs s)")
  case t: True
  show ?thesis
  proof (cases "sy_phase (sn_syncs s ! t)")
    case (Discovering r rs)
    obtain a b where r: "r = (a, b)" by (cases r)
    obtain p cur where d: "discovered (node (sn_clock s) r) r rs (sn_currentBlockNumber s) = (p, cur)" by fastforce
    from inv_discovered [OF h inv t0 t, of a b rs p cur] d t Discovering r show ?thesis by (simp add: answer_def)
  next
    case (Working ws q)
    show ?thesis
    proof (cases "j < length ws")
      case j: True
      show ?thesis
      proof (cases "ws ! j")
        case (Fetching r)
        then obtain a b where r: "ws ! j = Fetching (a, b)" "r = (a, b)" by (cases r) auto
        from inv_fetched [OF h inv t Working j r(1)] t j Working r show ?thesis by (simp add: answer_def)
      qed (use t Working inv in \<open>auto simp: answer_def\<close>)
    qed (use t Working inv in \<open>auto simp: answer_def\<close>)
  qed (use t inv in \<open>auto simp: answer_def\<close>)
qed (use inv in \<open>auto simp: answer_def\<close>)

lemma inv_write_done:
  assumes h: "serves chain height node" and inv: "sync_inv chain height m t0 k s"
  shows "sync_inv chain height m t0 k (write_done t j None s)"
proof (cases "t < length (sn_syncs s)")
  case t: True
  show ?thesis
  proof (cases "sy_phase (sn_syncs s ! t)")
    case (Working ws q)
    show ?thesis
    proof (cases "j < length ws \<and> (\<exists>r bs. ws ! j = Writing r bs)")
      case True
      then obtain r bs where "j < length ws" "ws ! j = Writing r bs" by blast
      with inv_written [OF h inv t Working] t Working show ?thesis by (simp add: write_done_def)
    qed (use t Working inv in \<open>auto simp: write_done_def split: worker.splits\<close>)
  qed (use t inv in \<open>auto simp: write_done_def\<close>)
qed (use inv in \<open>auto simp: write_done_def\<close>)

lemma inv_starts:
  assumes "sync_inv chain height m t0 k s"
  shows "sync_inv chain height m t0 k (fetchAndSyncNewBlocks s)" "sync_inv chain height m t0 k (initialize s)"
proof -
  note cur = sync_inv_parts(1) [OF assms]
  show "sync_inv chain height m t0 k (fetchAndSyncNewBlocks s)"
    by (rule inv_new_sync [OF assms ok_discover [OF cur]])
       (use cur in \<open>simp_all add: fetchAndSyncNewBlocks_def phases_def\<close>)
  show "sync_inv chain height m t0 k (initialize s)"
    by (rule inv_new_sync [OF assms, of Opening]) (use cur in \<open>simp_all add: initialize_def phases_def\<close>)
qed

text \<open>A call goes from one operation of the database to the next.\<close>

lemma inv_searching:
  assumes inv: "sync_inv chain height m t0 k s" and t: "t < length (sn_syncs s)"
    and p: "\<And>n. \<not> phase_covers n (sy_phase (sn_syncs s ! t))" "discovering p'" "phase_ok chain k p'" and cur: "cur \<le> k"
  shows "sync_inv chain height m t0 k (set_phase t p' (s\<lparr>sn_currentBlockNumber := cur\<rparr>))"
  using sync_inv_parts(2,3) [OF inv] t p cur
  by (intro sync_inv_step [OF inv, of t _ _ p' k]) (auto simp: phases_nth)

lemma inv_database:
  assumes "sync_inv chain height m t0 k s"
  shows "sync_inv chain height m t0 k (evaluate_query t s)" "sync_inv chain height m t0 k (database t None s)"
proof -
  note cur = sync_inv_parts(1) [OF assms] and last = lastBlockNumber_known [OF sync_inv_parts(3) [OF assms]]
  have step: "sync_inv chain height m t0 k (set_phase t p' s)"
    if "t < length (sn_syncs s)" "sy_phase (sn_syncs s ! t) = p" "\<And>n. \<not> phase_covers n p" "discovering p'" "phase_ok chain k p'" for p p'
    using inv_searching [OF assms that(1) _ that(4,5) cur] that by simp
  show "sync_inv chain height m t0 k (evaluate_query t s)"
    using assms last by (auto simp: evaluate_query_def intro!: step)
  have "n \<le> k" if "t < length (sn_syncs s)" "sy_phase (sn_syncs s ! t) = Found n" for n
    using sync_inv_parts(4) [OF assms, of t "Found n"] that by (simp add: phases_nth)
  then show "sync_inv chain height m t0 k (database t None s)"
    using assms by (auto simp: database_def fetchAndSyncInitialBlocks_def last_block_found_def
      intro!: step inv_searching ok_discover split: phase.split)
qed

lemma inv_handle:
  assumes h: "serves chain height node" and inv: "sync_inv chain height m t0 k s" and t0: "t0 \<le> sn_clock s" and e: "orderly e"
  shows "\<exists>k'. sync_inv chain height m t0 k' (handle iv node e s)"
proof -
  have "sync_inv chain height m t0 k (s\<lparr>sn_conn := c\<rparr>)" for c
    by (rule inv_keeps [OF h inv]) simp_all
  then show ?thesis
    using e inv inv_starts [OF inv] inv_database [OF inv] sync_inv_answer [OF h inv t0] inv_write_done [OF h inv]
    by (cases e) (auto split: message_action.splits intro: exI [of _ k])
qed

lemmas database_defs = evaluate_query_def database_def fetchAndSyncInitialBlocks_def last_block_found_def

lemma clock_step [simp]: "sn_clock (sync_step iv node e s) = sn_clock s + 1"
  by (simp add: sync_step_def)

lemma clock_run [simp]: "sn_clock (run_sync iv node es s) = sn_clock s + length es"
  unfolding run_sync_def by (induction es arbitrary: s) auto

lemma handle_clock [simp]: "sn_clock (handle iv node e s) = sn_clock s"
  by (cases e) (auto simp: fetchAndSyncNewBlocks_def initialize_def database_defs answer_def write_done_def Let_def
      split: message_action.splits phase.splits worker.splits prod.splits option.splits)

lemma inv_run:
  assumes h: "serves chain height node" and es: "list_all orderly es"
    and inv: "sync_inv chain height m t0 k s" and t0: "t0 \<le> sn_clock s"
  shows "\<exists>k'. sync_inv chain height m t0 k' (run_sync iv node es s)"
  using es inv t0 unfolding run_sync_def
proof (induction es arbitrary: s k)
  case (Cons e es)
  then obtain k' where "sync_inv chain height m t0 k' (handle iv node e s)" using inv_handle [OF h] by fastforce
  then have "sync_inv chain height m t0 k' (sync_step iv node e s)"
    by (rule inv_keeps [OF h]) (simp_all add: sync_step_def)
  with Cons show ?case by simp
qed auto


fun ended :: "phase \<Rightarrow> bool" where
  "ended Finished \<longleftrightarrow> True"
| "ended (Failed e) \<longleftrightarrow> True"
| "ended p \<longleftrightarrow> False"

definition settled :: "SyncState \<Rightarrow> bool" where
  "settled s \<longleftrightarrow> list_all ended (phases s)"

text \<open>A collection that holds the chain up to some block and nothing else.\<close>

definition copy_of :: "(nat \<Rightarrow> Block) \<Rightarrow> nat \<Rightarrow> Block list \<Rightarrow> bool" where
  "copy_of chain k docs \<longleftrightarrow> docs = map (\<lambda>n. processBlock (chain n)) [1..<Suc k]"

lemma copy_of_inv:
  assumes h: "serves chain height node" and docs: "copy_of chain k docs" and k: "k \<le> height 0"
  shows "sync_inv chain height 0 0 k (new_SyncState docs)"
proof -
  have "stored n docs" if "1 \<le> n" "n \<le> k" for n
    using docs that serves_chain [OF h] by (auto simp: copy_of_def stored_def list_ex_iff)
  moreover have "list_all (known chain k) docs"
    using docs by (auto simp: copy_of_def list_all_iff known_def authentic_process [OF h] block_id_def or_default_def serves_chain [OF h])
  ultimately show ?thesis using k by (simp add: sync_inv_def new_SyncState_def phases_def)
qed

text \<open>
  C1. The node is honest, the collection at first is a copy of a beginning of the chain, and in the
  run no operation of the database fails and the process is not restarted. When a call starts
  after the events \<open>es1\<close> and at the end all calls of the run have ended, the collection has every
  block that the node had after \<open>es1\<close>, as \<open>processBlocks\<close> makes it. The answers of the node and
  the writes of all the calls may come in any order.
\<close>

theorem sync_copies_chain:
  assumes h: "serves chain height node" and docs: "copy_of chain k docs" "k \<le> height 0"
    and es: "list_all orderly (es1 @ es2)"
    and t: "length (sn_syncs (run_sync iv node es1 (new_SyncState docs))) < length (sn_syncs (run_sync iv node (es1 @ es2) (new_SyncState docs)))"
    and all: "settled (run_sync iv node (es1 @ es2) (new_SyncState docs))"
    and n: "1 \<le> n" "n \<le> height (length es1)"
  shows "find (\<lambda>d. bk_id d = Some n) (sn_collection (run_sync iv node (es1 @ es2) (new_SyncState docs))) = Some (processBlock (chain n))"
proof -
  let ?s1 = "run_sync iv node es1 (new_SyncState docs)" and ?s = "run_sync iv node (es1 @ es2) (new_SyncState docs)"
  have clock: "sn_clock ?s1 = length es1" by (simp add: new_SyncState_def)
  obtain k1 where "sync_inv chain height 0 0 k1 ?s1"
    using inv_run [OF h _ copy_of_inv [OF h docs]] es by auto
  then have "sync_inv chain height (length (sn_syncs ?s1)) (length es1) k1 ?s1"
    by (auto simp: sync_inv_def)
  then obtain k2 where inv: "sync_inv chain height (length (sn_syncs ?s1)) (length es1) k2 ?s"
    using inv_run [OF h, of es2] es clock by (fastforce simp: run_sync_def)
  have fin: "\<not> discovering p \<and> \<not> phase_covers n p" if "p \<in> set (phases ?s)" for p
    using all that by (cases p) (auto simp: settled_def list_all_iff)
  then have "\<not> discovering (phases ?s ! length (sn_syncs ?s1))" using t by simp
  then have "height (length es1) \<le> k2" using inv t unfolding sync_inv_def by auto
  moreover have "\<not> list_ex (phase_covers n) (phases ?s)" using fin by (auto simp: list_ex_iff)
  ultimately have "stored n (sn_collection ?s)" using inv n unfolding sync_inv_def by auto
  moreover have "list_all (authentic chain) (sn_collection ?s)"
    using sync_inv_parts(3) [OF inv] by (simp add: list_all_iff known_def)
  ultimately show ?thesis by (rule stored_authentic [rotated])
qed


definition sample_chain :: "nat \<Rightarrow> Block" where
  "sample_chain n = \<lparr>bk_id = Some n, bk_transactions = Some [JObj [(''key'', JStr ''k''), (''value'', JStr ''[1]'')]], bk_rest = []\<rparr>"

definition sample_node :: "nat \<Rightarrow> chain_node" where
  "sample_node h t r = BlockList (map sample_chain [fst r..<Suc (min (snd r) h)])"

lemma sample_node_serves: "serves sample_chain (\<lambda>t. h) (sample_node h)"
  by (auto simp: serves_def sample_chain_def sample_node_def mono_def)

theorem sync_copies_chain_witness:
  "find (\<lambda>d. bk_id d = Some 2)
     (sn_collection (run_sync 5000 (sample_node 2) [Initialize, Database 0 None, Evaluate 0, Database 0 None, Answer 0 0, Answer 0 0, Answer 0 0, WriteDone 0 0 None] (new_SyncState [])))
   = Some \<lparr>bk_id = Some 2, bk_transactions = Some [JObj [(''key'', JStr ''k''), (''value'', JArr [JNum 1 0])]], bk_rest = []\<rparr>"
proof -
  let ?es = "[Initialize, Database 0 None, Evaluate 0, Database 0 None, Answer 0 0, Answer 0 0, Answer 0 0, WriteDone 0 0 None]"
  have 1: "length (sn_syncs (run_sync 5000 (sample_node 2) [] (new_SyncState []))) <
           length (sn_syncs (run_sync 5000 (sample_node 2) ([] @ ?es) (new_SyncState [])))" by code_simp
  have 2: "settled (run_sync 5000 (sample_node 2) ([] @ ?es) (new_SyncState []))" by code_simp
  have 3: "list_all orderly ([] @ ?es)" by simp
  have 4: "processBlock (sample_chain 2) =
    \<lparr>bk_id = Some 2, bk_transactions = Some [JObj [(''key'', JStr ''k''), (''value'', JArr [JNum 1 0])]], bk_rest = []\<rparr>"
    by code_simp
  have 5: "copy_of sample_chain 0 []" by (simp add: copy_of_def)
  show ?thesis using sync_copies_chain [OF sample_node_serves 5 _ 3 1 2, of 2] 4 by simp
qed


section \<open>Synchronisations end\<close>

text \<open>
  A node that answers a request for a range with at least one block of the range or a later one,
  or with no block, and that has no blocks after some number.
\<close>

definition productive :: "nat \<Rightarrow> chain_node \<Rightarrow> bool" where
  "productive h node \<longleftrightarrow>
     (\<forall>t a b bs. node t (a, b) = BlockList bs \<and> bs \<noteq> [] \<longrightarrow> a \<le> h \<and> (\<exists>x \<in> set bs. a \<le> block_id x))"

text \<open>The event is one that the object awaits.\<close>

fun is_fetching :: "worker \<Rightarrow> bool" where
  "is_fetching (Fetching r) \<longleftrightarrow> True"
| "is_fetching (Writing r bs) \<longleftrightarrow> False"

fun awaits :: "event \<Rightarrow> SyncState \<Rightarrow> bool" where
  "awaits (Evaluate t) s \<longleftrightarrow> t < length (sn_syncs s) \<and> phases s ! t = Reading"
| "awaits (Database t error) s \<longleftrightarrow> t < length (sn_syncs s) \<and>
     (case phases s ! t of Opening \<Rightarrow> True | Reading \<Rightarrow> error \<noteq> None | Found n \<Rightarrow> True | _ \<Rightarrow> False)"
| "awaits (Answer t j) s \<longleftrightarrow> t < length (sn_syncs s) \<and>
     (case phases s ! t of Discovering r rs \<Rightarrow> True | Working ws q \<Rightarrow> j < length ws \<and> is_fetching (ws ! j) | _ \<Rightarrow> False)"
| "awaits (WriteDone t j k) s \<longleftrightarrow> t < length (sn_syncs s) \<and>
     (case phases s ! t of Working ws q \<Rightarrow> j < length ws \<and> \<not> is_fetching (ws ! j) | _ \<Rightarrow> False)"
| "awaits e s \<longleftrightarrow> False"

fun awaited_run :: "nat \<Rightarrow> chain_node \<Rightarrow> event list \<Rightarrow> SyncState \<Rightarrow> bool" where
  "awaited_run iv node [] s \<longleftrightarrow> True"
| "awaited_run iv node (e # es) s \<longleftrightarrow> awaits e s \<and> awaited_run iv node es (sync_step iv node e s)"

text \<open>
  How many awaited events are left: three for the database at the start, an answer and two more for
  every range that can still be found, two for every range to be fetched, one for every write.
\<close>

fun worker_left :: "worker \<Rightarrow> nat" where
  "worker_left (Fetching r) = 2"
| "worker_left (Writing r bs) = 1"

fun phase_left :: "nat \<Rightarrow> phase \<Rightarrow> nat" where
  "phase_left h Opening = 3 * h + 4"
| "phase_left h Reading = 3 * h + 3"
| "phase_left h (Found n) = 3 * h + 2"
| "phase_left h (Discovering r rs) = 3 * (h + 1 - fst r) + 1 + 2 * length rs"
| "phase_left h (Working ws q) = sum_list (map worker_left ws) + 2 * length q"
| "phase_left h p = 0"

definition events_left :: "nat \<Rightarrow> SyncState \<Rightarrow> nat" where
  "events_left h s = sum_list (map (phase_left h) (phases s))"

fun phase_busy :: "phase \<Rightarrow> bool" where
  "phase_busy (Working ws q) \<longleftrightarrow> ws \<noteq> [] \<and> length ws \<le> concurrencyLimit"
| "phase_busy p \<longleftrightarrow> True"

lemma sum_list_update_less:
  fixes f :: "'a \<Rightarrow> nat"
  assumes "j < length xs" "f y < f (xs ! j)"
  shows "sum_list (map f (xs[j := y])) < sum_list (map f xs)"
proof -
  have "sum_list (map f xs) = sum_list (map f (take j xs)) + f (xs ! j) + sum_list (map f (drop (Suc j) xs))"
    by (subst id_take_nth_drop [OF assms(1)]) simp
  then show ?thesis using assms by (simp add: upd_conv_take_nth_drop)
qed

lemma left_next_range:
  assumes "j < length ws"
  shows "phase_left h (next_range j ws q) + worker_left (ws ! j) \<le> phase_left h (Working ws q)"
proof -
  have "sum_list (map worker_left ws) =
        sum_list (map worker_left (take j ws)) + worker_left (ws ! j) + sum_list (map worker_left (drop (Suc j) ws))"
    by (subst id_take_nth_drop [OF assms]) simp
  then show ?thesis using assms
    by (auto simp: next_range_def upd_conv_take_nth_drop Let_def split: list.splits)
qed

lemma left_processBatchRanges: "phase_left h (processBatchRanges rs) = 2 * length rs"
proof -
  have "sum_list (map worker_left (map Fetching xs)) = 2 * length xs" for xs by (induction xs) auto
  moreover have "length (take concurrencyLimit rs) + length (drop concurrencyLimit rs) = length rs"
    by simp
  ultimately show ?thesis by (simp add: processBatchRanges_def del: map_map)
qed

lemma left_discovered:
  assumes node: "productive h node"
    and d: "discovered (node t (a, b)) (a, b) rs cur = (p, cur')"
  shows "phase_left h p < phase_left h (Discovering (a, b) rs)"
proof (cases "\<exists>x xs. node t (a, b) = BlockList (x # xs)")
  case True
  then obtain x xs where x: "node t (a, b) = BlockList (x # xs)" by blast
  then obtain y where y: "a \<le> h" "y \<in> set (x # xs)" "a \<le> block_id y"
    using node unfolding productive_def by (metis list.discI)
  have "a \<le> max_id cur (x # xs)" using max_id_ge(2) [OF y(2)] y(3) order_trans by blast
  with d x y(1) show ?thesis by (auto simp: discover_pair Let_def)
next
  case False
  with d show ?thesis
    by (cases "(node t (a, b), (a, b), rs, cur)" rule: discovered.cases) (auto simp: left_processBatchRanges)
qed

lemma left_after_fetch:
  assumes "j < length ws" "ws ! j = Fetching r"
  shows "phase_left h (after_fetch reply r j ws q) < phase_left h (Working ws q)"
proof (cases "fetched reply r")
  case None
  then show ?thesis using left_next_range [OF assms(1), of h q] assms(2) by (simp add: after_fetch_def)
next
  case (Some w)
  then have "worker_left w < worker_left (ws ! j)"
    using assms(2) by (cases "(reply, r)" rule: fetched.cases) auto
  with Some sum_list_update_less [OF assms(1), of worker_left w] show ?thesis by (simp add: after_fetch_def)
qed


text \<open>How an event the object awaits changes the phases.\<close>

lemma awaited_answer:
  assumes node: "productive h node" and a: "awaits (Answer t j) s"
  shows "\<exists>p. phases (answer node t j s) = (phases s)[t := p] \<and> phase_left h p < phase_left h (phases s ! t)"
proof -
  have t: "t < length (sn_syncs s)" using a by simp
  show ?thesis
  proof (cases "phases s ! t")
    case (Discovering r rs)
    obtain p cur where d: "discovered (node (sn_clock s) r) r rs (sn_currentBlockNumber s) = (p, cur)" by fastforce
    have "phase_left h p < phase_left h (Discovering r rs)" using left_discovered [OF node] d by (cases r) blast
    with d t Discovering show ?thesis by (auto simp: answer_def phases_nth)
  next
    case (Working ws q)
    with a obtain r where j: "j < length ws" "ws ! j = Fetching r" by (cases "ws ! j") auto
    let ?p = "after_fetch (node (sn_clock s) r) r j ws q"
    have "phases (answer node t j s) = (phases s)[t := ?p]" using t Working j by (simp add: answer_def phases_nth)
    with left_after_fetch [OF j] Working show ?thesis by metis
  qed (use a in auto)
qed

lemma awaited_write:
  assumes a: "awaits (WriteDone t j k) s"
  shows "\<exists>p. phases (write_done t j k s) = (phases s)[t := p] \<and> phase_left h p < phase_left h (phases s ! t)"
proof (cases "phases s ! t")
  case (Working ws q)
  with a obtain r bs where j: "j < length ws" "ws ! j = Writing r bs" by (cases "ws ! j") auto
  have "t < length (sn_syncs s)" using a by simp
  with j Working left_next_range [OF j(1), of h q] show ?thesis by (auto simp: write_done_def phases_nth)
qed (use a in auto)

lemma awaited_database:
  assumes "awaits (Database t error) s"
  shows "\<exists>p. phases (database t error s) = (phases s)[t := p] \<and> phase_left h p < phase_left h (phases s ! t)"
  using assms by (cases error) (auto simp: database_defs phases_nth discover_pair split: phase.splits)

lemma awaited_query:
  assumes "awaits (Evaluate t) s"
  shows "\<exists>p. phases (evaluate_query t s) = (phases s)[t := p] \<and> phase_left h p < phase_left h (phases s ! t)"
  using assms by (auto simp: evaluate_query_def phases_nth)

lemma awaited_step:
  assumes node: "productive h node" and a: "awaits e s"
  shows "events_left h (sync_step iv node e s) < events_left h s"
proof -
  have "\<exists>t p. t < length (sn_syncs s) \<and> phases (handle iv node e s) = (phases s)[t := p] \<and> phase_left h p < phase_left h (phases s ! t)"
  proof (cases e)
    case (Answer t j)
    with a awaited_answer [OF node, of t j s] show ?thesis by auto
  next
    case (WriteDone t j k)
    with a awaited_write [of t j k s h] show ?thesis by auto
  next
    case (Database t error)
    with a awaited_database [of t error s h] show ?thesis by auto
  next
    case (Evaluate t)
    then have "phases (handle iv node e s) = phases (evaluate_query t s)" "t < length (sn_syncs s)" using a by simp_all
    with awaited_query [of t s h] a Evaluate show ?thesis by metis
  qed (use a in auto)
  then obtain t p where "t < length (sn_syncs s)" "phases (handle iv node e s) = (phases s)[t := p]"
      "phase_left h p < phase_left h (phases s ! t)" by blast
  then show ?thesis using sum_list_update_less [of t "phases s" "phase_left h" p]
    by (simp add: events_left_def sync_step_def)
qed

text \<open>At most five workers, and none of them idle.\<close>

lemma busy_next_range: "phase_busy (Working ws q) \<Longrightarrow> phase_busy (next_range j ws q)"
  by (auto simp: next_range_def Let_def split: list.splits)

lemma busy_processBatchRanges: "phase_busy (processBatchRanges rs)"
  by (simp add: processBatchRanges_def concurrencyLimit_def)

lemma busy_discovered: "discovered reply r rs cur = (p, cur') \<Longrightarrow> phase_busy p"
  by (cases "(reply, r, rs, cur)" rule: discovered.cases) (auto simp: busy_processBatchRanges discover_pair Let_def)

lemma busy_after_fetch: "phase_busy (Working ws q) \<Longrightarrow> phase_busy (after_fetch reply r j ws q)"
  by (auto simp: after_fetch_def split: option.splits intro: busy_next_range)

lemma busy_set_phase: "list_all phase_busy (phases s) \<Longrightarrow> phase_busy p \<Longrightarrow> t < length (sn_syncs s) \<Longrightarrow> list_all phase_busy (phases (set_phase t p s))"
  by (simp add: list_all_update)

lemma busy_handle: "list_all phase_busy (phases s) \<Longrightarrow> list_all phase_busy (phases (handle iv node e s))"
proof (cases e)
  case (Answer t j)
  assume b: "list_all phase_busy (phases s)"
  then have "phase_busy (sy_phase (sn_syncs s ! t))" if "t < length (sn_syncs s)"
    using that by (simp add: list_all_length phases_nth)
  with b Answer show ?thesis
    by (auto simp: answer_def list_all_update busy_discovered busy_after_fetch split: phase.splits worker.splits prod.splits)
next
  case (WriteDone t j k)
  assume b: "list_all phase_busy (phases s)"
  then have "phase_busy (sy_phase (sn_syncs s ! t))" if "t < length (sn_syncs s)"
    using that by (simp add: list_all_length phases_nth)
  with b WriteDone show ?thesis
    by (auto simp: write_done_def list_all_update busy_next_range split: phase.splits worker.splits prod.splits)
next
  case (Database t error)
  assume "list_all phase_busy (phases s)"
  with Database show ?thesis
    by (auto simp: database_defs list_all_update discover_pair split: phase.splits option.splits)
next
  case (Evaluate t)
  assume "list_all phase_busy (phases s)"
  with Evaluate show ?thesis by (auto simp: evaluate_query_def list_all_update)
qed (auto simp: fetchAndSyncNewBlocks_def initialize_def phases_def Let_def discover_pair split: message_action.splits)

lemma busy_run: "list_all phase_busy (phases s) \<Longrightarrow> list_all phase_busy (phases (run_sync iv node es s))"
  unfolding run_sync_def by (induction es arbitrary: s) (auto simp: sync_step_def busy_handle)

lemma busy_new: "list_all phase_busy (phases (run_sync iv node es (new_SyncState docs)))"
  by (rule busy_run) (simp add: phases_def new_SyncState_def)

lemma awaits_something:
  assumes "list_all phase_busy (phases s)" "\<not> settled s"
  shows "\<exists>e. awaits e s"
proof -
  obtain t where t: "t < length (sn_syncs s)" "phases s ! t \<noteq> Finished" "\<forall>e. phases s ! t \<noteq> Failed e"
    using assms(2) unfolding settled_def list_all_length
    by (metis ended.simps(1,2) phases_simps(5))
  show ?thesis
  proof (cases "phases s ! t")
    case (Discovering r rs)
    with t have "awaits (Answer t 0) s" by simp
    then show ?thesis ..
  next
    case (Working ws q)
    moreover have "phase_busy (phases s ! t)" using assms(1) t(1) by (simp add: list_all_length)
    ultimately have "awaits (Answer t 0) s \<or> awaits (WriteDone t 0 None) s" using t by simp
    then show ?thesis by blast
  next
    case Opening
    with t have "awaits (Database t None) s" by simp
    then show ?thesis ..
  next
    case Reading
    with t have "awaits (Evaluate t) s" by simp
    then show ?thesis ..
  next
    case (Found n)
    with t have "awaits (Database t None) s" by simp
    then show ?thesis ..
  qed (use t in auto)
qed

text \<open>
  C14. Whatever happened before, no more than the bound on the events left can follow before every
  call has ended, and until then the object awaits something.
\<close>

theorem sync_terminates:
  assumes node: "productive h node" and s: "s = run_sync iv node es0 (new_SyncState docs)" and run: "awaited_run iv node es s"
  shows "length es \<le> events_left h s \<and>
    (settled (run_sync iv node es s) \<or> (\<exists>e. awaits e (run_sync iv node es s)))"
proof
  show "length es \<le> events_left h s" using run
  proof (induction es arbitrary: s)
    case (Cons e es)
    then have "length es \<le> events_left h (sync_step iv node e s)" "awaits e s" by auto
    with awaited_step [OF node, of e s iv] show ?case by simp
  qed simp
  show "settled (run_sync iv node es s) \<or> (\<exists>e. awaits e (run_sync iv node es s))"
    using awaits_something busy_run busy_new unfolding s by blast
qed


lemma serves_productive:
  assumes "serves chain height node" "\<And>t. height t \<le> h"
  shows "productive h node"
proof -
  have "a \<le> h \<and> (\<exists>x \<in> set bs. a \<le> block_id x)" if "node t (a, b) = BlockList bs" "bs \<noteq> []" for t a b bs
  proof -
    have bs: "bs = map chain [a..<Suc (min b (height t))]" using that(1) serves_reply [OF assms(1)] by simp
    with that(2) have "a < Suc (min b (height t))" by (metis map_is_Nil_conv upt_eq_Nil_conv not_less)
    with bs assms(2) [of t] show ?thesis
      using serves_chain [OF assms(1), of a] by (auto simp: block_id_def or_default_def less_Suc_eq_le simp del: upt_Suc intro!: bexI [of _ a])
  qed
  then show ?thesis unfolding productive_def by blast
qed

theorem sync_terminates_witness:
  "length [Database 0 None, Evaluate 0, Database 0 None, Answer 0 0, Answer 0 0, Answer 0 0, WriteDone 0 0 None]
     \<le> events_left 2 (run_sync 5000 (sample_node 2) [Initialize] (new_SyncState []))"
proof -
  have "awaited_run 5000 (sample_node 2) [Database 0 None, Evaluate 0, Database 0 None, Answer 0 0, Answer 0 0, Answer 0 0, WriteDone 0 0 None]
          (run_sync 5000 (sample_node 2) [Initialize] (new_SyncState []))" by code_simp
  from sync_terminates [OF serves_productive [OF sample_node_serves order_refl] refl this] show ?thesis by blast
qed

text \<open>
  The condition on the node matters: when its answers carry no id, the loop goes on for ever.
\<close>

definition stuck_node :: chain_node where
  "stuck_node t r = BlockList [\<lparr>bk_id = None, bk_transactions = None, bk_rest = []\<rparr>]"

lemma stuck_answer:
  assumes "phases s = [Discovering r rs]"
  shows "\<exists>r' rs'. phases (sync_step iv stuck_node (Answer 0 0) s) = [Discovering r' rs']"
  using assms by (cases "sn_syncs s")
    (auto simp: phases_def sync_step_def answer_def stuck_node_def discover_pair set_phase_def Let_def)

definition start_events :: "event list" where
  "start_events = [Initialize, Database 0 None, Evaluate 0, Database 0 None]"

theorem discovery_may_not_end:
  "\<not> settled (run_sync iv stuck_node (start_events @ replicate n (Answer 0 0)) (new_SyncState docs))
   \<and> awaits (Answer 0 0) (run_sync iv stuck_node (start_events @ replicate n (Answer 0 0)) (new_SyncState docs))"
proof -
  have "\<exists>r' rs'. phases (run_sync iv stuck_node (replicate n (Answer 0 0)) s) = [Discovering r' rs']"
    if "phases s = [Discovering r rs]" for s r rs
    using that unfolding run_sync_def
  proof (induction n arbitrary: s r rs)
    case (Suc n)
    from stuck_answer [OF Suc.prems, of iv] Suc.IH show ?case by fastforce
  qed simp
  moreover have "\<exists>r rs. phases (run_sync iv stuck_node start_events (new_SyncState docs)) = [Discovering r rs]"
    by (auto simp: start_events_def run_sync_def sync_step_def initialize_def database_defs new_SyncState_def phases_def
        set_phase_def discover_pair Let_def)
  ultimately obtain r rs where
    "phases (run_sync iv stuck_node (start_events @ replicate n (Answer 0 0)) (new_SyncState docs)) = [Discovering r rs]"
    by (fastforce simp: run_sync_def)
  moreover from this have "0 < length (sn_syncs (run_sync iv stuck_node (start_events @ replicate n (Answer 0 0)) (new_SyncState docs)))"
    by (metis length_Cons phases_simps(5) zero_less_Suc)
  ultimately show ?thesis by (simp add: settled_def)
qed


section \<open>Lost blocks\<close>

text \<open>A node that sends only blocks of the range asked for; it may fail or leave blocks out.\<close>

definition in_range_node :: "chain_node \<Rightarrow> bool" where
  "in_range_node node \<longleftrightarrow> (\<forall>t r bs n. node t r = BlockList bs \<and> stored n bs \<longrightarrow> in_range n r)"

fun phase_beyond :: "nat \<Rightarrow> phase \<Rightarrow> bool" where
  "phase_beyond n (Found m) \<longleftrightarrow> n \<le> m"
| "phase_beyond n (Discovering r rs) \<longleftrightarrow> n < fst r \<and> \<not> list_ex (in_range n) rs"
| "phase_beyond n p \<longleftrightarrow> \<not> phase_covers n p"

text \<open>
  A block is lost when it is not stored, no call in progress covers it, and both the number from
  which the object looks for blocks and the last block in the collection are not before it. In a
  fresh process no call has got to the first request for blocks, and no timer or socket starts one.
\<close>

fun starting :: "phase \<Rightarrow> bool" where
  "starting Opening \<longleftrightarrow> True"
| "starting Reading \<longleftrightarrow> True"
| "starting (Found n) \<longleftrightarrow> True"
| "starting (Failed e) \<longleftrightarrow> True"
| "starting p \<longleftrightarrow> False"

definition fresh :: "SyncState \<Rightarrow> bool" where
  "fresh s \<longleftrightarrow> list_all starting (phases s) \<and> cn_intervals (sn_conn s) = []
     \<and> cn_sockets (sn_conn s) = [] \<and> cn_reconnectTimers (sn_conn s) = []"

definition lost :: "nat \<Rightarrow> SyncState \<Rightarrow> bool" where
  "lost n s \<longleftrightarrow> \<not> stored n (sn_collection s) \<and> n \<le> lastBlockNumber (sn_collection s)
     \<and> (n \<le> sn_currentBlockNumber s \<or> fresh s) \<and> list_all (phase_beyond n) (phases s)"


lemma last_bulkWrite: "n \<le> lastBlockNumber ds \<Longrightarrow> n \<le> lastBlockNumber (bulkWrite bs ds)"
  using stored_lastBlockNumber [of ds] lastBlockNumber_stored [of "lastBlockNumber ds" "bulkWrite bs ds"] by auto

lemma uncovered_next_range: "\<not> phase_covers n (Working ws q) \<Longrightarrow> phase_beyond n (next_range j ws q)"
  by (auto simp: next_range_def Let_def list_ex_iff split: list.splits
      dest: set_update_subset_insert [THEN subsetD] in_set_takeD in_set_dropD)

lemma beyond_processBatchRanges: "\<not> list_ex (in_range n) rs \<Longrightarrow> phase_beyond n (processBatchRanges rs)"
  using covers_processBatchRanges [of n rs] by (cases "processBatchRanges rs") (auto simp: processBatchRanges_def split: if_splits)

lemma beyond_discovered:
  assumes "phase_beyond n (Discovering r rs)" "n \<le> cur" "discovered reply r rs cur = (p, cur')"
  shows "phase_beyond n p \<and> n \<le> cur'"
proof (cases "(reply, r, rs, cur)" rule: discovered.cases)
  case (4 b bs r' rs' c)
  have "n \<le> max_id c (b # bs)" using max_id_ge(1) [of c "b # bs"] 4 assms(2) by simp
  with 4 assms show ?thesis by (auto simp: discover_pair Let_def in_range_def)
qed (use assms in \<open>auto simp: beyond_processBatchRanges\<close>)

lemma beyond_after_fetch:
  assumes node: "in_range_node node" and p: "phase_beyond n (Working ws q)" and j: "j < length ws" "ws ! j = Fetching r"
  shows "phase_beyond n (after_fetch (node t r) r j ws q)"
proof (cases "fetched (node t r) r")
  case (Some w)
  then obtain bs where bs: "node t r = BlockList bs" "w = Writing r (processBlocks bs)"
    by (cases "(node t r, r)" rule: fetched.cases) auto
  have "\<not> in_range n r" using p j by (auto simp: list_ex_length)
  then have "\<not> worker_covers n w" using node bs unfolding in_range_node_def
    by (metis stored_processBlocks worker_covers.simps(2))
  then have "\<not> list_ex (worker_covers n) (ws[j := w])"
    using p by (auto simp: list_ex_iff dest: set_update_subset_insert [THEN subsetD])
  with Some p show ?thesis by (simp add: after_fetch_def)
qed (use p uncovered_next_range in \<open>auto simp: after_fetch_def\<close>)

lemma lost_set_phase:
  assumes "lost n s" "t < length (sn_syncs s)" "phase_beyond n p" "n \<le> sn_currentBlockNumber s'" "phases s' = phases s"
    "\<not> stored n (sn_collection s')" "n \<le> lastBlockNumber (sn_collection s')"
  shows "lost n (set_phase t p s')"
proof -
  have "length (sn_syncs s') = length (sn_syncs s)" using assms(5) by (metis phases_simps(5))
  then show ?thesis using assms by (simp add: lost_def list_all_update)
qed

lemma lost_current:
  "lost n s \<Longrightarrow> t < length (sn_syncs s) \<Longrightarrow> phase_beyond n (sy_phase (sn_syncs s ! t))"
  "lost n s \<Longrightarrow> t < length (sn_syncs s) \<Longrightarrow> \<not> starting (sy_phase (sn_syncs s ! t)) \<Longrightarrow> n \<le> sn_currentBlockNumber s"
  by (auto simp: lost_def fresh_def list_all_length phases_nth)

lemma lost_answer:
  assumes node: "in_range_node node" and l: "lost n s"
  shows "lost n (answer node t j s)"
proof (cases "t < length (sn_syncs s)")
  case t: True
  note c = lost_current [OF l t]
  have st: "\<not> stored n (sn_collection s)" "n \<le> lastBlockNumber (sn_collection s)" using l by (auto simp: lost_def)
  show ?thesis
  proof (cases "sy_phase (sn_syncs s ! t)")
    case (Discovering r rs)
    obtain p cur where d: "discovered (node (sn_clock s) r) r rs (sn_currentBlockNumber s) = (p, cur)" by fastforce
    with c Discovering have "phase_beyond n p \<and> n \<le> cur" by (intro beyond_discovered) auto
    with d t st Discovering lost_set_phase [OF l t, of p "s\<lparr>sn_currentBlockNumber := cur\<rparr>"] show ?thesis by (simp add: answer_def)
  next
    case (Working ws q)
    have "phase_beyond n (after_fetch (node (sn_clock s) r) r j ws q)" if "j < length ws" "ws ! j = Fetching r" for r
      using c Working that by (intro beyond_after_fetch [OF node]) auto
    with Working t l c st lost_set_phase [OF l t, of _ s] show ?thesis by (auto simp: answer_def split: worker.splits)
  qed (use l t in \<open>auto simp: answer_def\<close>)
qed (use l in \<open>auto simp: answer_def\<close>)

lemma lost_write_done:
  assumes l: "lost n s"
  shows "lost n (write_done t j k s)"
proof (cases "t < length (sn_syncs s) \<and> (\<exists>ws q r bs. sy_phase (sn_syncs s ! t) = Working ws q \<and> j < length ws \<and> ws ! j = Writing r bs)")
  case True
  then obtain ws q r bs where t: "t < length (sn_syncs s)" and w: "sy_phase (sn_syncs s ! t) = Working ws q"
    "j < length ws" "ws ! j = Writing r bs" by blast
  note c = lost_current [OF l t]
  let ?bs = "case k of None \<Rightarrow> bs | Some k \<Rightarrow> take k bs"
  have "\<not> phase_covers n (Working ws q)" and bs: "\<not> stored n bs" using c w by (auto simp: list_ex_length)
  then have "phase_beyond n (next_range j ws q)" by (intro uncovered_next_range)
  moreover have "\<not> stored n ?bs" using bs by (auto split: option.splits dest: stored_takeD)
  ultimately have "lost n (set_phase t (next_range j ws q) (s\<lparr>sn_collection := bulkWrite ?bs (sn_collection s)\<rparr>))"
    by (intro lost_set_phase [OF l t]) (use c w l in \<open>simp_all add: lost_def last_bulkWrite\<close>)
  with t w show ?thesis by (simp add: write_done_def)
next
  case False
  then have "write_done t j k s = s" by (auto simp: write_done_def split: phase.split worker.split)
  with l show ?thesis by simp
qed

lemma lost_conn: "lost n s \<Longrightarrow> (fresh s \<Longrightarrow> fresh (s\<lparr>sn_conn := c\<rparr>)) \<Longrightarrow> lost n (s\<lparr>sn_conn := c\<rparr>)"
  by (auto simp: lost_def)

lemma lost_starts:
  assumes "lost n s"
  shows "lost n (initialize s)" "\<not> fresh s \<Longrightarrow> lost n (fetchAndSyncNewBlocks s)"
  using assms by (auto simp: lost_def fresh_def initialize_def fetchAndSyncNewBlocks_def phases_def discover_pair)

lemma fresh_set_phase: "fresh s \<Longrightarrow> starting p \<Longrightarrow> t < length (sn_syncs s) \<Longrightarrow> fresh (set_phase t p s)"
  by (cases p) (auto simp: fresh_def list_all_update, auto simp: set_phase_def after_phase_def emit_def Let_def)

lemma lost_starting:
  assumes "lost n s" "t < length (sn_syncs s)" "phase_beyond n p" "starting p"
  shows "lost n (set_phase t p s)"
  using assms fresh_set_phase by (auto simp: lost_def list_all_update)

lemma lost_database:
  assumes l: "lost n s"
  shows "lost n (evaluate_query t s)" "lost n (database t error s)"
proof -
  have last: "n \<le> lastBlockNumber (sn_collection s)" using l by (simp add: lost_def)
  show "lost n (evaluate_query t s)" using l last by (auto simp: evaluate_query_def intro: lost_starting)
  have "lost n (last_block_found t m s)" if "t < length (sn_syncs s)" "sy_phase (sn_syncs s ! t) = Found m" for m
    unfolding last_block_found_def using lost_current(1) [OF l that(1)] that l
    by (intro lost_set_phase [OF l]) (auto simp: lost_def discover_pair)
  then show "lost n (database t error s)" using l
    by (cases error) (auto simp: database_def fetchAndSyncInitialBlocks_def intro!: lost_starting split: phase.split)
qed

lemma lost_handle:
  assumes "in_range_node node" "lost n s"
  shows "lost n (handle iv node e s)"
proof (cases e)
  case (Message i m)
  have "\<not> fresh s" if "i < length (cn_sockets (sn_conn s))" using that by (auto simp: fresh_def)
  with Message assms lost_starts show ?thesis
    by (auto intro: lost_conn split: message_action.splits)
next
  case (CloseCalled ok)
  have "fresh s \<Longrightarrow> fresh (s\<lparr>sn_conn := close_connection ok (sn_conn s)\<rparr>)"
    by (auto simp: fresh_def close_connection_def stopPeriodicFetch_def emit_def Let_def split: option.splits)
  with CloseCalled assms lost_conn show ?thesis by simp
next
  case Restart
  with assms show ?thesis by (auto simp: lost_def fresh_def new_Connection_def phases_def)
next
  case FetchTimer
  with assms lost_starts show ?thesis by (auto simp: fresh_def)
qed (use assms lost_starts in \<open>auto intro!: lost_conn simp: lost_answer lost_write_done lost_database fresh_def on_open_def on_close_def on_reconnect_timer_def emit_def\<close>)

text \<open>
  C15. Let the node answer only with blocks of the range asked for. A block that is not stored, that
  no call in progress covers, that is not after the last stored block and from beyond which the
  object looks for blocks (or the process has just started) is never stored, whatever the node, the
  database, the socket and the timers do, restarts and new calls of \<open>initialize\<close> included.
\<close>

theorem lost_for_ever:
  assumes "in_range_node node" "lost n s"
  shows "\<not> stored n (sn_collection (run_sync iv node es s))"
proof -
  have "lost n (run_sync iv node es s)"
    using assms(2) unfolding run_sync_def
  proof (induction es arbitrary: s)
    case (Cons e es)
    then have "lost n (handle iv node e s)" by (intro lost_handle [OF assms(1)])
    then have "lost n (sync_step iv node e s)" by (simp add: sync_step_def lost_def fresh_def)
    with Cons show ?case by simp
  qed simp
  then show ?thesis by (simp add: lost_def)
qed


text \<open>
  How a block gets lost. The node has the blocks 1 and 101, found as two batches; the second
  batch is written first, then the request for the first one fails.
\<close>

definition gap_node :: "nat \<Rightarrow> chain_node" where
  "gap_node fails t r =
     (if t = fails then Unreachable ''timeout''
      else BlockList (filter (\<lambda>b. in_range (block_id b) r) [sample_chain 1, sample_chain 101]))"

lemma gap_node_in_range: "in_range_node (gap_node f)"
  by (auto simp: in_range_node_def gap_node_def sample_chain_def block_id_def or_default_def split: if_splits)

theorem lost_for_ever_witness:
  "\<not> stored 1 (sn_collection (run_sync 5000 (gap_node 9) [Restart, Initialize, Answer 0 0]
      (run_sync 5000 (gap_node 9) [Initialize, Database 0 None, Evaluate 0, Database 0 None, Answer 0 0, Answer 0 0, Answer 0 0, Answer 0 1, WriteDone 0 1 None, Answer 0 0] (new_SyncState []))))"
proof -
  have "lost 1 (run_sync 5000 (gap_node 9)
      [Initialize, Database 0 None, Evaluate 0, Database 0 None, Answer 0 0, Answer 0 0, Answer 0 0, Answer 0 1, WriteDone 0 1 None, Answer 0 0] (new_SyncState []))"
    by code_simp
  from lost_for_ever [OF gap_node_in_range this] show ?thesis .
qed


section \<open>Closing and reconnecting\<close>

text \<open>\<open>close\<close> was called when no reconnection was waiting and \<open>initialize\<close> was not in progress.\<close>

definition shut :: "SyncState \<Rightarrow> bool" where
  "shut s \<longleftrightarrow> cn_isClosing (sn_conn s) \<and> cn_reconnectTimers (sn_conn s) = []
     \<and> list_all (\<lambda>y. sy_initial y \<longrightarrow> ended (sy_phase y)) (sn_syncs s)"

definition opened :: "SyncState \<Rightarrow> nat" where
  "opened s = length (cn_sockets (sn_conn s))"

lemma shut_set_phase:
  assumes s: "shut s'" and t: "t < length (sn_syncs s')" "\<not> ended (sy_phase (sn_syncs s' ! t))"
  shows "shut (set_phase t p s') \<and> opened (set_phase t p s') = opened s'"
proof -
  have "\<not> sy_initial (sn_syncs s' ! t)" using s t by (auto simp: shut_def list_all_length)
  then have "sn_conn (set_phase t p s') = sn_conn s' \<or> sn_conn (set_phase t p s') = emit ErrorEvent (sn_conn s')"
    by (auto simp: set_phase_def after_phase_def Let_def split: phase.split)
  moreover have "list_all (\<lambda>y. sy_initial y \<longrightarrow> ended (sy_phase y)) (sn_syncs (set_phase t p s'))"
    using s \<open>\<not> sy_initial (sn_syncs s' ! t)\<close> by (auto simp: set_phase_def Let_def shut_def intro!: list_all_update)
  ultimately show ?thesis using s by (auto simp: shut_def opened_def emit_def)
qed

lemma shut_answer: "shut s \<Longrightarrow> shut (answer node t j s) \<and> opened (answer node t j s) = opened s"
  using shut_set_phase [of "s\<lparr>sn_currentBlockNumber := c\<rparr>" t for c] shut_set_phase [of s t]
  by (auto simp: answer_def shut_def opened_def split: phase.split worker.split prod.split)

lemma shut_write_done: "shut s \<Longrightarrow> shut (write_done t j k s) \<and> opened (write_done t j k s) = opened s"
  using shut_set_phase [of "s\<lparr>sn_collection := c\<rparr>" t for c]
  by (auto simp: write_done_def shut_def opened_def split: phase.split worker.split)

lemma shut_database:
  assumes "shut s"
  shows "shut (evaluate_query t s) \<and> opened (evaluate_query t s) = opened s"
    and "shut (database t error s) \<and> opened (database t error s) = opened s"
  using assms shut_set_phase [of "s\<lparr>sn_currentBlockNumber := c\<rparr>" t for c] shut_set_phase [of s t]
  by (auto simp: database_defs shut_def opened_def split: phase.split option.split)

lemmas connection_defs = on_open_def on_close_def on_reconnect_timer_def close_connection_def close_socket_def
  stopPeriodicFetch_def emit_def

lemma closing_keeps:
  assumes "cn_isClosing c" "cn_reconnectTimers c = []"
    "c' \<in> {on_open i c, on_close iv i c, on_reconnect_timer i c, close_connection ok c, emit ErrorEvent c}"
  shows "cn_isClosing c' \<and> cn_reconnectTimers c' = [] \<and> length (cn_sockets c') = length (cn_sockets c)"
  using assms by (auto simp: connection_defs Let_def split: option.split socket_state.split)

lemma shut_handle:
  assumes "shut s" "e \<notin> {Initialize, Restart}"
  shows "shut (handle iv node e s) \<and> opened (handle iv node e s) = opened s"
proof -
  have n: "shut (fetchAndSyncNewBlocks s) \<and> opened (fetchAndSyncNewBlocks s) = opened s"
    using assms(1) by (simp add: shut_def opened_def fetchAndSyncNewBlocks_def)
  have c: "shut (s\<lparr>sn_conn := c'\<rparr>) \<and> opened (s\<lparr>sn_conn := c'\<rparr>) = opened s"
    if "c' \<in> {on_open i (sn_conn s), on_close iv i (sn_conn s), on_reconnect_timer i (sn_conn s), close_connection ok (sn_conn s), emit ErrorEvent (sn_conn s)}"
    for c' i ok
    using closing_keeps [OF _ _ that] assms(1) by (simp add: shut_def opened_def)
  show ?thesis using n c assms shut_answer shut_write_done shut_database by (cases e) (auto split: message_action.split)
qed

text \<open>
  C35. When \<open>close\<close> was called with no reconnection waiting and no \<open>initialize\<close> in progress, no socket is
  opened, whatever the timers, the sockets, the database and the node do, until \<open>initialize\<close> is called again
  or the process restarts.
\<close>

theorem closed_stays_closed:
  assumes "shut s" "list_all (\<lambda>e. e \<notin> {Initialize, Restart}) es"
  shows "opened (run_sync iv node es s) = opened s"
  using assms unfolding run_sync_def
proof (induction es arbitrary: s)
  case (Cons e es)
  then have "shut (handle iv node e s) \<and> opened (handle iv node e s) = opened s" by (intro shut_handle) auto
  then have "shut (sync_step iv node e s) \<and> opened (sync_step iv node e s) = opened s"
    by (simp add: sync_step_def shut_def opened_def)
  with Cons show ?case by simp
qed simp

theorem closed_stays_closed_witness:
  "opened (run_sync 5000 (sample_node 0) [SocketCloses 0, ReconnectTimer 0, FetchTimer, Message 0 ''Update blocks'']
      (run_sync 5000 (sample_node 0) [Initialize, Database 0 None, Evaluate 0, Database 0 None, Answer 0 0, SocketOpens 0, CloseCalled True] (new_SyncState []))) = 1"
proof -
  let ?s = "run_sync 5000 (sample_node 0) [Initialize, Database 0 None, Evaluate 0, Database 0 None, Answer 0 0, SocketOpens 0, CloseCalled True] (new_SyncState [])"
  have "shut ?s" "opened ?s = 1" by code_simp+
  with closed_stays_closed [of ?s "[SocketCloses 0, ReconnectTimer 0, FetchTimer, Message 0 ''Update blocks'']" 5000 "sample_node 0"]
  show ?thesis by simp
qed

text \<open>When the database cannot be opened or read, \<open>initialize\<close> throws and has started nothing.\<close>

lemma initialize_throws:
  assumes "t < length (sn_syncs s)" "sy_initial (sn_syncs s ! t)" "sy_phase (sn_syncs s ! t) \<in> {Opening, Reading, Found n}"
  shows "database t (Some e) s = s\<lparr>sn_syncs := (sn_syncs s)[t := \<lparr>sy_initial = True, sy_phase = Failed e\<rparr>]\<rparr>"
  using assms by (cases "sn_syncs s ! t") (auto simp: database_def set_phase_def after_phase_def)

text \<open>With a reconnection waiting, \<open>close\<close> does not stop it: a new socket opens afterwards and stays.\<close>

theorem reconnect_after_close:
  assumes "k < length (cn_reconnectTimers (sn_conn s))"
  shows "\<exists>socks. cn_sockets (sn_conn (run_sync iv node [CloseCalled ok, ReconnectTimer k] s)) = socks @ [Connecting]
    \<and> length socks = opened s
    \<and> cn_isClosing (sn_conn (run_sync iv node [CloseCalled ok, ReconnectTimer k] s))"
  using assms
  by (auto simp: run_sync_def sync_step_def connection_defs connectWebSocket_def opened_def Let_def
      split: option.split socket_state.split)

theorem reconnect_after_close_witness:
  "\<exists>socks. cn_sockets (sn_conn (run_sync 5000 (sample_node 0) [CloseCalled True, ReconnectTimer 0]
      (run_sync 5000 (sample_node 0) [Initialize, Database 0 None, Evaluate 0, Database 0 None, Answer 0 0, SocketCloses 0] (new_SyncState [])))) = socks @ [Connecting]"
proof -
  let ?s = "run_sync 5000 (sample_node 0) [Initialize, Database 0 None, Evaluate 0, Database 0 None, Answer 0 0, SocketCloses 0] (new_SyncState [])"
  have "0 < length (cn_reconnectTimers (sn_conn ?s))" by code_simp
  from reconnect_after_close [OF this, of 5000 "sample_node 0" True] show ?thesis by blast
qed

text \<open>Every failed attempt doubles the delay, without a bound.\<close>

definition failed_attempt :: "nat \<Rightarrow> Connection \<Rightarrow> Connection" where
  "failed_attempt iv c = on_close iv (length (cn_sockets c)) (on_reconnect_timer 0 c)"

theorem reconnect_backoff:
  assumes "cn_reconnectTimers c = [iv * 2 ^ cn_reconnectAttempts c]" "\<not> cn_isClosing c"
  shows "cn_reconnectTimers ((failed_attempt iv ^^ n) c) = [iv * 2 ^ (cn_reconnectAttempts c + n)]
    \<and> cn_reconnectAttempts ((failed_attempt iv ^^ n) c) = cn_reconnectAttempts c + n
    \<and> \<not> cn_isClosing ((failed_attempt iv ^^ n) c)"
proof (induction n)
  case (Suc n)
  then show ?case
    by (simp add: failed_attempt_def connection_defs connectWebSocket_def attemptReconnection_def Let_def)
qed (use assms in simp)

theorem reconnect_backoff_witness:
  "cn_reconnectTimers ((failed_attempt 5000 ^^ 10) (on_close 5000 0 (connectWebSocket new_Connection))) = [5120000]"
  using reconnect_backoff [of "on_close 5000 0 (connectWebSocket new_Connection)" 5000 10]
  by (simp add: connection_defs connectWebSocket_def attemptReconnection_def new_Connection_def Let_def)

end
