(* ===== verification/Http_Common.thy ===== *)
theory Http_Common
  imports Json_Parse
begin

text \<open>
  What the HTTP servers of the program share: requests as the \<open>http\<close> module delivers them, the
  reading of a body, responses, and the JavaScript conversions of parsed JSON values (truth,
  text, property access). A body arrives in chunks; the path is what the \<open>URL\<close> class returns, or
  None when it throws. Texts are ASCII, so decoding a chunk does not depend on where it was cut.
\<close>

section \<open>JavaScript values\<close>

text \<open>The truth value of a parsed value; \<open>undefined\<close> is None.\<close>

fun is_truthy :: "json option \<Rightarrow> bool" where
  "is_truthy None \<longleftrightarrow> False"
| "is_truthy (Some JNull) \<longleftrightarrow> False"
| "is_truthy (Some (JBool b)) \<longleftrightarrow> b"
| "is_truthy (Some (JNum n k)) \<longleftrightarrow> n \<noteq> 0"
| "is_truthy (Some (JStr s)) \<longleftrightarrow> s \<noteq> []"
| "is_truthy (Some (JArr xs)) \<longleftrightarrow> True"
| "is_truthy (Some (JObj ps)) \<longleftrightarrow> True"

text \<open>\<open>String(v)\<close>.\<close>

fun to_text :: "json \<Rightarrow> string" where
  "to_text JNull = ''null''"
| "to_text (JBool b) = (if b then ''true'' else ''false'')"
| "to_text (JNum n k) = show_decimal n k"
| "to_text (JStr s) = s"
| "to_text (JArr xs) = join '','' (map (\<lambda>x. if x = JNull then [] else to_text x) xs)"
| "to_text (JObj ps) = ''[object Object]''"

text \<open>
  \<open>v.p\<close> for a name that no built-in object defines: an error on \<open>null\<close>, otherwise the property
  of an object, or \<open>undefined\<close>.
\<close>

definition member :: "string \<Rightarrow> json \<Rightarrow> string + json option" where
  "member p v =
     (case v of
        JNull \<Rightarrow> Inl (''Cannot read properties of null (reading '' @ [CHR 0x27] @ p @ [CHR 0x27] @ '')'')
      | JObj ps \<Rightarrow> Inr (map_of ps p)
      | _ \<Rightarrow> Inr None)"


section \<open>Requests and responses\<close>

record HttpRequest =
  rq_method :: string
  rq_pathname :: "string option"
  rq_chunks :: "string list"
  rq_broken :: "string option"

record HttpResponse =
  rp_status :: nat
  rp_body :: "string option"

text \<open>
  A handler answers, or its promise is rejected and nothing answers: the rejection of an
  \<open>async\<close> request listener is not handled by anyone.
\<close>

datatype outcome = Responds HttpResponse | UnhandledRejection string

definition readBody :: "HttpRequest \<Rightarrow> string + string" where
  "readBody req = (case rq_broken req of Some e \<Rightarrow> Inl e | None \<Rightarrow> Inr (concat (rq_chunks req)))"

definition respond :: "nat \<Rightarrow> json \<Rightarrow> HttpResponse" where
  "respond status data = \<lparr>rp_status = status, rp_body = Some (stringify data)\<rparr>"

definition error_body :: "string \<Rightarrow> json" where
  "error_body message = JObj [(''error'', JStr message)]"

lemma respond_status [simp]: "rp_status (respond n d) = n"
  by (simp add: respond_def)

lemma respond_body [simp]: "rp_body (respond n d) = Some (stringify d)"
  by (simp add: respond_def)

end
