(* ===== verification/Key_Value.thy ===== *)
theory Key_Value
  imports Main
begin

text \<open>
  The interface of a key-value store, which the stores of several components provide: the key-value
  server behind HTTP and the key table of the wallet.
\<close>

section \<open>Insertion and lookup\<close>

text \<open>The contract of a key-value store, on the keys it treats as ordinary.\<close>

locale key_value =
  fixes put :: "'k \<Rightarrow> 'v \<Rightarrow> 's \<Rightarrow> 's" and get :: "'s \<Rightarrow> 'k \<Rightarrow> 'v option"
    and ordinary :: "'k \<Rightarrow> bool" and ready :: "'s \<Rightarrow> bool"
  assumes ready_put: "ordinary k \<Longrightarrow> ready s \<Longrightarrow> ready (put k v s)"
    and get_put: "ordinary k \<Longrightarrow> ready s \<Longrightarrow> get (put k v s) k = Some v"
    and get_put_other: "ordinary k \<Longrightarrow> ordinary k' \<Longrightarrow> ready s \<Longrightarrow> k \<noteq> k' \<Longrightarrow> get (put k' v s) k = get s k"
begin

definition put_all :: "('k \<times> 'v) list \<Rightarrow> 's \<Rightarrow> 's" where
  "put_all kvs s = fold (\<lambda>(k, v). put k v) kvs s"

lemma get_put_all:
  assumes "list_all (\<lambda>(k, v). ordinary k) kvs" "ready s" "ordinary k"
  shows "ready (put_all kvs s) \<and> get (put_all kvs s) k = (case map_of (rev kvs) k of Some v \<Rightarrow> Some v | None \<Rightarrow> get s k)"
  using assms unfolding put_all_def
proof (induction kvs arbitrary: s rule: rev_induct)
  case (snoc kv kvs)
  then show ?case
    by (cases kv) (auto simp: ready_put get_put get_put_other)
qed simp

lemma get_put_if: "ordinary k \<Longrightarrow> ordinary k' \<Longrightarrow> ready s \<Longrightarrow> get (put k' v s) k = (if k = k' then Some v else get s k)"
  by (simp add: get_put get_put_other)

end


section \<open>Deletion\<close>

text \<open>A store that also deletes.\<close>

locale erasable_store = key_value +
  fixes del :: "'a \<Rightarrow> 'c \<Rightarrow> 'c"
  assumes ready_del: "ordinary k \<Longrightarrow> ready s \<Longrightarrow> ready (del k s)"
    and get_del: "ordinary k \<Longrightarrow> ready s \<Longrightarrow> get (del k s) k = None"
    and get_del_other: "ordinary k \<Longrightarrow> ordinary k' \<Longrightarrow> ready s \<Longrightarrow> k \<noteq> k' \<Longrightarrow> get (del k' s) k = get s k"
begin

lemma get_del_if: "ordinary k \<Longrightarrow> ordinary k' \<Longrightarrow> ready s \<Longrightarrow> get (del k' s) k = (if k = k' then None else get s k)"
  by (simp add: get_del get_del_other)

end

end
