(* ===== verification/Kv_Wrapper.thy ===== *)
theory Kv_Wrapper
  imports Http_Common Key_Value
begin

text \<open>
  Model of \<open>resilientdb/http-wrapper.ts\<close>: a key-value store behind HTTP routes. The store is a plain
  JavaScript object, so a lookup falls through to its prototype, whose members are visible as keys,
  and assigning to \<open>__proto__\<close> replaces the prototype (by a value that has no property of that name
  itself). The theory shows what every request for a key returns after every sequence of requests.
\<close>

section \<open>The store\<close>

text \<open>The own properties in the order of creation, and the prototype when it was replaced.\<close>

record KVStore =
  kv_own :: "(string \<times> json) list"
  kv_proto :: "json option"

definition empty_store :: KVStore where
  "empty_store = \<lparr>kv_own = [], kv_proto = None\<rparr>"

datatype lookup = Absent | Value json | Builtin

definition object_members :: "string list" where
  "object_members = [''constructor'', ''__defineGetter__'', ''__defineSetter__'', ''hasOwnProperty'', ''__lookupGetter__'',
     ''__lookupSetter__'', ''isPrototypeOf'', ''propertyIsEnumerable'', ''toString'', ''valueOf'', ''toLocaleString'']"

text \<open>Members of \<open>Array.prototype\<close>, visible when the prototype is an array.\<close>

definition array_members :: "string list" where
  "array_members = [''at'', ''concat'', ''copyWithin'', ''fill'', ''find'', ''findIndex'', ''findLast'', ''findLastIndex'',
     ''lastIndexOf'', ''pop'', ''push'', ''reverse'', ''shift'', ''unshift'', ''slice'', ''sort'', ''splice'', ''includes'',
     ''indexOf'', ''join'', ''keys'', ''entries'', ''values'', ''forEach'', ''filter'', ''flat'', ''flatMap'', ''map'', ''every'',
     ''some'', ''reduce'', ''reduceRight'', ''toReversed'', ''toSorted'', ''toSpliced'', ''with'']"

definition builtin_member :: "string \<Rightarrow> lookup" where
  "builtin_member key = (if key \<in> set object_members then Builtin else Absent)"

text \<open>A property of the prototype.\<close>

definition proto_member :: "json option \<Rightarrow> string \<Rightarrow> lookup" where
  "proto_member p key =
     (case p of
        Some (JObj ps) \<Rightarrow> (case map_of ps key of Some v \<Rightarrow> Value v | None \<Rightarrow> builtin_member key)
      | Some (JArr xs) \<Rightarrow>
          (if key = ''length'' then Value (JNum (int (length xs)) 0)
           else case find (\<lambda>i. show_nat i = key) [0..<length xs] of
                  Some i \<Rightarrow> Value (xs ! i)
                | None \<Rightarrow> if key \<in> set array_members then Builtin else builtin_member key)
      | _ \<Rightarrow> builtin_member key)"

text \<open>\<open>store[key]\<close>; \<open>store['__proto__']\<close> is the prototype, at first an object without own properties.\<close>

definition getValue :: "KVStore \<Rightarrow> string \<Rightarrow> lookup" where
  "getValue s key =
     (if key = ''__proto__'' then Value (or_default (kv_proto s) (JObj []))
      else case map_of (kv_own s) key of Some v \<Rightarrow> Value v | None \<Rightarrow> proto_member (kv_proto s) key)"

text \<open>\<open>store[key] = value\<close>; an assignment to \<open>__proto__\<close> sets the prototype when the value is an object.\<close>

definition set_value :: "string \<Rightarrow> json \<Rightarrow> KVStore \<Rightarrow> KVStore" where
  "set_value key v s =
     (if key = ''__proto__''
      then (case v of JObj ps \<Rightarrow> s\<lparr>kv_proto := Some v\<rparr> | JArr xs \<Rightarrow> s\<lparr>kv_proto := Some v\<rparr> | _ \<Rightarrow> s)
      else s\<lparr>kv_own := AList.update key v (kv_own s)\<rparr>)"

text \<open>\<open>Object.keys\<close>: array indices in ascending order, then the other names in the order of creation.\<close>

definition index_of_key :: "string \<Rightarrow> nat option" where
  "index_of_key k =
     (if k \<noteq> [] \<and> length k \<le> 10 \<and> list_all is_digit k \<and> show_nat (digits_value k) = k \<and> digits_value k < 4294967295
      then Some (digits_value k) else None)"

definition getAllKeys :: "KVStore \<Rightarrow> string list" where
  "getAllKeys s =
     (let ks = map fst (kv_own s)
      in sort_key digits_value (filter (\<lambda>k. index_of_key k \<noteq> None) ks) @ filter (\<lambda>k. index_of_key k = None) ks)"


section \<open>Requests\<close>

definition commit_path :: string where
  "commit_path = ''/v1/transactions/commit''"

definition key_prefix :: string where
  "key_prefix = ''/v1/transactions/''"

text \<open>
  A value that cannot be made a property key: an object with a member \<open>toString\<close>, which is no function
  when it comes from JSON, or an array with such an element.
\<close>

fun no_key :: "json \<Rightarrow> bool" where
  "no_key (JObj ps) \<longleftrightarrow> map_of ps ''toString'' \<noteq> None"
| "no_key (JArr xs) \<longleftrightarrow> list_ex no_key xs"
| "no_key j \<longleftrightarrow> False"

text \<open>\<open>POST /v1/transactions/commit\<close> with the body read.\<close>

definition commit_body :: "json \<Rightarrow> KVStore \<Rightarrow> (string + HttpResponse) \<times> KVStore" where
  "commit_body data s =
     (case (member ''id'' data, member ''value'' data) of
        (Inr i, Inr v) \<Rightarrow>
          (if is_truthy i \<and> is_truthy v
           then if no_key (the i) then (Inl ''Cannot convert object to primitive value'', s)
                else (Inr (respond 200 (JObj [(''id'', the i), (''success'', JBool True)])), set_value (to_text (the i)) (the v) s)
           else (Inr (respond 400 (error_body ''Missing id or value'')), s))
      | (Inl e, _) \<Rightarrow> (Inl e, s)
      | (_, Inl e) \<Rightarrow> (Inl e, s))"

definition commit_request :: "(string \<Rightarrow> string) \<Rightarrow> HttpRequest \<Rightarrow> KVStore \<Rightarrow> (string + HttpResponse) \<times> KVStore" where
  "commit_request syntax_error req s =
     (case readBody req of
        Inl e \<Rightarrow> (Inl e, s)
      | Inr body \<Rightarrow> (case json_parse body of None \<Rightarrow> (Inl (syntax_error body), s) | Some data \<Rightarrow> commit_body data s))"

text \<open>\<open>GET /v1/transactions/<key>\<close>. The text of a built-in function is left out of the object.\<close>

definition get_key :: "string \<Rightarrow> KVStore \<Rightarrow> HttpResponse" where
  "get_key key s =
     (if key = [] \<or> key = ''test'' then respond 200 (JArr (map JStr (getAllKeys s)))
      else case getValue s key of
             Absent \<Rightarrow> respond 404 (error_body ''Not found'')
           | Value v \<Rightarrow> respond 200 (JObj [(''id'', JStr key), (''value'', v)])
           | Builtin \<Rightarrow> respond 200 (JObj [(''id'', JStr key)]))"

definition list_keys :: "KVStore \<Rightarrow> HttpResponse" where
  "list_keys s = respond 200 (JArr (map (\<lambda>k. JObj [(''id'', JStr k)]) (getAllKeys s)))"

text \<open>
  The body of the \<open>try\<close> block, and the whole handler: the address is parsed before the \<open>try\<close>.
  The texts of the syntax errors of \<open>JSON.parse\<close> and of an invalid address are arguments.
\<close>

definition route :: "(string \<Rightarrow> string) \<Rightarrow> string \<Rightarrow> HttpRequest \<Rightarrow> KVStore \<Rightarrow> (string + HttpResponse) \<times> KVStore" where
  "route syntax_error pathname req s =
     (if rq_method req = ''POST'' \<and> pathname = commit_path then commit_request syntax_error req s
      else if rq_method req = ''GET'' \<and> startsWith pathname key_prefix
      then (Inr (get_key (replace_first pathname key_prefix []) s), s)
      else if rq_method req = ''GET'' \<and> pathname = ''/v1/transactions'' then (Inr (list_keys s), s)
      else (Inr (respond 404 (error_body ''Not found'')), s))"

definition handleRequest :: "(string \<Rightarrow> string) \<Rightarrow> HttpRequest \<Rightarrow> KVStore \<Rightarrow> outcome \<times> KVStore" where
  "handleRequest syntax_error req s =
     (if rq_method req = ''OPTIONS'' then (Responds \<lparr>rp_status = 200, rp_body = None\<rparr>, s)
      else case rq_pathname req of
             None \<Rightarrow> (UnhandledRejection ''Invalid URL'', s)
           | Some pathname \<Rightarrow>
               (case route syntax_error pathname req s of
                  (Inr resp, s') \<Rightarrow> (Responds resp, s')
                | (Inl e, s') \<Rightarrow> (Responds (respond 500 (error_body e)), s')))"

text \<open>Starting: a port in use counts as success, any other error is thrown.\<close>

datatype listen_result = Listening | PortInUse | ListenError string

definition start_wrapper :: "listen_result \<Rightarrow> string + unit" where
  "start_wrapper r = (case r of ListenError e \<Rightarrow> Inl e | _ \<Rightarrow> Inr ())"


section \<open>What a key returns\<close>

text \<open>
  The own properties are a map: on all keys but \<open>__proto__\<close>, whatever the prototype.
\<close>

definition own_value :: "KVStore \<Rightarrow> string \<Rightarrow> json option" where
  "own_value s k = map_of (kv_own s) k"

interpretation kv: key_value set_value own_value "\<lambda>k. k \<noteq> ''__proto__''" "\<lambda>s. True"
  by unfold_locales (auto simp: own_value_def set_value_def update_conv')

text \<open>
  The pair that a request commits: its body is a JSON object, sent in any number of chunks, with an
  \<open>id\<close> and a \<open>value\<close> that count as true. The key is the text of the \<open>id\<close>, which can be any JSON value that has one.
\<close>

definition accepted :: "HttpRequest \<Rightarrow> (string \<times> json) option" where
  "accepted req =
     (if rq_method req = ''POST'' \<and> rq_pathname req = Some commit_path \<and> rq_broken req = None
      then (case json_parse (concat (rq_chunks req)) of
              Some (JObj ps) \<Rightarrow>
                (case (map_of ps ''id'', map_of ps ''value'') of
                   (Some i, Some v) \<Rightarrow> if is_truthy (Some i) \<and> is_truthy (Some v) \<and> \<not> no_key i then Some (to_text i, v) else None
                 | _ \<Rightarrow> None)
            | _ \<Rightarrow> None)
      else None)"

text \<open>
  A request for a key. The key is the rest of the path as the \<open>URL\<close> class gives it: percent-encoded, and
  the code does not decode it.
\<close>

definition asks :: "string \<Rightarrow> HttpRequest \<Rightarrow> bool" where
  "asks k req \<longleftrightarrow> rq_method req = ''GET'' \<and> rq_pathname req = Some (key_prefix @ k)"

definition serve :: "(string \<Rightarrow> string) \<Rightarrow> HttpRequest list \<Rightarrow> KVStore \<Rightarrow> KVStore" where
  "serve err reqs s = fold (\<lambda>req s. snd (handleRequest err req s)) reqs s"

text \<open>
  What a key is after a sequence of commits, in terms of the commits alone: the last value under
  it; without one, a member of the prototype, which is the last object or array committed under
  \<open>__proto__\<close> and otherwise the one all objects have.
\<close>

definition last_proto :: "(string \<times> json) list \<Rightarrow> json option" where
  "last_proto cs = map_of (rev (filter (\<lambda>(k, v). case v of JObj ps \<Rightarrow> True | JArr xs \<Rightarrow> True | _ \<Rightarrow> False) cs)) ''__proto__''"

definition committed :: "(string \<times> json) list \<Rightarrow> string \<Rightarrow> lookup" where
  "committed cs k =
     (if k = ''__proto__'' then Value (case last_proto cs of Some p \<Rightarrow> p | None \<Rightarrow> JObj [])
      else case map_of (rev cs) k of Some v \<Rightarrow> Value v | None \<Rightarrow> proto_member (last_proto cs) k)"

lemma handle_accepted: "snd (handleRequest err req s) = (case accepted req of None \<Rightarrow> s | Some (k, v) \<Rightarrow> set_value k v s)"
  by (auto simp: handleRequest_def route_def commit_request_def readBody_def commit_body_def member_def accepted_def
      split: option.splits json.splits if_splits)

text \<open>A commit is accepted exactly when it is answered with 200.\<close>

lemma accepted_status:
  assumes "rq_method req = ''POST''"
  shows "accepted req \<noteq> None \<longleftrightarrow> (\<exists>resp. fst (handleRequest err req s) = Responds resp \<and> rp_status resp = 200)"
  using assms
  by (auto simp: handleRequest_def route_def commit_request_def readBody_def commit_body_def member_def accepted_def respond_def
      split: option.splits json.splits if_splits)

lemma serve_accepted: "serve err reqs s = fold (\<lambda>(k, v). set_value k v) (List.map_filter accepted reqs) s"
  unfolding serve_def by (induction reqs arbitrary: s) (auto simp: handle_accepted map_filter_simps split: option.splits)

lemma proto_after: "kv_proto (fold (\<lambda>(k, v). set_value k v) cs s) = (case last_proto cs of Some p \<Rightarrow> Some p | None \<Rightarrow> kv_proto s)"
proof (induction cs rule: rev_induct)
  case (snoc c cs)
  then show ?case by (cases c) (auto simp: last_proto_def set_value_def split: json.splits)
qed (simp add: last_proto_def)

lemma own_after:
  assumes "k \<noteq> ''__proto__''"
  shows "own_value (fold (\<lambda>(k, v). set_value k v) cs s) k = (case map_of (rev cs) k of Some v \<Rightarrow> Some v | None \<Rightarrow> own_value s k)"
proof -
  let ?p = "\<lambda>(k, v). k \<noteq> ''__proto__''"
  have "kv_own (fold (\<lambda>(k, v). set_value k v) cs s) = kv_own (kv.put_all (filter ?p cs) s)"
    unfolding kv.put_all_def
    by (induction cs rule: rev_induct) (auto simp: set_value_def split: json.splits)
  then have "own_value (fold (\<lambda>(k, v). set_value k v) cs s) k = own_value (kv.put_all (filter ?p cs) s) k"
    by (simp add: own_value_def)
  moreover have "map_of (rev (filter ?p cs)) k = map_of (rev cs) k"
    using assms by (induction cs rule: rev_induct) auto
  ultimately show ?thesis using kv.get_put_all [of "filter ?p cs" k s] assms by (auto simp: list_all_iff)
qed

lemma getValue_after: "getValue (fold (\<lambda>(k, v). set_value k v) cs empty_store) k = committed cs k"
  using own_after [of k cs empty_store] proto_after [of cs empty_store]
  by (auto simp: getValue_def committed_def own_value_def empty_store_def or_default_def split: option.splits)

lemma replace_prefix: "replace_first (key_prefix @ k) key_prefix [] = k"
  by (simp add: key_prefix_def startsWith_def)

lemma handle_get: "asks k req \<Longrightarrow> fst (handleRequest err req s) = Responds (get_key k s)"
  using replace_prefix [of k] by (simp add: handleRequest_def route_def asks_def startsWith_def)



definition post_request :: "string \<Rightarrow> json \<Rightarrow> HttpRequest" where
  "post_request k v = \<lparr>rq_method = ''POST'', rq_pathname = Some commit_path,
     rq_chunks = [stringify (JObj [(''id'', JStr k), (''value'', v)])], rq_broken = None\<rparr>"

definition get_request :: "string \<Rightarrow> HttpRequest" where
  "get_request k = \<lparr>rq_method = ''GET'', rq_pathname = Some (key_prefix @ k), rq_chunks = [], rq_broken = None\<rparr>"

lemma asks_get [simp]: "asks k (get_request k)" "accepted (get_request k) = None"
  by (simp_all add: asks_def get_request_def accepted_def)

lemma accepted_post:
  assumes "normal v" "is_truthy (Some v)" "k \<noteq> []"
  shows "accepted (post_request k v) = Some (k, v)"
proof -
  have "json_parse (stringify (JObj [(''id'', JStr k), (''value'', v)])) = Some (JObj [(''id'', JStr k), (''value'', v)])"
    using assms(1) by (intro parse_stringify) simp
  then show ?thesis using assms by (simp add: accepted_def post_request_def)
qed



section \<open>Keys that are not ordinary\<close>

text \<open>
  A commit under \<open>__proto__\<close> is acknowledged but adds no key; instead the members of the value
  become visible as values of keys that were never committed.
\<close>

theorem kv_proto_leak:
  assumes "normal (JObj ps)" "map_of ps k = Some v" "k \<noteq> []" "k \<noteq> ''test''" "k \<noteq> ''__proto__''" "map_of (kv_own s) k = None"
  shows "rp_status (case fst (handleRequest err (post_request ''__proto__'' (JObj ps)) s) of Responds r \<Rightarrow> r) = 200
    \<and> getAllKeys (snd (handleRequest err (post_request ''__proto__'' (JObj ps)) s)) = getAllKeys s
    \<and> fst (handleRequest err (get_request k) (snd (handleRequest err (post_request ''__proto__'' (JObj ps)) s)))
      = Responds (respond 200 (JObj [(''id'', JStr k), (''value'', v)]))"
proof -
  have "json_parse (stringify (JObj [(''id'', JStr ''__proto__''), (''value'', JObj ps)])) = Some (JObj [(''id'', JStr ''__proto__''), (''value'', JObj ps)])"
    using assms(1) by (intro parse_stringify) simp
  then have "handleRequest err (post_request ''__proto__'' (JObj ps)) s =
      (Responds (respond 200 (JObj [(''id'', JStr ''__proto__''), (''success'', JBool True)])), s\<lparr>kv_proto := Some (JObj ps)\<rparr>)"
    by (simp add: handleRequest_def route_def commit_request_def readBody_def post_request_def commit_body_def member_def set_value_def)
  then show ?thesis using assms
    by (simp add: handle_get [OF asks_get(1)] get_key_def getValue_def proto_member_def getAllKeys_def)
qed

theorem kv_proto_leak_witness:
  "fst (handleRequest (\<lambda>b. b) (get_request ''admin'')
      (snd (handleRequest (\<lambda>b. b) (post_request ''__proto__'' (JObj [(''admin'', JBool True)])) empty_store)))
   = Responds (respond 200 (JObj [(''id'', JStr ''admin''), (''value'', JBool True)]))"
  using kv_proto_leak [of "[(''admin'', JBool True)]" "''admin''" "JBool True" empty_store "\<lambda>b. b"]
  by (simp add: empty_store_def)

text \<open>
  The names of the members of every object count as present, a key with a space is not found under
  the path that the \<open>URL\<close> class makes of it, false values cannot be committed,
  and an address that the \<open>URL\<close> class refuses is never answered.
\<close>

theorem kv_gaps:
  "k \<in> set object_members \<Longrightarrow>
     fst (handleRequest err (get_request k) empty_store) = Responds (respond 200 (JObj [(''id'', JStr k)]))"
  "normal v \<Longrightarrow> is_truthy (Some v) \<Longrightarrow>
     fst (handleRequest err (get_request ''a%20b'') (snd (handleRequest err (post_request ''a b'' v) empty_store)))
       = Responds (respond 404 (error_body ''Not found''))"
  "normal v \<Longrightarrow> \<not> is_truthy (Some v) \<Longrightarrow>
     handleRequest err (post_request k v) s = (Responds (respond 400 (error_body ''Missing id or value'')), s)"
  "rq_method req \<noteq> ''OPTIONS'' \<Longrightarrow> rq_pathname req = None \<Longrightarrow>
     fst (handleRequest err req s) = UnhandledRejection ''Invalid URL''"
proof -
  assume k: "k \<in> set object_members"
  then have "k \<noteq> []" "k \<noteq> ''test''" "k \<noteq> ''__proto__''" by (auto simp: object_members_def)
  with k show "fst (handleRequest err (get_request k) empty_store) = Responds (respond 200 (JObj [(''id'', JStr k)]))"
    by (simp add: handle_get [OF asks_get(1)] get_key_def getValue_def empty_store_def proto_member_def builtin_member_def)
next
  assume "normal v" "is_truthy (Some v)"
  then have "accepted (post_request ''a b'' v) = Some (''a b'', v)" by (simp add: accepted_post)
  then show "fst (handleRequest err (get_request ''a%20b'') (snd (handleRequest err (post_request ''a b'' v) empty_store)))
      = Responds (respond 404 (error_body ''Not found''))"
    by (simp add: handle_get [OF asks_get(1)] get_key_def handle_accepted set_value_def getValue_def empty_store_def proto_member_def builtin_member_def
        object_members_def)
next
  assume v: "normal v" "\<not> is_truthy (Some v)"
  have "json_parse (stringify (JObj [(''id'', JStr k), (''value'', v)])) = Some (JObj [(''id'', JStr k), (''value'', v)])"
    using v by (intro parse_stringify) simp
  with v show "handleRequest err (post_request k v) s = (Responds (respond 400 (error_body ''Missing id or value'')), s)"
    by (simp add: handleRequest_def route_def commit_request_def readBody_def post_request_def commit_body_def member_def)
qed (simp add: handleRequest_def)

end
