(* ===== verification/ResilientDB_Client.thy ===== *)
theory ResilientDB_Client
  imports Http_Common
begin

text \<open>
  Model of \<open>resilientdb/client.ts\<close>: the GraphQL client. The endpoint is a function from requests to
  an answer or an error message. Answers are JSON values, so the transformation of an introspection
  result has to cope with anything the endpoint sends; reading a property of \<open>null\<close> or \<open>undefined\<close>
  throws, as in JavaScript. The theory shows that a well-formed introspection result becomes a schema
  context of the documented type, and what an ill-formed one becomes.
\<close>

section \<open>Requests\<close>

record GraphQLQuery =
  gq_query :: string
  gq_variables :: "json option"
  gq_operationName :: "string option"

text \<open>A request: the document, the variables when they are passed, and the headers.\<close>

type_synonym gql_request = "string \<times> json option \<times> (string \<times> string) list"
type_synonym gql_endpoint = "gql_request \<Rightarrow> string + json"

definition or_json :: "json option \<Rightarrow> json \<Rightarrow> json" where
  "or_json x d = (if is_truthy x then the x else d)"

definition executeQuery :: "gql_endpoint \<Rightarrow> GraphQLQuery \<Rightarrow> string + json" where
  "executeQuery endpoint q =
     (let headers = (if present (gq_operationName q) then [(''X-Operation-Name'', the (gq_operationName q))] else [])
      in case endpoint (gq_query q, Some (or_json (gq_variables q) (JObj [])), headers) of
           Inl e \<Rightarrow> Inl (''Failed to execute GraphQL query: '' @ e)
         | Inr response \<Rightarrow> Inr response)"


section \<open>Introspection\<close>

definition introspectionQuery :: string where
  "introspectionQuery =
     (let i = (\<lambda>n. replicate n (CHR '' ''));
          named = (\<lambda>n. [i n @ ''name'', i n @ ''kind'']);
          typed = (\<lambda>n. [i n @ ''type {''] @ named (n + 2) @ [i n @ ''}'']);
          arg = (\<lambda>n. [i n @ ''name''] @ typed n @ [i n @ ''description'', i n @ ''defaultValue'']);
          root = (\<lambda>r. [i 10 @ r @ '' {'', i 12 @ ''name'', i 12 @ ''fields {'', i 14 @ ''name'', i 14 @ ''description'']
                      @ typed 14 @ [i 14 @ ''args {''] @ arg 16 @ [i 14 @ ''}'', i 12 @ ''}'', i 10 @ ''}''])
      in join nl ([[], i 6 @ ''query IntrospectionQuery {'', i 8 @ ''__schema {''] @ root ''queryType'' @ root ''mutationType''
           @ [i 10 @ ''types {'', i 12 @ ''name'', i 12 @ ''kind'', i 12 @ ''description'', i 12 @ ''fields {'', i 14 @ ''name'']
           @ typed 14 @ [i 14 @ ''description'', i 12 @ ''}'', i 10 @ ''}'', i 8 @ ''}'', i 6 @ ''}'', i 4]))"

text \<open>\<open>x.p\<close> where \<open>x\<close> may be \<open>undefined\<close>, and \<open>x?.p\<close>.\<close>

definition get_member :: "string \<Rightarrow> json option \<Rightarrow> string + json option" where
  "get_member p x =
     (case x of
        None \<Rightarrow> Inl (''Cannot read properties of undefined (reading '' @ [CHR 0x27] @ p @ [CHR 0x27] @ '')'')
      | Some v \<Rightarrow> member p v)"

definition opt_member :: "string \<Rightarrow> json option \<Rightarrow> json option" where
  "opt_member p x =
     (case x of Some (JObj ps) \<Rightarrow> map_of ps p | _ \<Rightarrow> None)"

fun sequence_results :: "(string + 'a) list \<Rightarrow> string + 'a list" where
  "sequence_results [] = Inr []"
| "sequence_results (Inl e # rs) = Inl e"
| "sequence_results (Inr x # rs) = (case sequence_results rs of Inl e \<Rightarrow> Inl e | Inr xs \<Rightarrow> Inr (x # xs))"

text \<open>\<open>(x || []).map(f)\<close> and \<open>x?.map(f)\<close>.\<close>

definition map_or_empty :: "(json \<Rightarrow> string + json) \<Rightarrow> json option \<Rightarrow> string + json" where
  "map_or_empty f x =
     (case or_json x (JArr []) of
        JArr xs \<Rightarrow> (case sequence_results (map f xs) of Inl e \<Rightarrow> Inl e | Inr ys \<Rightarrow> Inr (JArr ys))
      | _ \<Rightarrow> Inl ''map is not a function'')"

definition map_if_present :: "(json \<Rightarrow> string + json) \<Rightarrow> json option \<Rightarrow> string + json option" where
  "map_if_present f x =
     (case x of
        None \<Rightarrow> Inr None
      | Some JNull \<Rightarrow> Inr None
      | Some (JArr xs) \<Rightarrow> (case sequence_results (map f xs) of Inl e \<Rightarrow> Inl e | Inr ys \<Rightarrow> Inr (Some (JArr ys)))
      | Some _ \<Rightarrow> Inl ''map is not a function'')"

text \<open>An object literal: properties that are \<open>undefined\<close> do not appear in its text.\<close>

definition object_of :: "(string \<times> json option) list \<Rightarrow> json" where
  "object_of ps = JObj (List.map_filter (\<lambda>(k, v). map_option (Pair k) v) ps)"

definition type_text :: "json option \<Rightarrow> json" where
  "type_text t = or_json (opt_member ''name'' t) (or_json (opt_member ''kind'' t) (JStr []))"

text \<open>The callbacks: a field of a type, an argument, a query or mutation, a type.\<close>

definition type_field :: "json \<Rightarrow> string + json" where
  "type_field f =
     (case member ''name'' f of
        Inl e \<Rightarrow> Inl e
      | Inr n \<Rightarrow> Inr (object_of [(''name'', Some (or_json n (JStr []))), (''type'', Some (type_text (opt_member ''type'' (Some f)))),
                                (''description'', opt_member ''description'' (Some f))]))"

definition field_arg :: "json \<Rightarrow> string + json" where
  "field_arg a =
     (case member ''name'' a of
        Inl e \<Rightarrow> Inl e
      | Inr n \<Rightarrow> Inr (object_of [(''name'', n), (''type'', Some (type_text (opt_member ''type'' (Some a)))),
                                (''description'', opt_member ''description'' (Some a)), (''defaultValue'', opt_member ''defaultValue'' (Some a))]))"

definition root_field :: "json \<Rightarrow> string + json" where
  "root_field f =
     (case member ''name'' f of
        Inl e \<Rightarrow> Inl e
      | Inr n \<Rightarrow>
          (case map_if_present field_arg (opt_member ''args'' (Some f)) of
             Inl e \<Rightarrow> Inl e
           | Inr args \<Rightarrow> Inr (object_of [(''name'', n), (''type'', Some (type_text (opt_member ''type'' (Some f)))),
                                        (''description'', opt_member ''description'' (Some f)), (''args'', args)])))"

definition schema_type :: "json \<Rightarrow> string + json" where
  "schema_type t =
     (case member ''name'' t of
        Inl e \<Rightarrow> Inl e
      | Inr n \<Rightarrow>
          (case map_or_empty type_field (opt_member ''fields'' (Some t)) of
             Inl e \<Rightarrow> Inl e
           | Inr fs \<Rightarrow> Inr (object_of [(''name'', Some (or_json n (JStr []))), (''kind'', Some (or_json (opt_member ''kind'' (Some t)) (JStr []))),
                                      (''description'', opt_member ''description'' (Some t)), (''fields'', Some fs)])))"

text \<open>The context: the text of the schema and the lists of types, queries and mutations.\<close>

record SchemaContext =
  sx_schema :: string
  sx_types :: json
  sx_queries :: json
  sx_mutations :: json

definition schema_context :: "json \<Rightarrow> string + SchemaContext" where
  "schema_context response =
     (case member ''__schema'' response of
        Inl e \<Rightarrow> Inl e
      | Inr schema \<Rightarrow>
          (case get_member ''types'' schema of
             Inl e \<Rightarrow> Inl e
           | Inr types \<Rightarrow>
               (case map_or_empty schema_type types of
                  Inl e \<Rightarrow> Inl e
                | Inr ts \<Rightarrow>
                    (case map_or_empty root_field (opt_member ''fields'' (opt_member ''queryType'' schema)) of
                       Inl e \<Rightarrow> Inl e
                     | Inr qs \<Rightarrow>
                         (case map_or_empty root_field (opt_member ''fields'' (opt_member ''mutationType'' schema)) of
                            Inl e \<Rightarrow> Inl e
                          | Inr ms \<Rightarrow> Inr \<lparr>sx_schema = stringify (the schema), sx_types = ts, sx_queries = qs, sx_mutations = ms\<rparr>)))))"

definition introspectSchema :: "gql_endpoint \<Rightarrow> string + SchemaContext" where
  "introspectSchema endpoint =
     (case endpoint (introspectionQuery, None, []) of
        Inl e \<Rightarrow> Inl (''Failed to introspect schema: '' @ e)
      | Inr response \<Rightarrow>
          (case schema_context response of Inl e \<Rightarrow> Inl (''Failed to introspect schema: '' @ e) | Inr sx \<Rightarrow> Inr sx))"


section \<open>Validation and health\<close>

record ValidationResult =
  vr_valid :: bool
  vr_errors :: "string list option"

definition validateQuery :: "gql_endpoint \<Rightarrow> string \<Rightarrow> ValidationResult" where
  "validateQuery endpoint query =
     (case endpoint (query, Some (JObj []), []) of
        Inr r \<Rightarrow> \<lparr>vr_valid = True, vr_errors = None\<rparr>
      | Inl e \<Rightarrow> \<lparr>vr_valid = False, vr_errors = Some [e]\<rparr>)"

record ConnectionStatus =
  ct_connected :: bool
  ct_endpoint :: string
  ct_error :: "string option"
  ct_responseTime :: "int option"

text \<open>\<open>checkConnection\<close>, with the clock before and after the request.\<close>

definition checkConnection :: "gql_endpoint \<Rightarrow> string \<Rightarrow> int \<Rightarrow> int \<Rightarrow> ConnectionStatus" where
  "checkConnection endpoint url startTime endTime =
     (case endpoint (''{ __typename }'', None, []) of
        Inr r \<Rightarrow> \<lparr>ct_connected = True, ct_endpoint = url, ct_error = None, ct_responseTime = Some (endTime - startTime)\<rparr>
      | Inl e \<Rightarrow> \<lparr>ct_connected = False, ct_endpoint = url, ct_error = Some e, ct_responseTime = None\<rparr>)"


section \<open>The shape of a schema context\<close>

fun array_of :: "(json \<Rightarrow> bool) \<Rightarrow> json \<Rightarrow> bool" where
  "array_of P (JArr xs) \<longleftrightarrow> list_all P xs"
| "array_of P j \<longleftrightarrow> False"

fun has_member :: "string \<Rightarrow> (json \<Rightarrow> bool) \<Rightarrow> json \<Rightarrow> bool" where
  "has_member k P (JObj ps) \<longleftrightarrow> (case map_of ps k of Some v \<Rightarrow> P v | None \<Rightarrow> False)"
| "has_member k P j \<longleftrightarrow> False"

text \<open>A member that may be missing or \<open>null\<close>, as GraphQL servers send it.\<close>

definition nullable :: "(json \<Rightarrow> bool) \<Rightarrow> string \<Rightarrow> json \<Rightarrow> bool" where
  "nullable P k j \<longleftrightarrow> (case opt_member k (Some j) of None \<Rightarrow> True | Some JNull \<Rightarrow> True | Some v \<Rightarrow> P v)"

fun is_text :: "json \<Rightarrow> bool" where
  "is_text (JStr s) \<longleftrightarrow> True"
| "is_text j \<longleftrightarrow> False"

fun is_object :: "json \<Rightarrow> bool" where
  "is_object (JObj ps) \<longleftrightarrow> True"
| "is_object j \<longleftrightarrow> False"

text \<open>
  The result of the introspection query as the type argument of the request declares it, and \<open>null\<close>
  where GraphQL allows it: the names of the fields of the root types and of arguments are texts,
  everything else may be absent.
\<close>

definition type_result :: "json \<Rightarrow> bool" where
  "type_result t \<longleftrightarrow> is_object t \<and> nullable is_text ''name'' t \<and> nullable is_text ''kind'' t"

definition arg_result :: "json \<Rightarrow> bool" where
  "arg_result a \<longleftrightarrow> has_member ''name'' is_text a \<and> nullable type_result ''type'' a \<and> nullable is_text ''description'' a"

definition root_field_result :: "json \<Rightarrow> bool" where
  "root_field_result f \<longleftrightarrow> has_member ''name'' is_text f \<and> nullable type_result ''type'' f \<and> nullable is_text ''description'' f
     \<and> nullable (array_of arg_result) ''args'' f"

definition field_result :: "json \<Rightarrow> bool" where
  "field_result f \<longleftrightarrow> is_object f \<and> nullable is_text ''name'' f \<and> nullable type_result ''type'' f \<and> nullable is_text ''description'' f"

definition named_type_result :: "json \<Rightarrow> bool" where
  "named_type_result t \<longleftrightarrow> is_object t \<and> nullable is_text ''name'' t \<and> nullable is_text ''kind'' t \<and> nullable is_text ''description'' t
     \<and> nullable (array_of field_result) ''fields'' t"

definition root_type_result :: "json \<Rightarrow> bool" where
  "root_type_result q \<longleftrightarrow> is_object q \<and> nullable (array_of root_field_result) ''fields'' q"

definition introspection_result :: "json \<Rightarrow> bool" where
  "introspection_result r \<longleftrightarrow> has_member ''__schema'' (\<lambda>s. is_object s \<and> nullable (array_of named_type_result) ''types'' s
     \<and> nullable root_type_result ''queryType'' s \<and> nullable root_type_result ''mutationType'' s) r"

text \<open>
  The interfaces of \<open>types/index.ts\<close>. A description is forwarded as it is, so that it can also be
  \<open>null\<close>; \<open>args\<close> is an array or missing.
\<close>

definition GraphQLArgument :: "json \<Rightarrow> bool" where
  "GraphQLArgument a \<longleftrightarrow> has_member ''name'' is_text a \<and> has_member ''type'' is_text a \<and> nullable is_text ''description'' a"

definition GraphQLField :: "json \<Rightarrow> bool" where
  "GraphQLField f \<longleftrightarrow> has_member ''name'' is_text f \<and> has_member ''type'' is_text f \<and> nullable is_text ''description'' f
     \<and> (opt_member ''args'' (Some f) = None \<or> has_member ''args'' (array_of GraphQLArgument) f)"

definition GraphQLType :: "json \<Rightarrow> bool" where
  "GraphQLType t \<longleftrightarrow> has_member ''name'' is_text t \<and> has_member ''kind'' is_text t \<and> nullable is_text ''description'' t
     \<and> has_member ''fields'' (array_of GraphQLField) t"

lemma sequence_results_map:
  "list_all P xs \<Longrightarrow> (\<And>x. P x \<Longrightarrow> \<exists>y. f x = Inr y \<and> Q y \<and> g y = h x) \<Longrightarrow>
   \<exists>ys. sequence_results (map f xs) = Inr ys \<and> list_all Q ys \<and> map g ys = map h xs"
proof (induction xs)
  case (Cons x xs)
  from Cons.prems obtain y where "f x = Inr y" "Q y" "g y = h x" by auto
  moreover from Cons obtain ys where "sequence_results (map f xs) = Inr ys" "list_all Q ys" "map g ys = map h xs" by auto
  ultimately show ?case by simp
qed simp

fun elements :: "json \<Rightarrow> json list" where
  "elements (JArr xs) = xs"
| "elements j = []"

lemma map_or_empty_nullable:
  assumes "nullable (array_of P) k j" "\<And>x. P x \<Longrightarrow> \<exists>y. f x = Inr y \<and> Q y \<and> g y = h x"
  shows "\<exists>y. map_or_empty f (opt_member k (Some j)) = Inr y \<and> array_of Q y
    \<and> map g (elements y) = map h (elements (or_json (opt_member k (Some j)) (JArr [])))"
proof (cases "opt_member k (Some j)")
  case (Some v)
  show ?thesis
  proof (cases v)
    case (JArr xs)
    then obtain ys where "sequence_results (map f xs) = Inr ys \<and> list_all Q ys \<and> map g ys = map h xs"
      using sequence_results_map [of P xs f Q g h] assms by (auto simp: nullable_def Some)
    then show ?thesis by (simp add: map_or_empty_def or_json_def Some JArr)
  qed (use assms(1) in \<open>simp_all add: Some nullable_def map_or_empty_def or_json_def\<close>)
qed (simp add: map_or_empty_def or_json_def)

lemma map_of_object_of: "map_of (List.map_filter (\<lambda>(k, v). map_option (Pair k) v) ps) k =
   (case find (\<lambda>(k', v). k' = k \<and> v \<noteq> None) ps of None \<Rightarrow> None | Some (_, v) \<Rightarrow> v)"
  by (induction ps) (auto simp: map_filter_simps split: option.splits)

lemma opt_member_object_of [simp]: "opt_member k (Some (object_of ps)) =
   (case find (\<lambda>(k', v). k' = k \<and> v \<noteq> None) ps of None \<Rightarrow> None | Some (_, v) \<Rightarrow> v)"
  by (simp add: opt_member_def object_of_def map_of_object_of)

lemma has_member_object [simp]:
  "has_member k P (object_of ps) \<longleftrightarrow> (case find (\<lambda>(k', v). k' = k \<and> v \<noteq> None) ps of Some (_, Some v) \<Rightarrow> P v | _ \<Rightarrow> False)"
  unfolding object_of_def has_member.simps map_of_object_of by (auto split: option.splits)

lemma has_member_iff: "has_member k P j \<longleftrightarrow> (\<exists>v. opt_member k (Some j) = Some v \<and> P v)"
  by (cases j) (auto simp: opt_member_def split: option.splits)

lemma nullable_same: "opt_member k (Some x) = opt_member k (Some y) \<Longrightarrow> nullable P k x \<longleftrightarrow> nullable P k y"
  by (simp add: nullable_def)

lemma member_object: "is_object j \<Longrightarrow> member k j = Inr (opt_member k (Some j))"
  by (cases j) (simp_all add: member_def opt_member_def)

lemma text_or: "nullable is_text k j \<Longrightarrow> is_text d \<Longrightarrow> is_text (or_json (opt_member k (Some j)) d)"
  by (auto simp: nullable_def or_json_def split: option.splits json.splits)

lemma type_text_is_text: "nullable type_result k j \<Longrightarrow> is_text (type_text (opt_member k (Some j)))"
  by (cases "opt_member k (Some j)")
     (auto simp: nullable_def type_text_def type_result_def text_or opt_member_def [of _ None] or_json_def [of None] opt_member_def [of _ "Some JNull"] split: json.splits)

lemma member_named: "has_member ''name'' is_text j \<Longrightarrow> member ''name'' j = Inr (opt_member ''name'' (Some j))"
  by (cases j) (simp_all add: member_def opt_member_def)

text \<open>Each callback succeeds on its part of a well-formed result, with the documented shape and the name it was given.\<close>

abbreviation name_of :: "json \<Rightarrow> json option" where
  "name_of j \<equiv> opt_member ''name'' (Some j)"

lemma field_arg_ok: "arg_result a \<Longrightarrow> \<exists>y. field_arg a = Inr y \<and> GraphQLArgument y \<and> name_of y = name_of a"
  using type_text_is_text [of "''type''" a]
  by (auto simp: arg_result_def field_arg_def member_named GraphQLArgument_def nullable_def has_member_iff [of "''name''"])

lemma type_field_ok: "field_result f \<Longrightarrow> \<exists>y. type_field f = Inr y \<and> GraphQLField y"
  using type_text_is_text [of "''type''" f] text_or [of "''name''" f "JStr []"]
  by (auto simp: field_result_def type_field_def member_object GraphQLField_def nullable_def)

lemma map_args:
  assumes "nullable (array_of arg_result) k j"
  shows "\<exists>x. map_if_present field_arg (opt_member k (Some j)) = Inr x \<and> (x = None \<or> (\<exists>v. x = Some v \<and> array_of GraphQLArgument v))"
proof (cases "opt_member k (Some j)")
  case (Some v)
  show ?thesis
  proof (cases v)
    case (JArr xs)
    then show ?thesis using sequence_results_map [of arg_result xs field_arg GraphQLArgument name_of name_of] assms field_arg_ok
      by (auto simp: Some map_if_present_def nullable_def)
  qed (use assms in \<open>simp_all add: Some nullable_def map_if_present_def\<close>)
qed (simp add: map_if_present_def)

lemma root_field_ok:
  assumes "root_field_result f"
  shows "\<exists>y. root_field f = Inr y \<and> GraphQLField y \<and> name_of y = name_of f"
proof -
  obtain x where x: "map_if_present field_arg (opt_member ''args'' (Some f)) = Inr x" "x = None \<or> (\<exists>v. x = Some v \<and> array_of GraphQLArgument v)"
    using map_args assms unfolding root_field_result_def by blast
  let ?y = "object_of [(''name'', name_of f), (''type'', Some (type_text (opt_member ''type'' (Some f)))),
    (''description'', opt_member ''description'' (Some f)), (''args'', x)]"
  have "root_field f = Inr ?y" using x(1) assms by (simp add: root_field_def root_field_result_def member_named)
  moreover have "GraphQLField ?y" "name_of ?y = name_of f"
    using assms x(2) type_text_is_text [of "''type''" f]
    by (auto simp: root_field_result_def GraphQLField_def nullable_def has_member_iff [of "''name''" is_text f])
  ultimately show ?thesis by blast
qed

lemma schema_type_ok:
  assumes "named_type_result t"
  shows "\<exists>y. schema_type t = Inr y \<and> GraphQLType y"
proof -
  obtain fs where fs: "map_or_empty type_field (opt_member ''fields'' (Some t)) = Inr fs" "array_of GraphQLField fs"
    using map_or_empty_nullable [of field_result "''fields''" t type_field GraphQLField "\<lambda>_. ()" "\<lambda>_. ()"] type_field_ok assms
    unfolding named_type_result_def by auto
  then show ?thesis using assms text_or [of "''name''" t "JStr []"] text_or [of "''kind''" t "JStr []"]
    by (simp add: schema_type_def named_type_result_def member_object GraphQLType_def nullable_def)
qed

lemma root_fields_ok:
  assumes "nullable root_type_result k j"
  shows "\<exists>y. map_or_empty root_field (opt_member ''fields'' (opt_member k (Some j))) = Inr y \<and> array_of GraphQLField y
    \<and> map name_of (elements y) = map name_of (elements (or_json (opt_member ''fields'' (opt_member k (Some j))) (JArr [])))"
proof (cases "opt_member k (Some j)")
  case None
  then show ?thesis by (simp add: map_or_empty_def or_json_def opt_member_def [of _ None])
next
  case (Some v)
  show ?thesis
  proof (cases "v = JNull")
    case True
    then show ?thesis by (simp add: Some map_or_empty_def or_json_def opt_member_def [of _ "Some JNull"])
  next
    case False
    then have "root_type_result v" using assms by (simp add: nullable_def Some split: json.splits)
    then show ?thesis unfolding Some using map_or_empty_nullable [of root_field_result "''fields''" v root_field GraphQLField name_of name_of] root_field_ok
      by (simp add: root_type_result_def)
  qed
qed

text \<open>
  C23. When the endpoint answers the introspection query with a well-formed result, the client returns
  a context of the documented type: types with a name, a kind and an array of fields, queries and
  mutations with a name and a type, whose arguments, if any, have a name and a type, all of
  these texts. The queries and mutations are those of the result, by name and in order.
\<close>

theorem schema_context_shape:
  assumes "endpoint (introspectionQuery, None, []) = Inr (JObj ps)" "introspection_result (JObj ps)" "map_of ps ''__schema'' = Some schema"
  shows "\<exists>sx. introspectSchema endpoint = Inr sx
    \<and> array_of GraphQLType (sx_types sx) \<and> array_of GraphQLField (sx_queries sx) \<and> array_of GraphQLField (sx_mutations sx)
    \<and> map name_of (elements (sx_queries sx))
        = map name_of (elements (or_json (opt_member ''fields'' (opt_member ''queryType'' (Some schema))) (JArr [])))
    \<and> map name_of (elements (sx_mutations sx))
        = map name_of (elements (or_json (opt_member ''fields'' (opt_member ''mutationType'' (Some schema))) (JArr [])))"
proof -
  have s: "is_object schema" "nullable (array_of named_type_result) ''types'' schema" "nullable root_type_result ''queryType'' schema"
    "nullable root_type_result ''mutationType'' schema"
    using assms(2,3) by (simp_all add: introspection_result_def)
  obtain ts where t: "map_or_empty schema_type (opt_member ''types'' (Some schema)) = Inr ts" "array_of GraphQLType ts"
    using map_or_empty_nullable [OF s(2), of schema_type GraphQLType "\<lambda>_. ()" "\<lambda>_. ()"] schema_type_ok by auto
  have "get_member ''types'' (Some schema) = Inr (opt_member ''types'' (Some schema))"
    using member_object [OF s(1)] by (simp add: get_member_def)
  then show ?thesis using t root_fields_ok [OF s(3)] root_fields_ok [OF s(4)] assms(1,3)
    by (auto simp: introspectSchema_def schema_context_def member_def)
qed

definition sample_endpoint :: gql_endpoint where
  "sample_endpoint req =
     Inr (JObj [(''__schema'', JObj [(''queryType'', JObj [(''fields'', JArr [JObj [(''name'', JStr ''getTransaction''),
            (''args'', JArr [JObj [(''name'', JStr ''id'')]])]])]), (''types'', JArr [JObj [(''name'', JStr ''Query'')]])])])"

theorem schema_context_shape_witness:
  "\<exists>sx. introspectSchema sample_endpoint = Inr sx \<and> array_of GraphQLField (sx_queries sx)
     \<and> map name_of (elements (sx_queries sx)) = [Some (JStr ''getTransaction'')]"
proof -
  let ?s = "JObj [(''queryType'', JObj [(''fields'', JArr [JObj [(''name'', JStr ''getTransaction''), (''args'', JArr [JObj [(''name'', JStr ''id'')]])]])]),
    (''types'', JArr [JObj [(''name'', JStr ''Query'')]])]"
  have "introspection_result (JObj [(''__schema'', ?s)])" by code_simp
  then show ?thesis
    using schema_context_shape [of sample_endpoint "[(''__schema'', ?s)]" ?s]
    by (auto simp: sample_endpoint_def or_json_def opt_member_def)
qed

text \<open>Nothing checks the answer: a field of the query type without a name becomes a query without one.\<close>

lemma nameless_query:
  "\<exists>sx. introspectSchema (\<lambda>_. Inr (JObj [(''__schema'', JObj [(''queryType'', JObj [(''fields'', JArr [JObj []])])])])) = Inr sx
     \<and> sx_queries sx = JArr [JObj [(''type'', JStr [])]]"
  by (simp add: introspectSchema_def schema_context_def member_def get_member_def map_or_empty_def
      or_json_def opt_member_def root_field_def map_if_present_def object_of_def type_text_def map_filter_simps)

end
