(* ===== verification/Data_Pipeline.thy ===== *)
theory Data_Pipeline
  imports ResilientDB_Client ResLens_Client
begin

text \<open>
  Model of \<open>pipeline/data-pipeline.ts\<close>: a query is executed against ResilientDB together with a schema
  context that is cached for five minutes, and its execution is recorded with the ResLens client.
  Calls overlap: \<open>processQuery\<close> is split at its awaits, those of \<open>captureMetrics\<close> included, and an event
  continues one call. An event carries the time since the last one and how the endpoint behaves for
  the request answered. The theory shows which calls are recorded and how old the schema of a result is.
\<close>

section \<open>State\<close>

record PipelineData =
  pd_query :: GraphQLQuery
  pd_metrics :: "QueryExecutionMetrics option"
  pd_schemaContext :: SchemaContext
  pd_timestamp :: int

text \<open>
  Where a call waits: for the schema, for the result of the query, for \<open>captureMetrics\<close> after a failure or
  after a success; and how it ends.
\<close>

datatype stage =
    AwaitSchema
  | AwaitResult SchemaContext
  | AwaitCapture "string + SchemaContext \<times> QueryExecutionMetrics"
  | Succeeded PipelineData
  | Threw string

record PipelineCall =
  pc_query :: GraphQLQuery
  pc_captureMetrics :: bool
  pc_queryId :: string
  pc_startTime :: int
  pc_stage :: stage

text \<open>
  The number of requests of \<open>getSchemaContext\<close> calls from outside that are not answered yet is kept
  too. The last field lists the schemas received, with the time, for the statements below.
\<close>

record DataPipeline =
  dp_resLensClient :: ResLensClient
  dp_schemaCache :: "SchemaContext option"
  dp_schemaCacheExpiry :: "int option"
  dp_calls :: "PipelineCall list"
  dp_refreshing :: nat
  dp_now :: int
  dp_received :: "(int \<times> SchemaContext) list"

definition new_DataPipeline :: "string option \<Rightarrow> int \<Rightarrow> DataPipeline" where
  "new_DataPipeline reslensUrl now =
     \<lparr>dp_resLensClient = new_ResLensClient reslensUrl, dp_schemaCache = None, dp_schemaCacheExpiry = None,
      dp_calls = [], dp_refreshing = 0, dp_now = now, dp_received = []\<rparr>"

definition cacheTTL :: int where
  "cacheTTL = 5 * 60 * 1000"


section \<open>Operations\<close>

text \<open>The test of \<open>getSchemaContext\<close>, and the assignments after a new schema.\<close>

definition cached_schema :: "bool \<Rightarrow> DataPipeline \<Rightarrow> SchemaContext option" where
  "cached_schema forceRefresh dp =
     (case dp_schemaCacheExpiry dp of
        None \<Rightarrow> None
      | Some expiry \<Rightarrow> if \<not> forceRefresh \<and> expiry > dp_now dp then dp_schemaCache dp else None)"

definition store_schema :: "SchemaContext \<Rightarrow> DataPipeline \<Rightarrow> DataPipeline" where
  "store_schema sx dp =
     dp\<lparr>dp_schemaCache := Some sx, dp_schemaCacheExpiry := Some (dp_now dp + cacheTTL),
       dp_received := (dp_now dp, sx) # dp_received dp\<rparr>"

definition estimateResultSize :: "json \<Rightarrow> nat" where
  "estimateResultSize result = length (stringify result)"

definition generateQueryId :: "int \<Rightarrow> string \<Rightarrow> string" where
  "generateQueryId now random = ''query_'' @ show_int now @ ''_'' @ random"

text \<open>\<open>processQuery\<close> up to its first await; with a cached schema the query is sent at once.\<close>

definition processQuery :: "GraphQLQuery \<Rightarrow> bool \<Rightarrow> string \<Rightarrow> DataPipeline \<Rightarrow> DataPipeline" where
  "processQuery query capture_metrics random dp =
     dp\<lparr>dp_calls := dp_calls dp @
        [\<lparr>pc_query = query, pc_captureMetrics = capture_metrics, pc_queryId = generateQueryId (dp_now dp) random,
          pc_startTime = dp_now dp,
          pc_stage = (case cached_schema False dp of Some sx \<Rightarrow> AwaitResult sx | None \<Rightarrow> AwaitSchema)\<rparr>]\<rparr>"

definition set_stage :: "nat \<Rightarrow> stage \<Rightarrow> DataPipeline \<Rightarrow> DataPipeline" where
  "set_stage i st dp = dp\<lparr>dp_calls := (dp_calls dp)[i := (dp_calls dp ! i)\<lparr>pc_stage := st\<rparr>]\<rparr>"

text \<open>
  The call of \<open>captureMetrics\<close>, when the call asks for it. It stores the metrics before its first await; what
  follows, the request to the ResLens API if one is configured, changes nothing and never throws.
\<close>

definition record_call :: "PipelineCall \<Rightarrow> bool \<Rightarrow> PartialMetrics \<Rightarrow> DataPipeline \<Rightarrow> QueryExecutionMetrics option \<times> DataPipeline" where
  "record_call c success extra dp =
     (if pc_captureMetrics c
      then (case captureMetrics (dp_resLensClient dp) (dp_now dp) (pc_queryId c) (gq_query (pc_query c))
                   (of_int (dp_now dp - pc_startTime c)) success extra of
              (m, client) \<Rightarrow> (Some m, dp\<lparr>dp_resLensClient := client\<rparr>))
      else (None, dp))"

text \<open>The \<open>catch\<close> block up to its await; without one it throws at once.\<close>

definition fail_call :: "nat \<Rightarrow> string \<Rightarrow> DataPipeline \<Rightarrow> DataPipeline" where
  "fail_call i e dp =
     (case record_call (dp_calls dp ! i) False (no_data\<lparr>pm_error := Some e\<rparr>) dp of
        (Some m, dp') \<Rightarrow> set_stage i (AwaitCapture (Inl e)) dp'
      | (None, dp') \<Rightarrow> set_stage i (Threw e) dp')"

text \<open>The end of a call that succeeds, and the part between the result of the query and it.\<close>

definition return_data :: "nat \<Rightarrow> SchemaContext \<Rightarrow> QueryExecutionMetrics option \<Rightarrow> DataPipeline \<Rightarrow> DataPipeline" where
  "return_data i sx m dp =
     set_stage i (Succeeded \<lparr>pd_query = pc_query (dp_calls dp ! i), pd_metrics = m, pd_schemaContext = sx, pd_timestamp = dp_now dp\<rparr>) dp"

definition finish_call :: "nat \<Rightarrow> SchemaContext \<Rightarrow> json \<Rightarrow> DataPipeline \<Rightarrow> DataPipeline" where
  "finish_call i sx result dp =
     (case record_call (dp_calls dp ! i) True (no_data\<lparr>pm_resultSize := Some (estimateResultSize result)\<rparr>) dp of
        (Some m, dp') \<Rightarrow> set_stage i (AwaitCapture (Inr (sx, m))) dp'
      | (None, dp') \<Rightarrow> return_data i sx None dp')"

text \<open>\<open>captureMetrics\<close> returns to call \<open>i\<close>.\<close>

definition capture_returns :: "nat \<Rightarrow> DataPipeline \<Rightarrow> DataPipeline" where
  "capture_returns i dp =
     (if i < length (dp_calls dp)
      then (case pc_stage (dp_calls dp ! i) of
              AwaitCapture (Inl e) \<Rightarrow> set_stage i (Threw e) dp
            | AwaitCapture (Inr (sx, m)) \<Rightarrow> return_data i sx (Some m) dp
            | _ \<Rightarrow> dp)
      else dp)"

text \<open>The answer to the request that call \<open>i\<close> awaits.\<close>

definition endpoint_answers :: "nat \<Rightarrow> gql_endpoint \<Rightarrow> DataPipeline \<Rightarrow> DataPipeline" where
  "endpoint_answers i endpoint dp =
     (if i < length (dp_calls dp)
      then (case pc_stage (dp_calls dp ! i) of
              AwaitSchema \<Rightarrow>
                (case introspectSchema endpoint of
                   Inl e \<Rightarrow> fail_call i e dp
                 | Inr sx \<Rightarrow> set_stage i (AwaitResult sx) (store_schema sx dp))
            | AwaitResult sx \<Rightarrow>
                (case executeQuery endpoint (pc_query (dp_calls dp ! i)) of
                   Inl e \<Rightarrow> fail_call i e dp
                 | Inr result \<Rightarrow> finish_call i sx result dp)
            | _ \<Rightarrow> dp)
      else dp)"

text \<open>\<open>getSchemaContext\<close> called from outside: it returns the cached schema or sends a request, whose answer comes later.\<close>

definition getSchemaContext :: "bool \<Rightarrow> DataPipeline \<Rightarrow> SchemaContext option \<times> DataPipeline" where
  "getSchemaContext forceRefresh dp =
     (case cached_schema forceRefresh dp of
        Some sx \<Rightarrow> (Some sx, dp)
      | None \<Rightarrow> (None, dp\<lparr>dp_refreshing := dp_refreshing dp + 1\<rparr>))"

definition schema_answers :: "gql_endpoint \<Rightarrow> DataPipeline \<Rightarrow> (string + SchemaContext) option \<times> DataPipeline" where
  "schema_answers endpoint dp =
     (if dp_refreshing dp = 0 then (None, dp)
      else let dp' = dp\<lparr>dp_refreshing := dp_refreshing dp - 1\<rparr>
           in case introspectSchema endpoint of Inl e \<Rightarrow> (Some (Inl e), dp') | Inr sx \<Rightarrow> (Some (Inr sx), store_schema sx dp'))"

text \<open>\<open>getQueryMetrics\<close>, \<open>getQueryStatistics\<close> and \<open>healthCheck\<close>; a check that throws counts as false.\<close>

definition getQueryMetrics :: "DataPipeline \<Rightarrow> QueryExecutionMetrics api_response \<Rightarrow> string \<Rightarrow> QueryExecutionMetrics option" where
  "getQueryMetrics dp resp queryId = getMetrics (dp_resLensClient dp) resp queryId"

definition getQueryStatistics :: "DataPipeline \<Rightarrow> list_body api_response \<Rightarrow> string \<Rightarrow> QueryExecutionMetrics list" where
  "getQueryStatistics dp resp pattern = getQueryStats (dp_resLensClient dp) (dp_now dp) resp pattern"

record PipelineHealth =
  ph_resilientdb :: bool
  ph_reslens :: bool
  ph_liveStats :: bool
  ph_nexus :: bool

definition pipeline_healthCheck :: "DataPipeline \<Rightarrow> unit api_response \<Rightarrow> string + bool \<Rightarrow> string + bool \<Rightarrow> gql_endpoint \<Rightarrow> PipelineHealth" where
  "pipeline_healthCheck dp reslens liveStats nexus endpoint =
     \<lparr>ph_resilientdb = (case introspectSchema endpoint of Inl e \<Rightarrow> False | Inr sx \<Rightarrow> True),
      ph_reslens = reslens_healthCheck (dp_resLensClient dp) reslens,
      ph_liveStats = (case liveStats of Inl e \<Rightarrow> False | Inr b \<Rightarrow> b),
      ph_nexus = (case nexus of Inl e \<Rightarrow> False | Inr b \<Rightarrow> b)\<rparr>"


section \<open>Runs\<close>

datatype pipeline_event =
    ProcessQuery GraphQLQuery bool string
  | EndpointAnswers nat gql_endpoint
  | CaptureReturns nat
  | GetSchemaContext bool
  | SchemaAnswers gql_endpoint

fun pipeline_handle :: "pipeline_event \<Rightarrow> DataPipeline \<Rightarrow> DataPipeline" where
  "pipeline_handle (ProcessQuery q cap random) dp = processQuery q cap random dp"
| "pipeline_handle (EndpointAnswers i endpoint) dp = endpoint_answers i endpoint dp"
| "pipeline_handle (CaptureReturns i) dp = capture_returns i dp"
| "pipeline_handle (GetSchemaContext forceRefresh) dp = snd (getSchemaContext forceRefresh dp)"
| "pipeline_handle (SchemaAnswers endpoint) dp = snd (schema_answers endpoint dp)"

text \<open>An event after a delay.\<close>

definition pipeline_step :: "nat \<times> pipeline_event \<Rightarrow> DataPipeline \<Rightarrow> DataPipeline" where
  "pipeline_step e dp = pipeline_handle (snd e) (dp\<lparr>dp_now := dp_now dp + int (fst e)\<rparr>)"

definition pipeline_run :: "(nat \<times> pipeline_event) list \<Rightarrow> DataPipeline \<Rightarrow> DataPipeline" where
  "pipeline_run es dp = fold pipeline_step es dp"


section \<open>Which calls are recorded\<close>

definition call_ids :: "DataPipeline \<Rightarrow> string list" where
  "call_ids dp = map pc_queryId (dp_calls dp)"

text \<open>
  The outcome of the execution, once it has finished: the error, or the metrics of the result. From
  then on the call only waits for \<open>captureMetrics\<close>, or has ended.
\<close>

fun execution_outcome :: "stage \<Rightarrow> (string + QueryExecutionMetrics option) option" where
  "execution_outcome (AwaitCapture (Inl e)) = Some (Inl e)"
| "execution_outcome (AwaitCapture (Inr (sx, m))) = Some (Inr (Some m))"
| "execution_outcome (Succeeded d) = Some (Inr (pd_metrics d))"
| "execution_outcome (Threw e) = Some (Inl e)"
| "execution_outcome st = None"

text \<open>What the storage holds for a call.\<close>

definition metrics_for :: "PipelineCall \<Rightarrow> QueryExecutionMetrics \<Rightarrow> bool" where
  "metrics_for c m \<longleftrightarrow> m_query m = gq_query (pc_query c) \<and> 0 \<le> m_executionTime m"

definition recorded :: "(string \<times> QueryExecutionMetrics) list \<Rightarrow> PipelineCall \<Rightarrow> bool" where
  "recorded ms c \<longleftrightarrow>
     (case (pc_captureMetrics c, execution_outcome (pc_stage c)) of
        (True, Some (Inr x)) \<Rightarrow> (case map_of ms (pc_queryId c) of None \<Rightarrow> False
            | Some m \<Rightarrow> x = Some m \<and> m_success m \<and> metrics_for c m)
      | (True, Some (Inl e)) \<Rightarrow> (case map_of ms (pc_queryId c) of None \<Rightarrow> False
            | Some m \<Rightarrow> \<not> m_success m \<and> m_error m = Some e \<and> metrics_for c m)
      | (True, None) \<Rightarrow> map_of ms (pc_queryId c) = None
      | (False, _) \<Rightarrow> map_of ms (pc_queryId c) = None)"

definition storage :: "DataPipeline \<Rightarrow> (string \<times> QueryExecutionMetrics) list" where
  "storage dp = rl_metricsStorage (dp_resLensClient dp)"


definition pipeline_inv :: "DataPipeline \<Rightarrow> bool" where
  "pipeline_inv dp \<longleftrightarrow> list_all (recorded (storage dp)) (dp_calls dp) \<and> fst ` set (storage dp) \<subseteq> set (call_ids dp)
     \<and> list_all (\<lambda>c. pc_startTime c \<le> dp_now dp) (dp_calls dp)"

text \<open>What \<open>record_call\<close> changes, for additional data that only has an error or a size.\<close>

lemma record_call_cases:
  assumes "pm_query extra = None" "pm_success extra = None" "pm_executionTime extra = None" "pc_startTime c \<le> dp_now dp"
  obtains "\<not> pc_captureMetrics c" "record_call c ok extra dp = (None, dp)"
  | m client where "pc_captureMetrics c" "record_call c ok extra dp = (Some m, dp\<lparr>dp_resLensClient := client\<rparr>)"
      "rl_metricsStorage client = AList.update (pc_queryId c) m (storage dp)"
      "m_success m = ok" "m_error m = pm_error extra" "metrics_for c m"
proof (cases "pc_captureMetrics c")
  case True
  let ?r = "captureMetrics (dp_resLensClient dp) (dp_now dp) (pc_queryId c) (gq_query (pc_query c)) (of_int (dp_now dp - pc_startTime c)) ok extra"
  show ?thesis
    by (rule that(2) [OF True, of "fst ?r" "snd ?r"])
       (use assms in \<open>simp_all add: record_call_def True case_prod_beta captureMetrics_def storage_def or_default_def Let_def metrics_for_def\<close>)
qed (use that in \<open>simp add: record_call_def\<close>)

lemma recorded_update_other: "pc_queryId c \<noteq> k \<Longrightarrow> recorded (AList.update k m ms) c \<longleftrightarrow> recorded ms c"
proof -
  assume "pc_queryId c \<noteq> k"
  then have eq: "map_of (AList.update k m ms) (pc_queryId c) = map_of ms (pc_queryId c)" by (simp add: update_conv')
  show ?thesis unfolding recorded_def eq ..
qed

text \<open>One call goes on: its metrics may be stored under its id, and the other calls keep theirs.\<close>

lemma inv_end_call:
  assumes inv: "pipeline_inv dp" and dist: "distinct (call_ids dp)" and i: "i < length (dp_calls dp)"
    and dp': "dp_calls dp' = (dp_calls dp)[i := (dp_calls dp ! i)\<lparr>pc_stage := st\<rparr>]" "dp_now dp' = dp_now dp"
    and ms: "storage dp' = AList.update (pc_queryId (dp_calls dp ! i)) m (storage dp) \<or> storage dp' = storage dp"
    and rec: "recorded (storage dp') ((dp_calls dp ! i)\<lparr>pc_stage := st\<rparr>)"
  shows "pipeline_inv dp'"
proof -
  have ids: "call_ids dp' = call_ids dp"
    by (simp add: call_ids_def dp' map_update list_update_same_conv i)
  have "recorded (storage dp') (dp_calls dp' ! j)" if "j < length (dp_calls dp)" for j
  proof (cases "j = i")
    case True
    with rec dp' i show ?thesis by simp
  next
    case False
    then have "pc_queryId (dp_calls dp ! j) \<noteq> pc_queryId (dp_calls dp ! i)"
      using dist that i by (simp add: call_ids_def distinct_conv_nth)
    moreover have "recorded (storage dp) (dp_calls dp ! j)" using inv that by (simp add: pipeline_inv_def list_all_length)
    ultimately show ?thesis using ms False dp' by (auto simp: recorded_update_other)
  qed
  moreover have "fst ` set (storage dp') \<subseteq> set (call_ids dp')"
  proof -
    have "insert (pc_queryId (dp_calls dp ! i)) (fst ` set (storage dp)) \<subseteq> set (call_ids dp)"
      using inv i by (simp add: call_ids_def pipeline_inv_def)
    moreover have "fst ` set (storage dp') \<subseteq> insert (pc_queryId (dp_calls dp ! i)) (fst ` set (storage dp))"
    proof (cases "storage dp' = storage dp")
      case False
      with ms have "storage dp' = AList.update (pc_queryId (dp_calls dp ! i)) m (storage dp)" by simp
      then show ?thesis by (simp add: dom_update)
    qed auto
    ultimately show ?thesis unfolding ids by (rule order_trans [rotated])
  qed
  moreover have "list_all (\<lambda>c. pc_startTime c \<le> dp_now dp') (dp_calls dp')"
    using inv i unfolding dp' pipeline_inv_def list_all_length by (simp add: nth_list_update)
  ultimately show ?thesis by (simp add: pipeline_inv_def list_all_length dp')
qed


lemma set_stage_simps [simp]:
  "dp_calls (set_stage i st dp) = (dp_calls dp)[i := (dp_calls dp ! i)\<lparr>pc_stage := st\<rparr>]"
  "dp_now (set_stage i st dp) = dp_now dp" "storage (set_stage i st dp) = storage dp"
  by (simp_all add: set_stage_def storage_def)

lemma storage_update [simp]: "storage (dp\<lparr>dp_resLensClient := c\<rparr>) = rl_metricsStorage c" "storage (dp\<lparr>dp_refreshing := n\<rparr>) = storage dp"
  by (simp_all add: storage_def)

lemma unrecorded: "recorded ms c \<Longrightarrow> execution_outcome (pc_stage c) = None \<Longrightarrow> map_of ms (pc_queryId c) = None"
  by (cases "pc_captureMetrics c") (auto simp: recorded_def)

lemma recorded_same_outcome:
  "recorded ms c \<Longrightarrow> execution_outcome st = execution_outcome (pc_stage c) \<Longrightarrow> recorded ms (c\<lparr>pc_stage := st\<rparr>)"
  by (cases "pc_captureMetrics c"; cases "execution_outcome (pc_stage c)")
     (auto simp: recorded_def metrics_for_def split: sum.splits option.splits)

lemma recorded_new:
  assumes "pc_captureMetrics c" "m_success m = ok" "metrics_for c m" "execution_outcome st = Some (if ok then Inr (Some m) else Inl e)" "ok \<or> m_error m = Some e"
  shows "recorded (AList.update (pc_queryId c) m ms) (c\<lparr>pc_stage := st\<rparr>)"
  using assms by (cases ok) (simp_all add: recorded_def update_conv' metrics_for_def)

lemma recorded_not_captured: "\<not> pc_captureMetrics c \<Longrightarrow> map_of ms (pc_queryId c) = None \<Longrightarrow> recorded ms (c\<lparr>pc_stage := st\<rparr>)"
  by (simp add: recorded_def)

lemma inv_fail_call:
  assumes inv: "pipeline_inv dp" and dist: "distinct (call_ids dp)" and i: "i < length (dp_calls dp)"
    and st: "execution_outcome (pc_stage (dp_calls dp ! i)) = None"
  shows "pipeline_inv (fail_call i e dp)"
proof -
  let ?c = "dp_calls dp ! i"
  have t: "pc_startTime ?c \<le> dp_now dp" and r: "recorded (storage dp) ?c"
    using inv i by (simp_all add: pipeline_inv_def list_all_length)
  define extra where "extra = no_data\<lparr>pm_error := Some e\<rparr>"
  have x: "pm_query extra = None" "pm_success extra = None" "pm_executionTime extra = None" "pm_error extra = Some e"
    by (simp_all add: extra_def no_data_def)
  show ?thesis
  proof (cases rule: record_call_cases [OF x(1-3) t, of False])
    case 1
    then show ?thesis using recorded_not_captured unrecorded [OF r st]
      by (intro inv_end_call [OF inv dist i, of _ "Threw e"]) (simp_all add: fail_call_def extra_def [symmetric])
  next
    case (2 m client)
    have "recorded (AList.update (pc_queryId ?c) m (storage dp)) (?c\<lparr>pc_stage := AwaitCapture (Inl e)\<rparr>)"
      by (rule recorded_new [where ok = False and e = e]) (use 2 x(4) in simp_all)
    with 2 show ?thesis
      by (intro inv_end_call [OF inv dist i, of _ "AwaitCapture (Inl e)" m]) (simp_all add: fail_call_def extra_def [symmetric])
  qed
qed

lemma inv_finish_call:
  assumes inv: "pipeline_inv dp" and dist: "distinct (call_ids dp)" and i: "i < length (dp_calls dp)"
    and st: "execution_outcome (pc_stage (dp_calls dp ! i)) = None"
  shows "pipeline_inv (finish_call i sx r dp)"
proof -
  let ?c = "dp_calls dp ! i"
  have t: "pc_startTime ?c \<le> dp_now dp" and rc: "recorded (storage dp) ?c"
    using inv i by (simp_all add: pipeline_inv_def list_all_length)
  define extra where "extra = no_data\<lparr>pm_resultSize := Some (estimateResultSize r)\<rparr>"
  have x: "pm_query extra = None" "pm_success extra = None" "pm_executionTime extra = None"
    by (simp_all add: extra_def no_data_def)
  show ?thesis
  proof (cases rule: record_call_cases [OF x t, of True])
    case 1
    then show ?thesis using recorded_not_captured unrecorded [OF rc st]
      by (intro inv_end_call [OF inv dist i]) (simp_all add: finish_call_def return_data_def extra_def [symmetric])
  next
    case (2 m client)
    have "recorded (AList.update (pc_queryId ?c) m (storage dp)) (?c\<lparr>pc_stage := AwaitCapture (Inr (sx, m))\<rparr>)"
      by (rule recorded_new [where ok = True]) (use 2 in simp_all)
    with 2 show ?thesis
      by (intro inv_end_call [OF inv dist i, of _ "AwaitCapture (Inr (sx, m))" m]) (simp_all add: finish_call_def extra_def [symmetric])
  qed
qed

text \<open>A call that goes on without a change of its outcome.\<close>

lemma inv_same_outcome:
  assumes inv: "pipeline_inv dp" and dist: "distinct (call_ids dp)" and i: "i < length (dp_calls dp)"
    and "execution_outcome st = execution_outcome (pc_stage (dp_calls dp ! i))"
    and "storage dp' = storage dp" "dp_calls dp' = dp_calls dp" "dp_now dp' = dp_now dp"
  shows "pipeline_inv (set_stage i st dp')"
proof -
  have "recorded (storage dp) (dp_calls dp ! i)" using inv i by (simp add: pipeline_inv_def list_all_length)
  then show ?thesis using assms(4-) recorded_same_outcome by (intro inv_end_call [OF inv dist i, of _ st]) simp_all
qed

lemma inv_capture_returns:
  assumes "pipeline_inv dp" "distinct (call_ids dp)"
  shows "pipeline_inv (capture_returns i dp)"
  using assms
  by (auto simp: capture_returns_def return_data_def intro!: inv_same_outcome split: stage.split sum.split)

lemma inv_keeps_storage:
  assumes "pipeline_inv dp" "storage dp' = storage dp" "dp_now dp \<le> dp_now dp'" "dp_calls dp' = dp_calls dp"
  shows "pipeline_inv dp'"
  using assms by (auto simp: pipeline_inv_def call_ids_def list_all_iff)

lemma store_schema_simps [simp]:
  "storage (store_schema sx dp) = storage dp" "dp_calls (store_schema sx dp) = dp_calls dp" "dp_now (store_schema sx dp) = dp_now dp"
  by (simp_all add: store_schema_def storage_def)

lemma inv_answers:
  assumes inv: "pipeline_inv dp" and dist: "distinct (call_ids dp)"
  shows "pipeline_inv (endpoint_answers i endpoint dp)"
proof (cases "i < length (dp_calls dp)")
  case i: True
  show ?thesis
  proof (cases "pc_stage (dp_calls dp ! i)")
    case AwaitSchema
    then have "pipeline_inv (set_stage i (AwaitResult sx) (store_schema sx dp))" for sx
      by (intro inv_same_outcome [OF inv dist i]) simp_all
    with AwaitSchema i inv_fail_call [OF inv dist i] show ?thesis
      by (simp add: endpoint_answers_def split: sum.splits)
  next
    case (AwaitResult sx)
    with i inv_fail_call [OF inv dist i] inv_finish_call [OF inv dist i] show ?thesis
      by (simp add: endpoint_answers_def split: sum.splits)
  qed (use inv i in \<open>simp_all add: endpoint_answers_def\<close>)
qed (use inv in \<open>simp add: endpoint_answers_def\<close>)

lemma pipeline_inv_handle:
  assumes inv: "pipeline_inv dp" and dist: "distinct (call_ids (pipeline_handle e dp))" "distinct (call_ids dp)"
  shows "pipeline_inv (pipeline_handle e dp)"
proof (cases e)
  case (ProcessQuery q cap random)
  let ?id = "generateQueryId (dp_now dp) random"
  have "?id \<notin> set (call_ids dp)" using dist ProcessQuery by (simp add: processQuery_def call_ids_def)
  then have "map_of (storage dp) ?id = None" using inv by (auto simp: pipeline_inv_def map_of_eq_None_iff)
  with inv ProcessQuery show ?thesis
    by (auto simp: pipeline_inv_def processQuery_def call_ids_def storage_def recorded_def split: option.splits bool.splits)
next
  case (GetSchemaContext f)
  with inv show ?thesis
    by (auto simp: getSchemaContext_def intro: inv_keeps_storage [OF inv] split: option.splits)
next
  case (SchemaAnswers endpoint)
  with inv show ?thesis
    by (auto simp: schema_answers_def Let_def intro: inv_keeps_storage [OF inv] split: sum.splits)
qed (use inv dist in \<open>simp_all add: inv_answers inv_capture_returns\<close>)

lemma call_ids_handle: "\<exists>new. call_ids (pipeline_handle e dp) = call_ids dp @ new"
proof -
  have *: "call_ids (set_stage i st dp') = call_ids dp" if "dp_calls dp' = dp_calls dp" "i < length (dp_calls dp)" for i st dp'
    using that by (simp add: call_ids_def map_update list_update_same_conv)
  have "dp_calls dp' = dp_calls dp" if "record_call c ok x dp = (m, dp')" for c ok x m dp'
    using that by (auto simp: record_call_def split: prod.splits if_splits)
  then have "call_ids (endpoint_answers i endpoint dp) = call_ids dp" for i endpoint
    by (auto simp: endpoint_answers_def fail_call_def finish_call_def return_data_def intro!: * split: stage.split sum.split prod.split option.split)
  moreover have "call_ids (capture_returns i dp) = call_ids dp" for i
    by (auto simp: capture_returns_def return_data_def intro!: * split: stage.split sum.split)
  ultimately show ?thesis
    by (cases e) (auto simp: processQuery_def call_ids_def getSchemaContext_def schema_answers_def Let_def split: option.splits sum.splits)
qed

lemma inv_step:
  assumes "pipeline_inv dp" "distinct (call_ids (pipeline_step e dp))"
  shows "pipeline_inv (pipeline_step e dp)"
proof -
  let ?dp = "dp\<lparr>dp_now := dp_now dp + int (fst e)\<rparr>"
  have "pipeline_inv ?dp" by (rule inv_keeps_storage [OF assms(1)]) (simp_all add: storage_def)
  moreover have "distinct (call_ids ?dp)"
    using assms(2) call_ids_handle [of "snd e" ?dp] unfolding pipeline_step_def by (metis distinct_append)
  ultimately show ?thesis using assms(2) unfolding pipeline_step_def by (intro pipeline_inv_handle)
qed

lemma pipeline_inv_run:
  assumes "pipeline_inv dp" "distinct (call_ids (pipeline_run es dp))"
  shows "pipeline_inv (pipeline_run es dp)"
  using assms(2)
proof (induction es rule: rev_induct)
  case (snoc e es)
  have step: "pipeline_run (es @ [e]) dp = pipeline_step e (pipeline_run es dp)" by (simp add: pipeline_run_def)
  have ids: "call_ids (dp\<lparr>dp_now := n\<rparr>) = call_ids dp" for n dp by (simp add: call_ids_def)
  have "distinct (call_ids (pipeline_run es dp))"
    using snoc.prems call_ids_handle unfolding step pipeline_step_def by (metis distinct_append ids)
  with snoc show ?case unfolding step by (intro inv_step)
qed (use assms(1) in \<open>simp add: pipeline_run_def\<close>)

text \<open>
  C13. Whatever the order of calls and answers, as long as the generated ids differ: a call that asked for
  metrics (\<open>captureMetrics\<close>) is recorded under its id exactly when the execution of its query has
  finished, be it that it still waits for \<open>captureMetrics\<close> or has ended. The record has its query, its
  success or its error and a duration that is not negative, and is the one that the call returns.
  A call that did not ask is not recorded, and nothing else is.
\<close>

theorem calls_recorded_once:
  assumes "distinct (call_ids (pipeline_run es (new_DataPipeline url now)))"
  shows "list_all (recorded (storage (pipeline_run es (new_DataPipeline url now)))) (dp_calls (pipeline_run es (new_DataPipeline url now)))
    \<and> fst ` set (storage (pipeline_run es (new_DataPipeline url now))) \<subseteq> set (call_ids (pipeline_run es (new_DataPipeline url now)))"
proof -
  have "pipeline_inv (pipeline_run es (new_DataPipeline url now))"
    by (rule pipeline_inv_run [OF _ assms]) (simp add: pipeline_inv_def new_DataPipeline_def storage_def new_ResLensClient_def)
  then show ?thesis by (simp add: pipeline_inv_def)
qed


definition test_query :: GraphQLQuery where
  "test_query = \<lparr>gq_query = ''{ a }'', gq_variables = None, gq_operationName = None\<rparr>"

definition test_events :: "(nat \<times> pipeline_event) list" where
  "test_events = [(0, ProcessQuery test_query True ''aaa''), (5, ProcessQuery test_query True ''bbb''), (3, EndpointAnswers 1 sample_endpoint),
       (2, EndpointAnswers 1 (\<lambda>r. Inl ''down'')), (0, EndpointAnswers 0 sample_endpoint), (1, CaptureReturns 1), (7, EndpointAnswers 0 sample_endpoint)]"

theorem calls_recorded_once_witness:
  "list_all (recorded (storage (pipeline_run test_events (new_DataPipeline None 1000)))) (dp_calls (pipeline_run test_events (new_DataPipeline None 1000)))
   \<and> map (execution_outcome \<circ> pc_stage) (dp_calls (pipeline_run test_events (new_DataPipeline None 1000))) ! 1
       = Some (Inl ''Failed to execute GraphQL query: down'')"
proof -
  have "distinct (call_ids (pipeline_run test_events (new_DataPipeline None 1000)))" by code_simp
  from calls_recorded_once [OF this] show ?thesis
  proof (intro conjI)
    show "map (execution_outcome \<circ> pc_stage) (dp_calls (pipeline_run test_events (new_DataPipeline None 1000))) ! 1
       = Some (Inl ''Failed to execute GraphQL query: down'')" by code_simp
  qed blast
qed


section \<open>The age of a schema\<close>

fun call_schema :: "stage \<Rightarrow> SchemaContext option" where
  "call_schema (AwaitResult sx) = Some sx"
| "call_schema (AwaitCapture (Inr (sx, m))) = Some sx"
| "call_schema (Succeeded d) = Some (pd_schemaContext d)"
| "call_schema st = None"

text \<open>The schema of a call, and the cached one, were received, and not too long before.\<close>

definition schema_ok :: "(int \<times> SchemaContext) list \<Rightarrow> PipelineCall \<Rightarrow> bool" where
  "schema_ok rcv c \<longleftrightarrow> (case call_schema (pc_stage c) of None \<Rightarrow> True
     | Some sx \<Rightarrow> list_ex (\<lambda>(f, sx'). sx' = sx \<and> pc_startTime c - cacheTTL < f) rcv)"

fun cache_ok :: "(int \<times> SchemaContext) list \<Rightarrow> SchemaContext option \<Rightarrow> int option \<Rightarrow> bool" where
  "cache_ok rcv (Some sx) (Some x) \<longleftrightarrow> (x - cacheTTL, sx) \<in> set rcv"
| "cache_ok rcv c x \<longleftrightarrow> True"

definition schema_inv :: "DataPipeline \<Rightarrow> bool" where
  "schema_inv dp \<longleftrightarrow> list_all (\<lambda>c. pc_startTime c \<le> dp_now dp \<and> schema_ok (dp_received dp) c) (dp_calls dp)
     \<and> cache_ok (dp_received dp) (dp_schemaCache dp) (dp_schemaCacheExpiry dp)"

lemma schema_ok_more: "schema_ok rcv c \<Longrightarrow> schema_ok (r # rcv) c"
  by (auto simp: schema_ok_def split: option.splits)

lemma schema_inv_step:
  assumes "schema_inv dp" "i < length (dp_calls dp)" "dp_now dp' = dp_now dp" "dp_received dp' = dp_received dp"
    "dp_schemaCache dp' = dp_schemaCache dp" "dp_schemaCacheExpiry dp' = dp_schemaCacheExpiry dp"
    "dp_calls dp' = (dp_calls dp)[i := (dp_calls dp ! i)\<lparr>pc_stage := st\<rparr>]"
    "schema_ok (dp_received dp) ((dp_calls dp ! i)\<lparr>pc_stage := st\<rparr>)"
  shows "schema_inv dp'"
  using assms unfolding schema_inv_def list_all_length by (simp add: nth_list_update)

lemma schema_inv_store: "schema_inv dp \<Longrightarrow> schema_inv (store_schema sx dp)"
  by (auto simp: schema_inv_def store_schema_def list_all_iff intro: schema_ok_more)

lemma record_call_keeps:
  assumes "record_call c ok x dp = (m, dp')"
  shows "dp_now dp' = dp_now dp" "dp_received dp' = dp_received dp" "dp_schemaCache dp' = dp_schemaCache dp" "dp_calls dp' = dp_calls dp"
    "dp_schemaCacheExpiry dp' = dp_schemaCacheExpiry dp"
  using assms by (auto simp: record_call_def split: prod.splits if_splits)

lemma set_stage_keeps [simp]:
  "dp_received (set_stage i st dp) = dp_received dp" "dp_schemaCache (set_stage i st dp) = dp_schemaCache dp"
  "dp_schemaCacheExpiry (set_stage i st dp) = dp_schemaCacheExpiry dp"
  by (simp_all add: set_stage_def)

text \<open>A call goes on without a schema or with the one it has.\<close>

lemma schema_inv_stage:
  assumes inv: "schema_inv dp" and i: "i < length (dp_calls dp)" and st: "call_schema st \<in> {None, call_schema (pc_stage (dp_calls dp ! i))}"
    and same: "dp_now dp' = dp_now dp" "dp_received dp' = dp_received dp" "dp_schemaCache dp' = dp_schemaCache dp" "dp_calls dp' = dp_calls dp"
      "dp_schemaCacheExpiry dp' = dp_schemaCacheExpiry dp"
  shows "schema_inv (set_stage i st dp')"
proof -
  have "schema_ok (dp_received dp) (dp_calls dp ! i)" using inv i by (simp add: schema_inv_def list_all_length)
  then have "schema_ok (dp_received dp) ((dp_calls dp ! i)\<lparr>pc_stage := st\<rparr>)" using st by (auto simp: schema_ok_def split: option.splits)
  then show ?thesis using same by (intro schema_inv_step [OF inv i, of _ st]) simp_all
qed

lemma schema_inv_fail: "schema_inv dp \<Longrightarrow> i < length (dp_calls dp) \<Longrightarrow> schema_inv (fail_call i e dp)"
  by (auto simp: fail_call_def intro!: schema_inv_stage split: prod.split option.split dest: record_call_keeps)

lemma schema_inv_finish:
  "schema_inv dp \<Longrightarrow> i < length (dp_calls dp) \<Longrightarrow> pc_stage (dp_calls dp ! i) = AwaitResult sx \<Longrightarrow> schema_inv (finish_call i sx r dp)"
  by (auto simp: finish_call_def return_data_def intro!: schema_inv_stage split: prod.split option.split dest: record_call_keeps)

lemma schema_inv_returns: "schema_inv dp \<Longrightarrow> schema_inv (capture_returns i dp)"
  by (auto simp: capture_returns_def return_data_def intro!: schema_inv_stage split: stage.split sum.split)

lemma schema_inv_answer:
  assumes inv: "schema_inv dp"
  shows "schema_inv (endpoint_answers i endpoint dp)"
proof (cases "i < length (dp_calls dp)")
  case i: True
  have c: "pc_startTime (dp_calls dp ! i) \<le> dp_now dp" using inv i by (simp add: schema_inv_def list_all_length)
  have "schema_inv (set_stage i (AwaitResult sx) (store_schema sx dp))" for sx
  proof (rule schema_inv_step [OF schema_inv_store [OF inv]])
    show "schema_ok (dp_received (store_schema sx dp)) ((dp_calls (store_schema sx dp) ! i)\<lparr>pc_stage := AwaitResult sx\<rparr>)"
      using c by (simp add: schema_ok_def store_schema_def cacheTTL_def)
  qed (simp_all add: i)
  then show ?thesis using inv i by (auto simp: endpoint_answers_def schema_inv_fail schema_inv_finish split: stage.split sum.split)
qed (use inv in \<open>simp add: endpoint_answers_def\<close>)

lemma schema_inv_outside: "schema_inv dp \<Longrightarrow> schema_inv (dp\<lparr>dp_refreshing := n\<rparr>)"
  by (simp add: schema_inv_def)

lemma schema_inv_process:
  assumes inv: "schema_inv dp"
  shows "schema_inv (processQuery q cap random dp)"
proof -
  have "list_ex (\<lambda>(f, sx'). sx' = sx \<and> dp_now dp - cacheTTL < f) (dp_received dp)" if "cached_schema False dp = Some sx" for sx
    using that inv by (force simp: cached_schema_def schema_inv_def list_ex_iff split: option.splits if_splits)
  with inv show ?thesis by (auto simp: schema_inv_def processQuery_def schema_ok_def split: option.split)
qed

lemma schema_inv_run:
  assumes "schema_inv dp"
  shows "schema_inv (pipeline_run es dp)"
  using assms unfolding pipeline_run_def
proof (induction es arbitrary: dp)
  case (Cons e es)
  let ?dp = "dp\<lparr>dp_now := dp_now dp + int (fst e)\<rparr>"
  have "schema_inv ?dp" using Cons.prems by (auto simp: schema_inv_def list_all_iff)
  then have "schema_inv (pipeline_step e dp)" unfolding pipeline_step_def
    by (cases "snd e") (auto simp: schema_inv_answer schema_inv_process schema_inv_returns schema_inv_store schema_inv_outside getSchemaContext_def
        schema_answers_def Let_def split: option.split sum.split)
  with Cons show ?case by simp
qed simp

text \<open>C36. The schema that a call uses was received less than five minutes before the call began, or later.\<close>

theorem schema_recent:
  assumes "c \<in> set (dp_calls (pipeline_run es (new_DataPipeline url now)))" "call_schema (pc_stage c) = Some sx"
  shows "\<exists>f. (f, sx) \<in> set (dp_received (pipeline_run es (new_DataPipeline url now))) \<and> pc_startTime c - 300000 < f"
proof -
  have "schema_inv (pipeline_run es (new_DataPipeline url now))"
    by (rule schema_inv_run) (simp add: schema_inv_def new_DataPipeline_def)
  then have "schema_ok (dp_received (pipeline_run es (new_DataPipeline url now))) c"
    using assms(1) by (auto simp: schema_inv_def list_all_iff)
  with assms(2) show ?thesis by (auto simp: schema_ok_def list_ex_iff cacheTTL_def)
qed


theorem schema_recent_witness:
  "\<exists>f sx. (f, sx) \<in> set (dp_received (pipeline_run
      [(0, ProcessQuery test_query True ''aaa''), (3, EndpointAnswers 0 sample_endpoint), (20, ProcessQuery test_query False ''bbb'')]
      (new_DataPipeline None 1000))) \<and> 1023 - 300000 < f"
proof -
  let ?dp = "pipeline_run
      [(0, ProcessQuery test_query True ''aaa''), (3, EndpointAnswers 0 sample_endpoint), (20, ProcessQuery test_query False ''bbb'')]
      (new_DataPipeline None 1000)"
  have l: "length (dp_calls ?dp) = 2" by code_simp
  have 1: "pc_startTime (dp_calls ?dp ! 1) = 1023" by code_simp
  have "call_schema (pc_stage (dp_calls ?dp ! 1)) \<noteq> None" by code_simp
  then obtain sx where "call_schema (pc_stage (dp_calls ?dp ! 1)) = Some sx" by blast
  from schema_recent [OF nth_mem this] l 1 show ?thesis by auto
qed

end
