(* ===== verification/JS_Date.thy ===== *)
theory JS_Date
  imports Json_Parse
begin

text \<open>
  Numbers read from text and the calendar of the \<open>Date\<close> class: \<open>parseInt\<close>, \<open>parseFloat\<close>, \<open>Date.UTC\<close> and
  the components of a time in UTC, defined by the formulas of the language's specification. The
  calendar lemmas show that a date made from the components of a day is that day.
\<close>

section \<open>Numbers in texts\<close>

text \<open>\<open>parseInt(s, 10)\<close>: white space and a sign are skipped, then the digits count up to the first other character; None is \<open>NaN\<close>.\<close>

definition parseInt10 :: "string \<Rightarrow> int option" where
  "parseInt10 s =
     (let t = dropWhile is_ws s; neg = startsWith t ''-'';
          u = (if neg \<or> startsWith t ''+'' then tl t else t); ds = takeWhile is_digit u
      in if ds = [] then None else Some (if neg then - int (digits_value ds) else int (digits_value ds)))"

text \<open>\<open>parseFloat\<close> on digits and dots; None is \<open>NaN\<close>.\<close>

definition parse_float :: "string \<Rightarrow> rat option" where
  "parse_float s =
     (let a = takeWhile is_digit s; r = drop (length a) s;
          b = (if startsWith r ''.'' then takeWhile is_digit (tl r) else [])
      in if a = [] \<and> b = [] then None
         else Some (of_nat (digits_value (a @ b)) / 10 ^ length b))"

definition pad :: "nat \<Rightarrow> int \<Rightarrow> string" where
  "pad k i = pad_zeros k (show_nat (nat i))"


section \<open>The calendar\<close>

definition day_from_year :: "int \<Rightarrow> int" where
  "day_from_year y = 365 * (y - 1970) + (y - 1969) div 4 - (y - 1901) div 100 + (y - 1601) div 400"

definition is_leap :: "int \<Rightarrow> bool" where
  "is_leap y \<longleftrightarrow> 4 dvd y \<and> (\<not> 100 dvd y \<or> 400 dvd y)"

text \<open>The days of a year before a month, from 0 for January.\<close>

definition month_start :: "bool \<Rightarrow> int \<Rightarrow> int" where
  "month_start leap m = [0, 31, 59, 90, 120, 151, 181, 212, 243, 273, 304, 334] ! nat m + (if leap \<and> 2 \<le> m then 1 else 0)"

definition month_of :: "bool \<Rightarrow> int \<Rightarrow> int" where
  "month_of leap doy =
     (let l = (if leap then 1 else 0)
      in if doy < 31 then 0 else if doy < 59 + l then 1 else if doy < 90 + l then 2 else if doy < 120 + l then 3
         else if doy < 151 + l then 4 else if doy < 181 + l then 5 else if doy < 212 + l then 6 else if doy < 243 + l then 7
         else if doy < 273 + l then 8 else if doy < 304 + l then 9 else if doy < 334 + l then 10 else 11)"

text \<open>The year of a day: an estimate by the mean length of a year, which is at most one year off.\<close>

definition year_from_day :: "int \<Rightarrow> int" where
  "year_from_day d =
     (let y = 1970 + 400 * d div 146097
      in if d < day_from_year y then y - 1 else if day_from_year (y + 1) \<le> d then y + 1 else y)"

text \<open>The date of a day counted from 1970-01-01: year, month from 1, day of the month.\<close>

definition civil :: "int \<Rightarrow> int \<times> int \<times> int" where
  "civil d =
     (let y = year_from_day d; doy = d - day_from_year y; m = month_of (is_leap y) doy
      in (y, m + 1, doy - month_start (is_leap y) m + 1))"

definition make_day :: "int \<Rightarrow> int \<Rightarrow> int \<Rightarrow> int" where
  "make_day y m dt =
     (let ym = y + m div 12; mn = m mod 12 in day_from_year ym + month_start (is_leap ym) mn + dt - 1)"

text \<open>The range of a time value; outside of it a date is invalid.\<close>

definition time_clip :: "int \<Rightarrow> int option" where
  "time_clip t = (if \<bar>t\<bar> \<le> 8640000000000000 then Some t else None)"

definition date_utc :: "int \<Rightarrow> int \<Rightarrow> int \<Rightarrow> int \<Rightarrow> int \<Rightarrow> int \<Rightarrow> int option" where
  "date_utc y m dt h mi s =
     time_clip (make_day (if 0 \<le> y \<and> y \<le> 99 then 1900 + y else y) m dt * 86400000 + h * 3600000 + mi * 60000 + s * 1000)"

definition toISOString :: "int \<Rightarrow> string" where
  "toISOString t =
     (let day = t div 86400000; ms = t mod 86400000; (y, m, d) = civil day
      in (if 0 \<le> y \<and> y \<le> 9999 then pad 4 y else if y < 0 then ''-'' @ pad 6 (- y) else ''+'' @ pad 6 y)
         @ ''-'' @ pad 2 m @ ''-'' @ pad 2 d
         @ ''T'' @ pad 2 (ms div 3600000) @ '':'' @ pad 2 (ms div 60000 mod 60) @ '':'' @ pad 2 (ms div 1000 mod 60)
         @ ''.'' @ pad 3 (ms mod 1000) @ ''Z'')"


section \<open>Lemmas on the calendar\<close>

lemma div_step: "0 < k \<Longrightarrow> (x + 1) div k = x div k + (if k dvd x + 1 then 1 else 0)" for x k :: int
proof -
  assume k: "0 < k"
  let ?q = "x div k" and ?r = "x mod k"
  have x: "x = k * ?q + ?r" and r: "0 \<le> ?r" "?r < k" using k by simp_all
  show ?thesis
  proof (cases "?r = k - 1")
    case True
    then have e: "x + 1 = k * (?q + 1)" by (subst x) (simp add: distrib_left)
    then show ?thesis using k by simp
  next
    case False
    then have r1: "0 \<le> ?r + 1" "?r + 1 < k" using r by simp_all
    have e: "x + 1 = k * ?q + (?r + 1)" by (subst x) simp
    have "(x + 1) div k = ?q" "(x + 1) mod k = ?r + 1"
      by (rule int_div_pos_eq [OF e r1], rule int_mod_pos_eq [OF e r1])
    then show ?thesis using r by (simp add: dvd_eq_mod_eq_0)
  qed
qed

lemma div_step_at: "0 < k \<Longrightarrow> k dvd c \<Longrightarrow> (y + 1 - (c + 1)) div k = (y - (c + 1)) div k + (if k dvd y then 1 else 0)"
  for y k c :: int
  using div_step [of k "y - (c + 1)"] dvd_diff_left_iff [of k c y] by simp

lemma day_from_year_Suc: "day_from_year (y + 1) = day_from_year y + (if is_leap y then 366 else 365)"
proof -
  have 1: "(y + 1 - 1969) div 4 = (y - 1969) div 4 + (if 4 dvd y then 1 else 0)" using div_step_at [of 4 1968 y] by simp
  have 2: "(y + 1 - 1901) div 100 = (y - 1901) div 100 + (if 100 dvd y then 1 else 0)" using div_step_at [of 100 1900 y] by simp
  have 3: "(y + 1 - 1601) div 400 = (y - 1601) div 400 + (if 400 dvd y then 1 else 0)" using div_step_at [of 400 1600 y] by simp
  have d: "4 dvd y \<or> \<not> 100 dvd y" "100 dvd y \<or> \<not> 400 dvd y"
    using dvd_trans [of 4 100 y] dvd_trans [of 100 400 y] by auto
  define a b c where "a = (4 dvd y)" and "b = (100 dvd y)" and "c = (400 dvd y)"
  show ?thesis using d unfolding day_from_year_def is_leap_def 1 2 3 a_def [symmetric] b_def [symmetric] c_def [symmetric]
    by (cases a; cases b; cases c) simp_all
qed

lemma year_from_day_bounds: "day_from_year (year_from_day d) \<le> d" "d < day_from_year (year_from_day d + 1)"
proof -
  define e where "e = 400 * d div 146097"
  have e: "146097 * e \<le> 400 * d" "400 * d < 146097 * e + 146097"
    using mult_div_mod_eq [of 146097 "400 * d"] pos_mod_sign [of 146097 "400 * d"] pos_mod_bound [of 146097 "400 * d"]
    unfolding e_def by simp_all
  have parts: "400 * day_from_year (1970 + x) = 146000 * x + 400 * ((x + 1) div 4) - 400 * ((x + 69) div 100) + 400 * ((x + 369) div 400)" for x
    by (simp add: day_from_year_def algebra_simps)
  have near: "x - k + 1 \<le> k * (x div k)" "k * (x div k) \<le> x" if "0 < k" for x k :: int
    using mult_div_mod_eq [of k x] pos_mod_sign [of k x] pos_mod_bound [of k x] that by linarith+
  have lo: "146097 * x - 1000 \<le> 400 * day_from_year (1970 + x)" for x
    unfolding parts using near [of 4 "x + 1"] near [of 100 "x + 69"] near [of 400 "x + 369"] by simp
  have hi: "400 * day_from_year (1970 + x) \<le> 146097 * x + 1000" for x
    unfolding parts using near [of 4 "x + 1"] near [of 100 "x + 69"] near [of 400 "x + 369"] by simp
  have below: "day_from_year (1970 + e - 1) \<le> d" using hi [of "e - 1"] e by simp
  have above: "d < day_from_year (1970 + e + 2)" using lo [of "e + 2"] e by simp
  show "day_from_year (year_from_day d) \<le> d" "d < day_from_year (year_from_day d + 1)"
    using below above unfolding year_from_day_def Let_def e_def [symmetric] by (simp_all add: add.assoc)
qed

lemma month_of_table:
  "list_all (\<lambda>doy. 0 \<le> month_of leap doy \<and> month_of leap doy \<le> 11 \<and> month_start leap (month_of leap doy) \<le> doy
    \<and> doy < month_start leap (month_of leap doy) + 31) [0..if leap then 365 else 364]"
  by (cases leap; simp only: if_True if_False; code_simp)

lemma month_of_cases:
  assumes "0 \<le> doy" "doy < (if leap then 366 else 365)"
  shows "0 \<le> month_of leap doy \<and> month_of leap doy \<le> 11 \<and> month_start leap (month_of leap doy) \<le> doy
    \<and> doy < month_start leap (month_of leap doy) + 31"
  using month_of_table [of leap] assms by (simp add: list_all_iff split: if_splits)

lemma civil_make_day:
  assumes "civil day = (y, m, d)"
  shows "make_day y (m - 1) d = day" "1 \<le> m" "m \<le> 12" "1 \<le> d" "d \<le> 31"
proof -
  define y' where "y' = year_from_day day"
  define doy where "doy = day - day_from_year y'"
  have doy: "0 \<le> doy" "doy < (if is_leap y' then 366 else 365)"
    using year_from_day_bounds [of day] day_from_year_Suc [of y'] by (auto simp: doy_def y'_def)
  note mc = month_of_cases [OF doy]
  have e: "y = y'" "m = month_of (is_leap y') doy + 1" "d = doy - month_start (is_leap y') (month_of (is_leap y') doy) + 1"
    using assms unfolding civil_def Let_def y'_def [symmetric] doy_def [symmetric] by auto
  show "make_day y (m - 1) d = day" using mc e by (simp add: make_day_def Let_def doy_def)
  show "1 \<le> m" "m \<le> 12" "1 \<le> d" "d \<le> 31" using mc e by simp_all
qed


section \<open>Lemmas on texts\<close>

lemma split_char_append: "c \<notin> set a \<Longrightarrow> split_char c (a @ c # b) = a # split_char c b"
  by (induction a) auto

lemma split_char_single: "c \<notin> set a \<Longrightarrow> split_char c a = [a]"
  by (induction a) auto

lemma digits_no_char: "list_all is_digit s \<Longrightarrow> \<not> is_digit c \<Longrightarrow> c \<notin> set s"
  by (auto simp: list_all_iff)

lemma digit_not_ws: "is_digit c \<Longrightarrow> \<not> is_ws c"
  by (rule word_not_ws) (simp add: is_word_def)

lemma digit_signs [simp]: "\<not> is_digit (CHR ''-'')" "\<not> is_digit (CHR ''+'')" "\<not> is_digit (CHR '' '')" "\<not> is_digit (CHR '':'')"
  by (simp_all add: is_digit_def char_code_def)

lemma takeWhile_digits: "list_all is_digit s \<Longrightarrow> takeWhile is_digit s = s"
  by (simp add: list_all_iff)

lemma parseInt10_digits:
  assumes "list_all is_digit s" "s \<noteq> []"
  shows "parseInt10 s = Some (int (digits_value s))"
proof -
  obtain c r where s: "s = c # r" "is_digit c" using assms by (cases s) auto
  then have "dropWhile is_ws s = s" "\<not> startsWith s ''-''" "\<not> startsWith s ''+''" using digit_not_ws by auto
  then show ?thesis unfolding parseInt10_def Let_def using assms(2) takeWhile_digits [OF assms(1)] by (simp del: takeWhile_eq_all_conv)
qed

lemma parseInt10_show_nat [simp]: "parseInt10 (show_nat n) = Some (int n)"
  by (simp add: parseInt10_digits show_nat_digits)

lemma parseInt10_show_int [simp]: "parseInt10 (show_int i) = Some i"
proof (cases "i < 0")
  case True
  then show ?thesis using takeWhile_digits [OF show_nat_digits]
    by (simp add: parseInt10_def show_int_def Let_def is_ws_def del: takeWhile_eq_all_conv)
qed (simp add: show_int_def)

lemma pad_digits: "list_all is_digit (pad k i)"
  by (simp add: pad_def pad_zeros_digits)

lemma parseInt10_pad: "0 \<le> i \<Longrightarrow> parseInt10 (pad k i) = Some i"
  using parseInt10_digits [OF pad_digits, of k i] by (simp add: pad_def) (simp add: pad_zeros_def)

end
