(* ===== verification/Nexus_Integration.thy ===== *)
theory Nexus_Integration
  imports ResilientDB_Client Query_Analyzer JS_Date
begin

text \<open>
  Model of \<open>nexus/integration.ts\<close>: a client of the Nexus application that turns its free text into an
  analysis or a suggestion. The regular expressions are modelled by the matching that a backtracking
  engine performs on Latin-1 text. The Nexus server is a function from request bodies to replies.
  The theory shows that an analysis always has all its parts whatever the server sends, and which
  texts are misread.
\<close>

section \<open>Regular expressions\<close>

text \<open>The leftmost position where a matcher succeeds.\<close>

fun first_match :: "(string \<Rightarrow> 'a option) \<Rightarrow> string \<Rightarrow> 'a option" where
  "first_match m [] = m []"
| "first_match m (c # s) = (case m (c # s) of Some x \<Rightarrow> Some x | None \<Rightarrow> first_match m s)"

text \<open>A word in any case at the start, then \<open>[:\s]+\<close>: the characters that may be taken, and the rest.\<close>

definition colon_ws :: "char \<Rightarrow> bool" where
  "colon_ws c \<longleftrightarrow> c = CHR '':'' \<or> is_ws c"

definition starts_ci :: "string \<Rightarrow> string \<Rightarrow> bool" where
  "starts_ci s w \<longleftrightarrow> toLowerCase (take (length w) s) = w"

text \<open>\<open>(.*?)(?:\n|$)\<close> at the start: the characters up to a line feed or the end.\<close>

definition line_capture :: "string \<Rightarrow> string option" where
  "line_capture s =
     (let l = takeWhile (\<lambda>c. \<not> is_line_term c) s; r = drop (length l) s
      in if r = [] \<or> hd r = CHR 0x0A then Some l else None)"

text \<open>The greedy \<open>[:\s]+\<close> gives characters back until the rest matches.\<close>

fun separated :: "nat \<Rightarrow> string \<Rightarrow> string option" where
  "separated 0 r = None"
| "separated (Suc k) r = (case line_capture (drop (Suc k) r) of Some l \<Rightarrow> Some l | None \<Rightarrow> separated k r)"

definition explanation_at :: "string \<Rightarrow> string option" where
  "explanation_at s =
     (if starts_ci s ''explanation''
      then (let r = drop 11 s in separated (length (takeWhile colon_ws r)) r)
      else None)"

text \<open>\<open>/word[:\s]+(class+)/i\<close> for a class of characters disjoint from \<open>[:\s]\<close>.\<close>

definition labelled :: "string \<Rightarrow> (char \<Rightarrow> bool) \<Rightarrow> string \<Rightarrow> string option" where
  "labelled w cls s =
     (let r = drop (length w) s; v = takeWhile cls (dropWhile colon_ws r)
      in if starts_ci s w \<and> takeWhile colon_ws r \<noteq> [] \<and> v \<noteq> [] then Some v else None)"

text \<open>\<open>text.split('\n\n')[0]\<close>.\<close>

fun first_paragraph :: "string \<Rightarrow> string" where
  "first_paragraph (c # d # s) = (if c = CHR 0x0A \<and> d = CHR 0x0A then [] else c # first_paragraph (d # s))"
| "first_paragraph s = s"

text \<open>The text between the first opening fence and the next closing one.\<close>

definition open_fence :: string where
  "open_fence = ''```graphql'' @ nl"

definition close_fence :: string where
  "close_fence = nl @ ''```''"

fun up_to :: "string \<Rightarrow> string \<Rightarrow> string option" where
  "up_to p [] = (if p = [] then Some [] else None)"
| "up_to p (c # s) = (if startsWith (c # s) p then Some [] else map_option (Cons c) (up_to p s))"

definition fenced_at :: "string \<Rightarrow> string option" where
  "fenced_at s = (if startsWith s open_fence then up_to close_fence (drop (length open_fence) s) else None)"


section \<open>Extraction\<close>

definition extractExplanation :: "string \<Rightarrow> string" where
  "extractExplanation t =
     (case first_match explanation_at t of
        Some l \<Rightarrow> trim l
      | None \<Rightarrow> if first_paragraph t \<noteq> [] then first_paragraph t else take 200 t)"

definition extractComplexity :: "string \<Rightarrow> level" where
  "extractComplexity t =
     (let lowerText = toLowerCase t
      in if str_includes lowerText ''low complexity'' \<or> str_includes lowerText ''simple'' then Low
         else if str_includes lowerText ''high complexity'' \<or> str_includes lowerText ''complex'' then High
         else Medium)"

text \<open>\<open>/^[\d\-*]\s+/\<close> (the bullet sign is outside Latin-1): whether it matches, and the text without it.\<close>

definition bullet_item :: "string \<Rightarrow> bool" where
  "bullet_item s \<longleftrightarrow> (case s of c # d # r \<Rightarrow> (is_digit c \<or> c = CHR ''-'' \<or> c = CHR ''*'') \<and> is_ws d | _ \<Rightarrow> False)"

definition strip_bullet :: "string \<Rightarrow> string" where
  "strip_bullet s = (if bullet_item s then dropWhile is_ws (tl s) else s)"

definition strip_label :: "string \<Rightarrow> string" where
  "strip_label s =
     (let r = drop 14 s
      in if starts_ci s ''recommendation'' \<and> takeWhile colon_ws r \<noteq> [] then dropWhile colon_ws r else s)"

definition line_recommendation :: "string \<Rightarrow> string option" where
  "line_recommendation line =
     (let trimmed = trim line
      in if bullet_item trimmed \<or> startsWith trimmed ''Recommendation''
         then (let r = strip_label (strip_bullet trimmed) in if length r > 10 then Some r else None)
         else None)"

definition extractRecommendations :: "string \<Rightarrow> string list" where
  "extractRecommendations t = List.map_filter line_recommendation (split_char (CHR 0x0A) t)"

definition extractEfficiency :: "string \<Rightarrow> nat" where
  "extractEfficiency t =
     (let default = (case extractComplexity t of Low \<Rightarrow> 80 | High \<Rightarrow> 40 | Medium \<Rightarrow> 60)
      in case first_match (labelled ''efficiency'' is_digit) t of
           Some ds \<Rightarrow> if digits_value ds \<le> 100 then digits_value ds else default
         | None \<Rightarrow> default)"


section \<open>Results\<close>

record NexusAnalysis =
  na_query :: string
  na_explanation :: string
  na_complexity :: level
  na_recommendations :: "string list"
  na_estimatedEfficiency :: nat

record NexusSuggestion =
  ns_query :: string
  ns_explanation :: string
  ns_confidence :: "rat option"

text \<open>\<open>nexusResponse.response || nexusResponse.text || ''\<close>; a value that is not a string has no \<open>match\<close>.\<close>

definition response_text :: "json \<Rightarrow> string + string" where
  "response_text data =
     (case member ''response'' data of
        Inl e \<Rightarrow> Inl e
      | Inr r \<Rightarrow>
          (case or_json r (or_json (opt_member ''text'' (Some data)) (JStr [])) of
             JStr s \<Rightarrow> Inr s
           | _ \<Rightarrow> Inl ''text.match is not a function''))"

definition default_recommendations :: "string list" where
  "default_recommendations = [''Review query structure'', ''Check field selection'', ''Consider adding filters if needed'']"

definition parseNexusResponse :: "GraphQLQuery \<Rightarrow> json \<Rightarrow> string + NexusAnalysis" where
  "parseNexusResponse query data =
     (case response_text data of
        Inl e \<Rightarrow> Inl e
      | Inr t \<Rightarrow>
          Inr \<lparr>na_query = gq_query query,
               na_explanation = (if extractExplanation t \<noteq> [] then extractExplanation t else ''Query analysis from Nexus LLM''),
               na_complexity = extractComplexity t,
               na_recommendations = (if extractRecommendations t \<noteq> [] then extractRecommendations t else default_recommendations),
               na_estimatedEfficiency = (if extractEfficiency t \<noteq> 0 then extractEfficiency t else 50)\<rparr>)"

definition clamp_confidence :: "rat option \<Rightarrow> rat option" where
  "clamp_confidence c = map_option (\<lambda>x. min (max x 0) 1) c"

definition confidence_char :: "char \<Rightarrow> bool" where
  "confidence_char c \<longleftrightarrow> is_digit c \<or> c = CHR ''.''"

definition parseSuggestionResponse :: "GraphQLQuery \<Rightarrow> json \<Rightarrow> string + NexusSuggestion list" where
  "parseSuggestionResponse originalQuery data =
     (case response_text data of
        Inl e \<Rightarrow> Inl e
      | Inr t \<Rightarrow>
          Inr [\<lparr>ns_query = (case first_match fenced_at t of Some q \<Rightarrow> trim q | None \<Rightarrow> gq_query originalQuery),
                ns_explanation = (if extractExplanation t \<noteq> [] then extractExplanation t else ''Optimized query suggestion from Nexus''),
                ns_confidence = clamp_confidence
                  (case first_match (labelled ''confidence'' confidence_char) t of Some v \<Rightarrow> parse_float v | None \<Rightarrow> Some (7/10))\<rparr>])"

definition getStubAnalysis :: "GraphQLQuery \<Rightarrow> NexusAnalysis" where
  "getStubAnalysis query =
     \<lparr>na_query = gq_query query,
      na_explanation = ''Query analysis will be available when Nexus is configured and running.'',
      na_complexity = Medium,
      na_recommendations = [''Configure NEXUS_API_URL to enable Nexus integration'', ''Ensure Nexus is running on the configured URL'',
        ''Check query syntax manually for now''],
      na_estimatedEfficiency = 50\<rparr>"

definition getStubSuggestions :: "GraphQLQuery \<Rightarrow> NexusSuggestion list" where
  "getStubSuggestions query =
     [\<lparr>ns_query = gq_query query, ns_explanation = ''Query suggestions will be available when Nexus is configured.'', ns_confidence = Some (1/2)\<rparr>]"


section \<open>Requests\<close>

definition fence :: string where
  "fence = ''```''"

definition buildAnalysisPrompt :: "GraphQLQuery \<Rightarrow> string option \<Rightarrow> string" where
  "buildAnalysisPrompt query schema =
     ''Analyze this GraphQL query for ResilientDB:'' @ nl @ nl
     @ ''Query:'' @ nl @ fence @ ''graphql'' @ nl @ gq_query query @ nl @ fence @ nl @ nl
     @ (if present (gq_operationName query) then ''Operation Name: '' @ the (gq_operationName query) @ nl @ nl else [])
     @ (if present schema then ''Schema Context:'' @ nl @ take 1000 (the schema) @ ''...'' @ nl @ nl else [])
     @ ''Please provide:'' @ nl
     @ ''1. An explanation of what this query does'' @ nl
     @ ''2. The complexity level (low/medium/high)'' @ nl
     @ ''3. Recommendations for optimization'' @ nl
     @ ''4. Estimated efficiency (0-100)'' @ nl"

definition buildSuggestionPrompt :: "GraphQLQuery \<Rightarrow> string option \<Rightarrow> string" where
  "buildSuggestionPrompt query schema =
     ''Suggest optimizations for this ResilientDB GraphQL query:'' @ nl @ nl
     @ ''Current Query:'' @ nl @ fence @ ''graphql'' @ nl @ gq_query query @ nl @ fence @ nl @ nl
     @ (if present schema then ''Schema Context:'' @ nl @ take 1000 (the schema) @ ''...'' @ nl @ nl else [])
     @ ''Please provide:'' @ nl
     @ ''1. An optimized version of this query'' @ nl
     @ ''2. Explanation of the optimizations'' @ nl
     @ ''3. Confidence level (0-1) for the suggestions'' @ nl"

definition chat_body :: "string \<Rightarrow> string \<Rightarrow> int \<Rightarrow> json" where
  "chat_body prompt session now =
     JObj [(''query'', JStr prompt), (''documentPaths'', JArr [JStr ''documents/resilientdb.pdf'']), (''sessionId'', JStr (session @ show_int now))]"

text \<open>
  What \<open>fetch\<close> gives: it throws (also when the request is aborted after a minute), or a status
  with a content type and a body; reading the body may fail.
\<close>

datatype nexus_reply = NexusThrows string | NexusStatus nat string | NexusOk string "string + string"

type_synonym nexus_server = "json \<Rightarrow> nexus_reply"

text \<open>The data of a reply: JSON for a JSON content type, otherwise JSON or the plain text.\<close>

definition text_data :: "string \<Rightarrow> json" where
  "text_data t = (case json_parse t of Some j \<Rightarrow> j | None \<Rightarrow> JObj [(''response'', JStr t), (''text'', JStr t)])"

definition reply_data :: "nexus_reply \<Rightarrow> string + json" where
  "reply_data r =
     (case r of
        NexusThrows e \<Rightarrow> Inl e
      | NexusStatus st statusText \<Rightarrow> Inl (''Nexus API error: '' @ show_nat st @ '' '' @ statusText)
      | NexusOk contentType body \<Rightarrow>
          (case body of
             Inl e \<Rightarrow> Inl e
           | Inr t \<Rightarrow>
               (if str_includes contentType ''application/json''
                then (case json_parse t of Some j \<Rightarrow> Inr j | None \<Rightarrow> Inl ''Unexpected token in JSON'')
                else Inr (text_data t))))"

record NexusIntegration =
  ni_apiUrl :: string
  ni_enabled :: bool

definition new_NexusIntegration :: "string \<Rightarrow> NexusIntegration" where
  "new_NexusIntegration url = \<lparr>ni_apiUrl = url, ni_enabled = (url \<noteq> [])\<rparr>"

definition analyzeQuery :: "NexusIntegration \<Rightarrow> nexus_server \<Rightarrow> int \<Rightarrow> GraphQLQuery \<Rightarrow> string option \<Rightarrow> NexusAnalysis" where
  "analyzeQuery ni server now query schema =
     (if \<not> ni_enabled ni then getStubAnalysis query
      else case reply_data (server (chat_body (buildAnalysisPrompt query schema) ''graphq-llm-'' now)) of
             Inl e \<Rightarrow> getStubAnalysis query
           | Inr data \<Rightarrow> (case parseNexusResponse query data of Inl e \<Rightarrow> getStubAnalysis query | Inr a \<Rightarrow> a))"

definition getSuggestions :: "NexusIntegration \<Rightarrow> nexus_server \<Rightarrow> int \<Rightarrow> GraphQLQuery \<Rightarrow> string option \<Rightarrow> NexusSuggestion list" where
  "getSuggestions ni server now query schema =
     (if \<not> ni_enabled ni then getStubSuggestions query
      else case reply_data (server (chat_body (buildSuggestionPrompt query schema) ''graphq-llm-suggestions-'' now)) of
             Inl e \<Rightarrow> getStubSuggestions query
           | Inr data \<Rightarrow> (case parseSuggestionResponse query data of Inl e \<Rightarrow> getStubSuggestions query | Inr ss \<Rightarrow> ss))"

record NexusStatusReport =
  nr_connected :: bool
  nr_apiUrl :: string
  nr_error :: "string option"

datatype documents_reply = DocumentsThrow string | DocumentsStatus nat string | DocumentsOk

definition nexus_checkConnection :: "NexusIntegration \<Rightarrow> documents_reply \<Rightarrow> NexusStatusReport" where
  "nexus_checkConnection ni reply =
     (if \<not> ni_enabled ni then \<lparr>nr_connected = False, nr_apiUrl = ni_apiUrl ni, nr_error = Some ''Nexus API URL not configured''\<rparr>
      else case reply of
             DocumentsOk \<Rightarrow> \<lparr>nr_connected = True, nr_apiUrl = ni_apiUrl ni, nr_error = None\<rparr>
           | DocumentsStatus st statusText \<Rightarrow>
               \<lparr>nr_connected = False, nr_apiUrl = ni_apiUrl ni, nr_error = Some (''HTTP '' @ show_nat st @ '': '' @ statusText)\<rparr>
           | DocumentsThrow e \<Rightarrow> \<lparr>nr_connected = False, nr_apiUrl = ni_apiUrl ni, nr_error = Some e\<rparr>)"


section \<open>What an analysis contains\<close>

lemma extractEfficiency_le: "extractEfficiency t \<le> 100"
  by (auto simp: extractEfficiency_def Let_def split: option.splits level.splits)

lemma extractRecommendations_long: "list_all (\<lambda>r. length r > 10) (extractRecommendations t)"
proof -
  have "length r > 10" if "line_recommendation l = Some r" for l r
    using that by (auto simp: line_recommendation_def Let_def split: if_splits)
  then show ?thesis by (auto simp: extractRecommendations_def list_all_iff List.map_filter_def)
qed

text \<open>
  C24. Whatever the server does, an analysis is for the query asked about, has an explanation, at least one
  recommendation, each of more than ten characters, and an efficiency from 1 to 100.
\<close>

theorem nexus_analysis_complete:
  "let a = analyzeQuery ni server now query schema
   in na_query a = gq_query query \<and> na_explanation a \<noteq> [] \<and> na_recommendations a \<noteq> []
      \<and> list_all (\<lambda>r. length r > 10) (na_recommendations a) \<and> 1 \<le> na_estimatedEfficiency a \<and> na_estimatedEfficiency a \<le> 100"
  using extractEfficiency_le extractRecommendations_long
  by (simp add: analyzeQuery_def getStubAnalysis_def parseNexusResponse_def default_recommendations_def Let_def Suc_le_eq split: sum.split)


section \<open>What is misread\<close>

lemma includes_prefix: "str_includes s (p @ q) \<Longrightarrow> str_includes s p"
proof (induction s)
  case (Cons c s)
  have "startsWith (c # s) p" if "startsWith (c # s) (p @ q)"
    using arg_cong [OF that [unfolded startsWith_def], of "take (length p)"] by (simp add: startsWith_def)
  with Cons show ?case by auto
qed simp

lemma complexity_is_complex: "str_includes s ''complexity'' \<Longrightarrow> str_includes s ''complex''"
  using includes_prefix [of s "''complex''" "''ity''"] by simp

text \<open>A line that begins with a number and a full stop.\<close>

definition numbered_item :: "string \<Rightarrow> bool" where
  "numbered_item l \<longleftrightarrow> (case trim l of c # d # r \<Rightarrow> is_digit c \<and> (d = CHR ''.'' \<or> is_digit d) | _ \<Rightarrow> False)"

lemma numbered_item_none: "numbered_item l \<Longrightarrow> line_recommendation l = None"
proof -
  assume n: "numbered_item l"
  then obtain c d r where t: "trim l = c # d # r" "is_digit c" "d = CHR ''.'' \<or> is_digit d"
    by (auto simp: numbered_item_def split: list.splits)
  have "\<not> is_ws d" using t(3) by (auto simp: js_simps)
  moreover have "c \<noteq> CHR ''R''" using t(2) by (auto simp: js_simps)
  ultimately show ?thesis using t by (simp add: line_recommendation_def bullet_item_def startsWith_def Let_def)
qed

text \<open>
  Every answer that names the complexity counts as a high one, unless it contains the words \<open>low
  complexity\<close> or \<open>simple\<close>; and the items of a numbered list are never taken as recommendations.
\<close>

theorem nexus_misreads:
  assumes "str_includes (toLowerCase t) ''complexity''"
    "\<not> str_includes (toLowerCase t) ''low complexity''" "\<not> str_includes (toLowerCase t) ''simple''"
    "list_all numbered_item (split_char (CHR 0x0A) t)"
  shows "\<exists>a. parseNexusResponse query (JObj [(''response'', JStr t)]) = Inr a
    \<and> na_complexity a = High \<and> na_recommendations a = default_recommendations"
proof -
  have "t \<noteq> []" using assms(1) by (auto simp: toLowerCase_def)
  then have r: "response_text (JObj [(''response'', JStr t)]) = Inr t"
    by (simp add: response_text_def member_def or_json_def)
  have "extractComplexity t = High" using assms complexity_is_complex by (simp add: extractComplexity_def Let_def)
  moreover have "List.map_filter line_recommendation ls = []" if "list_all numbered_item ls" for ls
    using that by (induction ls) (simp_all add: map_filter_simps numbered_item_none)
  then have "extractRecommendations t = []" using assms(4) by (simp add: extractRecommendations_def)
  ultimately show ?thesis unfolding parseNexusResponse_def r by simp
qed

definition sample_query :: GraphQLQuery where
  "sample_query = \<lparr>gq_query = ''{ a }'', gq_variables = None, gq_operationName = None\<rparr>"

theorem nexus_misreads_witness:
  "\<exists>a. parseNexusResponse sample_query (JObj [(''response'', JStr (''1. The complexity is medium.'' @ nl @ ''2. Select fewer fields.''))]) = Inr a
     \<and> na_complexity a = High \<and> na_recommendations a = default_recommendations"
proof -
  let ?t = "''1. The complexity is medium.'' @ nl @ ''2. Select fewer fields.''"
  have 1: "str_includes (toLowerCase ?t) ''complexity''" by code_simp
  have 2: "\<not> str_includes (toLowerCase ?t) ''low complexity''" by code_simp
  have 3: "\<not> str_includes (toLowerCase ?t) ''simple''" by code_simp
  have 4: "list_all numbered_item (split_char (CHR 0x0A) ?t)" by code_simp
  show ?thesis by (rule nexus_misreads [OF 1 2 3 4])
qed


section \<open>Suggestions\<close>

lemma up_to_close: "CHR ''`'' \<notin> set q \<Longrightarrow> up_to close_fence (q @ close_fence @ r) = Some q"
proof (induction q)
  case Nil
  then show ?case by (simp add: close_fence_def nl_def startsWith_def)
next
  case (Cons c q)
  have "\<not> startsWith (c # q @ close_fence @ r) close_fence"
  proof
    assume "startsWith (c # q @ close_fence @ r) close_fence"
    moreover obtain d u where d: "q @ close_fence @ r = d # u" by (cases "q @ close_fence @ r") (auto simp: close_fence_def)
    ultimately have "hd (q @ close_fence @ r) = CHR ''`''" unfolding d by (simp add: startsWith_def close_fence_def nl_def)
    then show False using Cons.prems by (cases q) (auto simp: close_fence_def nl_def)
  qed
  with Cons show ?case by simp
qed

lemma first_fence: "CHR ''`'' \<notin> set pre \<Longrightarrow> CHR ''`'' \<notin> set q \<Longrightarrow>
   first_match fenced_at (pre @ open_fence @ q @ close_fence @ r) = Some q"
proof (induction pre)
  case Nil
  have "fenced_at (open_fence @ q @ close_fence @ r) = Some q"
    using up_to_close [OF Nil(2)] by (simp add: fenced_at_def startsWith_def)
  then show ?case by (cases "open_fence @ q @ close_fence @ r") simp_all
next
  case (Cons c pre)
  then have "\<not> startsWith ((c # pre) @ open_fence @ q @ close_fence @ r) open_fence"
    by (auto simp: open_fence_def startsWith_def)
  with Cons show ?case by (simp add: fenced_at_def)
qed

text \<open>
  A reply with a fenced query gives one suggestion, with exactly that query up to white space at its
  ends, and a confidence between 0 and 1 or \<open>NaN\<close>.
\<close>

theorem nexus_suggestion_query:
  assumes "CHR ''`'' \<notin> set pre" "CHR ''`'' \<notin> set q"
    and "ss = getSuggestions \<lparr>ni_apiUrl = url, ni_enabled = True\<rparr> (\<lambda>body. NexusOk ''text/plain'' (Inr (pre @ open_fence @ q @ close_fence @ post))) now query schema"
    and "json_parse (pre @ open_fence @ q @ close_fence @ post) = None"
  shows "map ns_query ss = [trim q] \<and> list_all (\<lambda>x. case ns_confidence x of None \<Rightarrow> True | Some c \<Rightarrow> 0 \<le> c \<and> c \<le> 1) ss"
proof -
  let ?t = "pre @ open_fence @ q @ close_fence @ post"
  have "response_text (text_data ?t) = Inr ?t"
    using assms(4) by (simp add: text_data_def response_text_def member_def or_json_def open_fence_def)
  then show ?thesis using first_fence [OF assms(1,2), of post] unfolding assms(3) getSuggestions_def reply_data_def
    by (simp add: parseSuggestionResponse_def clamp_confidence_def split: option.split)
qed

end
