(* ===== verification/Json_Pretty.thy ===== *)
theory Json_Pretty
  imports Json_Parse
begin

text \<open>
  \<open>JSON.stringify(value, null, 2)\<close>, the indented text that the MCP server sends, and its round trip
  through \<open>JSON.parse\<close>.
\<close>

section \<open>Indented text\<close>

definition blanks :: "nat \<Rightarrow> string" where
  "blanks n = replicate n (CHR '' '')"

fun pretty :: "nat \<Rightarrow> json \<Rightarrow> string" where
  "pretty i (JArr xs) =
     (if xs = [] then ''[]''
      else ''['' @ nl @ join ('','' @ nl) (map (\<lambda>x. blanks (i + 2) @ pretty (i + 2) x) xs) @ nl @ blanks i @ '']'')"
| "pretty i (JObj ps) =
     (if ps = [] then ''{}''
      else ''{'' @ nl @ join ('','' @ nl) (map (\<lambda>p. blanks (i + 2) @ json_quote (fst p) @ '': '' @ pretty (i + 2) (snd p)) ps)
           @ nl @ blanks i @ ''}'')"
| "pretty i j = stringify j"

definition stringify_indented :: "json \<Rightarrow> string" where
  "stringify_indented j = pretty 0 j"


section \<open>Parsing it\<close>

lemma ws_blanks [simp]: "list_all json_ws (blanks n)" "list_all json_ws nl"
  by (simp_all add: blanks_def nl_def json_ws_def list_all_length)

lemma nl_not_Nil [simp]: "nl \<noteq> []"
  by (simp add: nl_def)

lemma parse_elements_blank: "list_all json_ws u \<Longrightarrow> parse_elements f (u @ x) = parse_elements f x"
  by (cases f) (simp_all only: parse_elements.simps parse_value_blank)

lemma parse_members_blank: "list_all json_ws u \<Longrightarrow> parse_members f acc (u @ x) = parse_members f acc x"
  by (cases f) (simp_all only: parse_members.simps skip_ws_blank)

lemma delimited_blank: "list_all json_ws v \<Longrightarrow> v \<noteq> [] \<Longrightarrow> delimited (v @ r)"
  by (cases v) (simp_all add: delimited_def)

definition reads :: "json \<Rightarrow> bool" where
  "reads j \<longleftrightarrow> (\<forall>i f r. delimited r \<longrightarrow> need j \<le> f \<longrightarrow> parse_value f (pretty i j @ r) = Some (j, r))"

lemma readsD: "reads j \<Longrightarrow> delimited r \<Longrightarrow> need j \<le> f \<Longrightarrow> parse_value f (pretty i j @ r) = Some (j, r)"
  by (simp add: reads_def)

lemma parse_elements_lines:
  assumes "xs \<noteq> []" "list_all reads xs" "foldr (\<lambda>x m. Suc (max (need x) m)) xs 0 \<le> f" "list_all json_ws v" "v \<noteq> []"
  shows "parse_elements f (join ('','' @ nl) (map (\<lambda>x. blanks n @ pretty n x) xs) @ v @ CHR '']'' # r) = Some (xs, r)"
  using assms(1-3)
proof (induction xs arbitrary: f)
  case (Cons x xs)
  obtain g where f: "f = Suc g" "need x \<le> g" "foldr (\<lambda>x m. Suc (max (need x) m)) xs 0 \<le> g"
    using Cons.prems(3) by (cases f) simp_all
  have x: "parse_value g (blanks n @ pretty n x @ u) = Some (x, u)" if "delimited u" for u
    using readsD [of x u g n] Cons.prems(2) f(2) that by (simp add: parse_value_blank)
  show ?case
  proof (cases xs)
    case Nil
    then show ?thesis using x [OF delimited_blank [OF assms(4,5)]] f(1) skip_ws_blank [OF assms(4), of "CHR '']'' # r"] by simp
  next
    case (Cons y ys)
    let ?rest = "join ('','' @ nl) (map (\<lambda>x. blanks n @ pretty n x) xs) @ v @ CHR '']'' # r"
    have "parse_elements g (nl @ ?rest) = Some (xs, r)"
      using Cons.IH [OF _ _ f(3)] Cons.prems(2) Cons by (simp add: parse_elements_blank)
    moreover have "parse_value g (blanks n @ pretty n x @ CHR '','' # nl @ ?rest) = Some (x, CHR '','' # nl @ ?rest)"
      by (rule x) simp
    ultimately show ?thesis using Cons f(1) by simp
  qed
qed simp

definition line_text :: "nat \<Rightarrow> string \<times> json \<Rightarrow> string" where
  "line_text n p = blanks n @ json_quote (fst p) @ '': '' @ pretty n (snd p)"

lemma parse_line:
  assumes "reads v" "need v \<le> g" "delimited u" "k \<notin> fst ` set acc"
  shows "parse_members (Suc g) acc (line_text n (k, v) @ u) =
    (let t' = skip_ws u
     in if startsWith t' '','' then parse_members g (acc @ [(k, v)]) (tl t')
        else if startsWith t' ''}'' then Some (acc @ [(k, v)], tl t') else None)"
proof -
  have "skip_ws (line_text n (k, v) @ u) = json_quote k @ CHR '':'' # CHR '' '' # pretty n v @ u"
    using skip_ws_blank [of "blanks n"] by (simp add: line_text_def json_quote_start)
  moreover have "parse_value g (CHR '' '' # pretty n v @ u) = Some (v, u)"
    using parse_value_blank [of "'' ''" g "pretty n v @ u"] readsD [OF assms(1,3,2)] by (simp add: json_ws_def)
  moreover have "AList.update k v acc = acc @ [(k, v)]" using assms(4) by (intro update_fresh) simp
  ultimately show ?thesis by (simp add: json_quote_start parse_key Let_def)
qed

lemma parse_members_lines:
  assumes "ps \<noteq> []" "list_all (\<lambda>p. reads (snd p)) ps" "foldr (\<lambda>p m. Suc (max (need (snd p)) m)) ps 0 \<le> f"
    and "distinct (map fst (acc @ ps))" "list_all json_ws v" "v \<noteq> []"
  shows "parse_members f acc (join ('','' @ nl) (map (line_text n) ps) @ v @ CHR ''}'' # r) = Some (acc @ ps, r)"
  using assms(1-4)
proof (induction ps arbitrary: f acc)
  case (Cons p ps)
  obtain k w where p: "p = (k, w)" by (cases p)
  obtain g where f: "f = Suc g" "need w \<le> g" "foldr (\<lambda>p m. Suc (max (need (snd p)) m)) ps 0 \<le> g"
    using Cons.prems(3) by (cases f) (simp_all add: p)
  have w: "reads w" "k \<notin> fst ` set acc" using Cons.prems(2,4) by (auto simp: p)
  show ?case
  proof (cases ps)
    case Nil
    then show ?thesis
      using parse_line [OF w(1) f(2) delimited_blank [OF assms(5,6)] w(2), of n "CHR ''}'' # r"]
        skip_ws_blank [OF assms(5), of "CHR ''}'' # r"] by (simp add: p f(1))
  next
    case (Cons q qs)
    let ?rest = "join ('','' @ nl) (map (line_text n) ps) @ v @ CHR ''}'' # r"
    have "parse_members g (acc @ [(k, w)]) (nl @ ?rest) = Some (acc @ (k, w) # ps, r)"
      using Cons.IH [OF _ _ f(3), of "acc @ [(k, w)]"] Cons.prems(2,4) Cons by (simp add: p parse_members_blank)
    then show ?thesis
      using parse_line [OF w(1) f(2) _ w(2), of "CHR '','' # nl @ ?rest" n] Cons by (simp add: p f(1))
  qed
qed simp


lemma reads_array:
  assumes "list_all reads xs"
  shows "reads (JArr xs)"
  unfolding reads_def
proof (intro allI impI)
  fix i f r assume "need (JArr xs) \<le> f"
  then obtain g where f: "f = Suc g" "foldr (\<lambda>x m. Suc (max (need x) m)) xs 0 \<le> g" by (cases f) simp_all
  show "parse_value f (pretty i (JArr xs) @ r) = Some (JArr xs, r)"
  proof (cases "xs = []")
    case False
    let ?body = "join ('','' @ nl) (map (\<lambda>x. blanks (i + 2) @ pretty (i + 2) x) xs) @ (nl @ blanks i) @ CHR '']'' # r"
    have p: "parse_elements g (nl @ ?body) = Some (xs, r)"
      using parse_elements_lines [OF False assms f(2), of "nl @ blanks i" "i + 2" r] by (simp add: parse_elements_blank)
    have "\<not> startsWith (skip_ws (nl @ ?body)) '']''"
    proof
      assume s: "startsWith (skip_ws (nl @ ?body)) '']''"
      obtain h where h: "g = Suc h" using f(2) False by (cases g; cases xs) simp_all
      have "parse_value h (nl @ ?body) = None"
        using s by (cases h) (auto simp: Let_def parse_number_def startsWith_def neq_Nil_conv is_digit_def char_code_def)
      then show False using p h by simp
    qed
    then show ?thesis using p False f(1) by (simp add: Let_def)
  qed (simp add: f(1))
qed

lemma reads_object:
  assumes "list_all (\<lambda>p. reads (snd p)) ps" "distinct (map fst ps)"
  shows "reads (JObj ps)"
  unfolding reads_def
proof (intro allI impI)
  fix i f r assume "need (JObj ps) \<le> f"
  then obtain g where f: "f = Suc g" "foldr (\<lambda>p m. Suc (max (need (snd p)) m)) ps 0 \<le> g" by (cases f) simp_all
  show "parse_value f (pretty i (JObj ps) @ r) = Some (JObj ps, r)"
  proof (cases "ps = []")
    case False
    let ?body = "join ('','' @ nl) (map (line_text (i + 2)) ps) @ (nl @ blanks i) @ CHR ''}'' # r"
    have t: "pretty i (JObj ps) @ r = CHR ''{'' # nl @ ?body"
      using False by (simp add: line_text_def [abs_def])
    have p: "parse_members g [] (nl @ ?body) = Some (ps, r)"
      using parse_members_lines [OF False assms(1) f(2), of "[]" "nl @ blanks i" "i + 2" r] assms(2)
      by (simp add: parse_members_blank)
    have "\<not> startsWith (skip_ws (nl @ ?body)) ''}''"
    proof
      assume s: "startsWith (skip_ws (nl @ ?body)) ''}''"
      obtain h where h: "g = Suc h" using f(2) False by (cases g; cases ps) simp_all
      have "\<not> startsWith (skip_ws (nl @ ?body)) [CHR 0x22]" using s by (auto simp: startsWith_def neq_Nil_conv)
      then show False using p h by (simp add: Let_def)
    qed
    then show ?thesis unfolding t using p f(1) by (simp add: Let_def)
  qed (simp add: f(1))
qed

lemma normal_reads: "normal j \<Longrightarrow> reads j"
proof (induction j)
  case (JArr xs)
  then show ?case by (intro reads_array) (auto simp: list_all_iff)
next
  case (JObj ps)
  then show ?case by (intro reads_object) (auto simp: list_all_iff)
qed (auto simp: reads_def dest: normal_parses intro: parsesD simp del: parse_value.simps stringify.simps normal.simps need.simps)

text \<open>The indented text of a value in normal form parses to the value.\<close>

theorem indented_roundtrip:
  assumes "normal j"
  shows "json_parse (stringify_indented j) = Some j"
proof -
  let ?s = "stringify_indented j"
  define f where "f = max (need j) (2 * length ?s + 1)"
  have "parse_value f (?s @ []) = Some (j, [])"
    unfolding stringify_indented_def f_def by (rule readsD [OF normal_reads [OF assms]]) (simp_all add: delimited_def)
  then have "parse_value (2 * length ?s + 1) ?s = Some (j, [])"
    using fuel_enough(1) [of ?s f "2 * length ?s + 1"] by (simp add: f_def)
  then show ?thesis by (simp add: json_parse_def skip_ws_def)
qed

theorem indented_roundtrip_witness: "json_parse (stringify_indented sample_json) = Some sample_json"
  by (rule indented_roundtrip) (simp add: sample_json_def)

end
