(* ===== verification/Service_Json.thy ===== *)
theory Service_Json
  imports Json_Pretty JS_Date ResilientDB_Client Optimization_Service Efficiency_Estimator Live_Stats
begin

text \<open>
  The JSON form of the results that the HTTP and MCP servers send: the properties of the result
  types in the order of their interfaces, without those that are \<open>undefined\<close>, and dates as
  \<open>Date.prototype.toISOString\<close> writes them.
\<close>

section \<open>Numbers and dates\<close>

text \<open>A number, exact when it has at most twenty decimal places.\<close>

definition number_json :: "rat \<Rightarrow> json" where
  "number_json r =
     (case find (\<lambda>k. snd (quotient_of (r * 10 ^ k)) = 1) [0..<21] of
        Some k \<Rightarrow> JNum (fst (quotient_of (r * 10 ^ k))) k
      | None \<Rightarrow> JNum \<lfloor>r * 10 ^ 20\<rfloor> 20)"

definition int_json :: "int \<Rightarrow> json" where
  "int_json i = JNum i 0"

definition date_json :: "int \<Rightarrow> json" where
  "date_json t = JStr (toISOString t)"


section \<open>Results\<close>

definition strings_json :: "string list \<Rightarrow> json" where
  "strings_json xs = JArr (map JStr xs)"

fun level_json :: "level \<Rightarrow> json" where
  "level_json Low = JStr ''low''"
| "level_json Medium = JStr ''medium''"
| "level_json High = JStr ''high''"

fun opportunity_type_json :: "opportunity_type \<Rightarrow> json" where
  "opportunity_type_json Field_selection = JStr ''field_selection''"
| "opportunity_type_json Nested_depth = JStr ''nested_depth''"
| "opportunity_type_json Filtering = JStr ''filtering''"
| "opportunity_type_json Pagination = JStr ''pagination''"
| "opportunity_type_json Caching = JStr ''caching''"

definition opportunity_json :: "OptimizationOpportunity \<Rightarrow> json" where
  "opportunity_json p =
     object_of [(''type'', Some (opportunity_type_json (opp_type p))), (''description'', Some (JStr (opp_description p))),
                (''severity'', Some (level_json (opp_severity p))), (''suggestion'', map_option JStr (opp_suggestion p))]"

definition analysis_json :: "QueryAnalysis \<Rightarrow> json" where
  "analysis_json a =
     object_of [(''query'', Some (JStr (qa_query a))), (''complexity'', Some (level_json (qa_complexity a))),
                (''fieldCount'', Some (int_json (int (qa_fieldCount a)))), (''depth'', Some (int_json (int (qa_depth a)))),
                (''opportunities'', Some (JArr (map opportunity_json (qa_opportunities a)))),
                (''estimatedResourceUsage'', map_option (\<lambda>u. JObj [(''executionTime'', int_json (re_executionTime u)),
                    (''memoryUsage'', JStr (re_memoryUsage u))]) (qa_estimatedResourceUsage a))]"

definition explanation_json :: "ExplanationResult \<Rightarrow> (string \<times> json) list" where
  "explanation_json r =
     [(''explanation'', JStr (er_explanation r)), (''query'', JStr (er_query r)),
      (''contextChunksUsed'', int_json (int (er_contextChunksUsed r))), (''liveStatsIncluded'', JBool (er_liveStatsIncluded r))]"

definition suggestion_json :: "OptimizationSuggestion \<Rightarrow> json" where
  "suggestion_json s =
     object_of [(''suggestion'', Some (JStr (os_suggestion s))), (''reason'', Some (JStr (os_reason s))),
                (''expectedImprovement'', map_option JStr (os_expectedImprovement s)),
                (''optimizedQuery'', map_option JStr (os_optimizedQuery s)), (''priority'', Some (level_json (os_priority s)))]"

definition optimization_json :: "OptimizationResult \<Rightarrow> json" where
  "optimization_json r =
     object_of [(''query'', Some (JStr (or_query r))), (''suggestions'', Some (JArr (map suggestion_json (or_suggestions r)))),
                (''analysis'', Some (analysis_json (or_analysis r))),
                (''similarQueries'', map_option (\<lambda>qs. JArr (map (\<lambda>q. JObj [(''query'', JStr (Prompts.sq_query q)),
                    (''executionTime'', number_json (Prompts.sq_executionTime q)), (''description'', JStr (sq_description q))]) qs)) (or_similarQueries r))]"

fun category_json :: "category \<Rightarrow> json" where
  "category_json Excellent = JStr ''excellent''"
| "category_json Good = JStr ''good''"
| "category_json Moderate = JStr ''moderate''"
| "category_json Poor = JStr ''poor''"
| "category_json Critical = JStr ''critical''"

definition similar_json :: "Efficiency_Estimator.SimilarQuery list \<Rightarrow> json" where
  "similar_json qs = JArr (map (\<lambda>q. JObj [(''query'', JStr (Efficiency_Estimator.sq_query q)),
     (''executionTime'', number_json (Efficiency_Estimator.sq_executionTime q)), (''similarity'', number_json (sq_similarity q))]) qs)"

definition estimate_json :: "EfficiencyEstimate \<Rightarrow> (string \<times> json option) list" where
  "estimate_json e =
     [(''estimatedExecutionTime'', Some (int_json (ee_estimatedExecutionTime e))),
      (''estimatedResourceUsage'', Some (object_of [(''cpu'', map_option int_json (ue_cpu (ee_estimatedResourceUsage e))),
         (''memory'', map_option int_json (ue_memory (ee_estimatedResourceUsage e))),
         (''network'', map_option int_json (ue_network (ee_estimatedResourceUsage e)))])),
      (''efficiencyScore'', Some (int_json (ee_efficiencyScore e))), (''confidence'', Some (number_json (ee_confidence e))),
      (''similarQueries'', map_option similar_json (ee_similarQueries e)),
      (''performanceCategory'', Some (category_json (ee_performanceCategory e))),
      (''recommendations'', map_option strings_json (ee_recommendations e))]"

definition usage_json :: "ResourceUsage \<Rightarrow> json" where
  "usage_json u = object_of [(''cpu'', map_option number_json (ru_cpu u)), (''memory'', map_option number_json (ru_memory u)),
     (''network'', map_option number_json (ru_network u))]"

definition metrics_json :: "QueryExecutionMetrics \<Rightarrow> json" where
  "metrics_json m =
     object_of [(''queryId'', Some (JStr (m_queryId m))), (''query'', Some (JStr (m_query m))),
                (''executionTime'', Some (number_json (m_executionTime m))), (''timestamp'', Some (date_json (m_timestamp m))),
                (''success'', Some (JBool (m_success m))), (''error'', map_option JStr (m_error m)),
                (''resultSize'', map_option (\<lambda>n. int_json (int n)) (m_resultSize m)), (''cacheHit'', map_option JBool (m_cacheHit m)),
                (''resourceUsage'', map_option usage_json (m_resourceUsage m))]"

definition live_stats_json :: "LiveStats \<Rightarrow> (string \<times> json option) list" where
  "live_stats_json s =
     [(''systemMetrics'', map_option usage_json (lt_systemMetrics s)),
      (''recentQueries'', map_option (\<lambda>ms. JArr (map metrics_json ms)) (lt_recentQueries s)),
      (''avgExecutionTime'', map_option int_json (lt_avgExecutionTime s)), (''throughput'', map_option number_json (lt_throughput s)),
      (''cacheHitRatio'', map_option number_json (lt_cacheHitRatio s)), (''lastUpdated'', Some (date_json (lt_lastUpdated s)))]"

definition schema_json :: "SchemaContext \<Rightarrow> json" where
  "schema_json sx = JObj [(''schema'', JStr (sx_schema sx)), (''types'', sx_types sx), (''queries'', sx_queries sx), (''mutations'', sx_mutations sx)]"

definition validation_json :: "ValidationResult \<Rightarrow> json" where
  "validation_json v = object_of [(''valid'', Some (JBool (vr_valid v))), (''errors'', map_option strings_json (vr_errors v))]"

definition connection_json :: "ConnectionStatus \<Rightarrow> json" where
  "connection_json c =
     object_of [(''connected'', Some (JBool (ct_connected c))), (''endpoint'', Some (JStr (ct_endpoint c))),
                (''error'', map_option JStr (ct_error c)), (''responseTime'', map_option int_json (ct_responseTime c))]"

end
