(* ===== verification/Api_Server.thy ===== *)
theory Api_Server
  imports Service_Json
begin

text \<open>
  Model of \<open>api/http-server.ts\<close>: the REST interface of the explanation, optimisation and efficiency
  services. The three services are a record of functions from queries and options to a result or
  an error, which the last section fills with the models of the services themselves. The theory
  shows that every request with a valid address is answered, with which status, and that the
  combined analysis survives the failure of any of the services.
\<close>

section \<open>Services\<close>

record ApiServices =
  as_explain :: "string \<Rightarrow> (string \<times> json) list \<Rightarrow> string + ExplanationResult"
  as_optimize :: "string \<Rightarrow> json \<Rightarrow> string + OptimizationResult"
  as_estimate :: "string \<Rightarrow> json \<Rightarrow> json \<Rightarrow> string + EfficiencyEstimate"

definition sendJSON :: "nat \<Rightarrow> json \<Rightarrow> HttpResponse" where
  "sendJSON status data = respond status data"

definition sendError :: "nat \<Rightarrow> string \<Rightarrow> HttpResponse" where
  "sendError status message = sendJSON status (error_body message)"

text \<open>\<open>x ?? d\<close> for a property of the body.\<close>

definition nullish :: "json option \<Rightarrow> json \<Rightarrow> json" where
  "nullish x d = (case x of None \<Rightarrow> d | Some JNull \<Rightarrow> d | Some v \<Rightarrow> v)"

text \<open>The query of a body that has one: a string that is not empty.\<close>

definition valid_query :: "json \<Rightarrow> string option" where
  "valid_query data = (case opt_member ''query'' (Some data) of Some (JStr s) \<Rightarrow> if s \<noteq> [] then Some s else None | _ \<Rightarrow> None)"

text \<open>Destructuring \<open>null\<close> throws before the handlers' own \<open>try\<close>.\<close>

definition destructure :: "string \<Rightarrow> json \<Rightarrow> (unit \<Rightarrow> HttpResponse) \<Rightarrow> string + HttpResponse" where
  "destructure name data f =
     (if data = JNull then Inl (''Cannot destructure property '' @ [CHR 0x27] @ name @ [CHR 0x27] @ '' of '' @ [CHR 0x27] @ ''data''
         @ [CHR 0x27] @ '' as it is null.'')
      else Inr (f ()))"


section \<open>Handlers\<close>

definition handleExplain :: "ApiServices \<Rightarrow> json \<Rightarrow> string + HttpResponse" where
  "handleExplain sv data =
     destructure ''query'' data (\<lambda>_.
       (case valid_query data of
          None \<Rightarrow> sendError 400 ''Query is required''
        | Some query \<Rightarrow>
            (case as_explain sv query [(''detailed'', nullish (opt_member ''detailed'' (Some data)) (JBool True)),
                (''includeLiveStats'', nullish (opt_member ''includeLiveStats'' (Some data)) (JBool False))] of
               Inl e \<Rightarrow> sendError 500 ''Failed to generate explanation''
             | Inr explanation \<Rightarrow>
                 (let queryAnalysis = analyze query
                  in sendJSON 200 (JObj (explanation_json explanation
                       @ [(''complexity'', level_json (qa_complexity queryAnalysis)),
                          (''fieldCount'', int_json (int (qa_fieldCount queryAnalysis))),
                          (''depth'', int_json (int (qa_depth queryAnalysis)))]))))))"

definition handleOptimize :: "ApiServices \<Rightarrow> json \<Rightarrow> string + HttpResponse" where
  "handleOptimize sv data =
     destructure ''query'' data (\<lambda>_.
       (case valid_query data of
          None \<Rightarrow> sendError 400 ''Query is required''
        | Some query \<Rightarrow>
            (case as_optimize sv query (nullish (opt_member ''includeSimilarQueries'' (Some data)) (JBool True)) of
               Inl e \<Rightarrow> sendError 500 ''Failed to generate optimizations''
             | Inr optimization \<Rightarrow> sendJSON 200 (optimization_json optimization))))"

definition handleEfficiency :: "ApiServices \<Rightarrow> json \<Rightarrow> string + HttpResponse" where
  "handleEfficiency sv data =
     destructure ''query'' data (\<lambda>_.
       (case valid_query data of
          None \<Rightarrow> sendError 400 ''Query is required''
        | Some query \<Rightarrow>
            (case as_estimate sv query (nullish (opt_member ''useLiveStats'' (Some data)) (JBool False)) (JBool True) of
               Inl e \<Rightarrow> sendError 500 ''Failed to estimate efficiency''
             | Inr efficiency \<Rightarrow>
                 (let queryAnalysis = analyze query
                  in sendJSON 200 (object_of (estimate_json efficiency
                       @ [(''complexity'', Some (level_json (qa_complexity queryAnalysis))),
                          (''queryAnalysis'', Some (JObj [(''fieldCount'', int_json (int (qa_fieldCount queryAnalysis))),
                             (''depth'', int_json (int (qa_depth queryAnalysis))),
                             (''opportunities'', JArr (map opportunity_json (qa_opportunities queryAnalysis)))]))]))))))"

text \<open>The three parts of the combined analysis.\<close>

definition explanation_part :: "QueryAnalysis \<Rightarrow> string + ExplanationResult \<Rightarrow> json" where
  "explanation_part a explanation =
     (case explanation of
        Inr r \<Rightarrow> JObj [(''explanation'', JStr (er_explanation r)), (''complexity'', level_json (qa_complexity a)),
                       (''fieldCount'', int_json (int (qa_fieldCount a))), (''depth'', int_json (int (qa_depth a))),
                       (''recommendations'', strings_json (map opp_description (qa_opportunities a)))]
      | Inl e \<Rightarrow> JObj [(''explanation'', JStr ''Failed to generate explanation''), (''complexity'', level_json (qa_complexity a)),
                       (''recommendations'', JArr [])])"

definition optimizations_part :: "string + OptimizationResult \<Rightarrow> json" where
  "optimizations_part optimization =
     (case optimization of
        Inr r \<Rightarrow> JArr (map (\<lambda>s. JObj [(''query'', JStr (if present (os_optimizedQuery s) then the (os_optimizedQuery s) else or_query r)),
            (''explanation'', JStr (if os_reason s \<noteq> [] then os_reason s else os_suggestion s)), (''confidence'', JNum 8 1)]) (or_suggestions r))
      | Inl e \<Rightarrow> JArr [])"

definition usage_text :: "int option \<Rightarrow> string" where
  "usage_text u = (case u of None \<Rightarrow> ''N/A'' | Some i \<Rightarrow> if i = 0 then ''N/A'' else show_int i)"

definition efficiency_part :: "QueryAnalysis \<Rightarrow> string + EfficiencyEstimate \<Rightarrow> json" where
  "efficiency_part a efficiency =
     (case efficiency of
        Inr e \<Rightarrow> object_of [(''score'', Some (int_json (ee_efficiencyScore e))),
            (''estimatedTime'', Some (JStr (show_int (ee_estimatedExecutionTime e) @ ''ms''))),
            (''resourceUsage'', Some (JStr (''CPU: '' @ usage_text (ue_cpu (ee_estimatedResourceUsage e)) @ ''%, Memory: ''
                @ usage_text (ue_memory (ee_estimatedResourceUsage e)) @ ''MB''))),
            (''recommendations'', Some (strings_json (or_default (ee_recommendations e) []))),
            (''complexity'', Some (level_json (qa_complexity a))),
            (''similarQueries'', map_option similar_json (ee_similarQueries e))]
      | Inl e \<Rightarrow> JObj [(''score'', int_json 0), (''estimatedTime'', JStr ''Unknown''), (''resourceUsage'', JStr ''Unknown''),
            (''recommendations'', JArr []), (''complexity'', level_json (qa_complexity a))])"

definition handleAnalyze :: "ApiServices \<Rightarrow> json \<Rightarrow> string + HttpResponse" where
  "handleAnalyze sv data =
     destructure ''query'' data (\<lambda>_.
       (case valid_query data of
          None \<Rightarrow> sendError 400 ''Query is required''
        | Some query \<Rightarrow>
            (let queryAnalysis = analyze query
             in sendJSON 200 (JObj
                  [(''explanation'', explanation_part queryAnalysis
                      (as_explain sv query [(''detailed'', JBool True), (''includeLiveStats'', JBool False)])),
                   (''optimizations'', optimizations_part (as_optimize sv query (JBool True))),
                   (''efficiency'', efficiency_part queryAnalysis (as_estimate sv query (JBool False) (JBool True)))]))))"

text \<open>The requests with a body, and the whole handler: the address is parsed before the \<open>try\<close>.\<close>

definition api_post :: "ApiServices \<Rightarrow> string \<Rightarrow> json \<Rightarrow> string + HttpResponse" where
  "api_post sv path data =
     (if path = ''/api/explanations/explain'' then handleExplain sv data
      else if path = ''/api/optimizations/optimize'' then handleOptimize sv data
      else if path = ''/api/efficiency/estimate'' then handleEfficiency sv data
      else if path = ''/api/analyze'' then handleAnalyze sv data
      else Inr (sendError 404 ''Endpoint not found''))"

definition api_route :: "(string \<Rightarrow> string) \<Rightarrow> ApiServices \<Rightarrow> string \<Rightarrow> HttpRequest \<Rightarrow> string + HttpResponse" where
  "api_route syntax_error sv path req =
     (if rq_method req = ''POST''
      then (case readBody req of
              Inl e \<Rightarrow> Inl e
            | Inr body \<Rightarrow> (case json_parse body of None \<Rightarrow> Inl (syntax_error body) | Some data \<Rightarrow> api_post sv path data))
      else if rq_method req = ''GET'' \<and> path = ''/health''
      then Inr (sendJSON 200 (JObj [(''status'', JStr ''ok''), (''service'', JStr ''graphq-llm-api'')]))
      else Inr (sendError 405 ''Method not allowed''))"

definition api_handleRequest :: "(string \<Rightarrow> string) \<Rightarrow> ApiServices \<Rightarrow> HttpRequest \<Rightarrow> outcome" where
  "api_handleRequest syntax_error sv req =
     (if rq_method req = ''OPTIONS'' then Responds \<lparr>rp_status = 200, rp_body = None\<rparr>
      else case rq_pathname req of
             None \<Rightarrow> UnhandledRejection ''Invalid URL''
           | Some path \<Rightarrow>
               (case api_route syntax_error sv path req of
                  Inr resp \<Rightarrow> Responds resp
                | Inl e \<Rightarrow> Responds (sendError 500 e)))"


section \<open>Every request is answered\<close>

lemmas handler_defs = handleExplain_def handleOptimize_def handleEfficiency_def handleAnalyze_def destructure_def sendError_def sendJSON_def

text \<open>What a handler for a body answers.\<close>

definition proper :: "json \<Rightarrow> HttpResponse \<Rightarrow> bool" where
  "proper data r \<longleftrightarrow> (rp_status r = 200 \<and> valid_query data \<noteq> None)
     \<or> (rp_status r \<in> {400, 404, 500} \<and> (\<exists>m. rp_body r = Some (stringify (error_body m))))"

lemma api_post_proper: "api_post sv path data = Inr r \<Longrightarrow> proper data r"
  by (auto simp: api_post_def handler_defs proper_def Let_def split: if_splits option.splits sum.splits)

text \<open>
  C28. A request whose address is valid always gets a response, with one of five status codes. Unless
  the status is 200 its body is an error object, and 200 for a \<open>POST\<close> means that the body was JSON with
  a query that is a string and not empty.
\<close>

theorem api_answers:
  assumes "rq_pathname req = Some path" "rq_method req \<noteq> ''OPTIONS''"
  shows "\<exists>r. api_handleRequest err sv req = Responds r \<and> rp_status r \<in> {200, 400, 404, 405, 500}
    \<and> (rp_status r = 200 \<or> (\<exists>m. rp_body r = Some (stringify (error_body m))))
    \<and> (rp_status r = 200 \<and> rq_method req = ''POST'' \<longrightarrow>
        (\<exists>data. json_parse (concat (rq_chunks req)) = Some data \<and> valid_query data \<noteq> None))"
proof -
  have *: "\<exists>r. api_handleRequest err sv req = Responds r \<and> (proper data r \<or> rp_status r = 500 \<and> (\<exists>m. rp_body r = Some (stringify (error_body m))))"
    if "rq_method req = ''POST''" "rq_broken req = None" "json_parse (concat (rq_chunks req)) = Some data" for data
    using that assms api_post_proper [of sv path data]
    by (cases "api_post sv path data") (auto simp: api_handleRequest_def api_route_def readBody_def sendError_def sendJSON_def)
  show ?thesis
  proof (cases "rq_method req = ''POST'' \<and> rq_broken req = None \<and> json_parse (concat (rq_chunks req)) \<noteq> None")
    case True
    then obtain data where d: "json_parse (concat (rq_chunks req)) = Some data" by blast
    from True * [OF _ _ d] show ?thesis by (auto simp: proper_def d)
  next
    case False
    then show ?thesis using assms
      by (auto simp: api_handleRequest_def api_route_def readBody_def sendError_def sendJSON_def split: option.splits)
  qed
qed


definition api_request :: "string \<Rightarrow> json \<Rightarrow> HttpRequest" where
  "api_request path body = \<lparr>rq_method = ''POST'', rq_pathname = Some path, rq_chunks = [stringify body], rq_broken = None\<rparr>"

definition failing_services :: ApiServices where
  "failing_services = \<lparr>as_explain = (\<lambda>q os. Inl ''down''), as_optimize = (\<lambda>q b. Inl ''down''), as_estimate = (\<lambda>q a b. Inl ''down'')\<rparr>"

theorem api_answers_witness:
  "\<exists>r. api_handleRequest (\<lambda>b. b) failing_services (api_request ''/api/analyze'' (JObj [(''query'', JStr ''{ a }'')])) = Responds r
     \<and> rp_status r \<in> {200, 400, 404, 405, 500}"
  using api_answers [of "api_request ''/api/analyze'' (JObj [(''query'', JStr ''{ a }'')])" "''/api/analyze''" "\<lambda>b. b" failing_services]
  by (auto simp: api_request_def)

text \<open>
  The combined analysis of a query is always answered with 200 and the three parts, also when some
  or all of the services fail; the complexity in it is the analyzer's.
\<close>

theorem api_analyze_degrades:
  assumes "q \<noteq> []"
  shows "\<exists>e ss f. api_handleRequest err sv (api_request ''/api/analyze'' (JObj [(''query'', JStr q)]))
      = Responds (respond 200 (JObj [(''explanation'', e), (''optimizations'', JArr ss), (''efficiency'', f)]))
    \<and> has_member ''complexity'' (\<lambda>c. c = level_json (qa_complexity (analyze q))) e
    \<and> has_member ''complexity'' (\<lambda>c. c = level_json (qa_complexity (analyze q))) f
    \<and> (as_optimize sv q (JBool True) = Inl m \<longrightarrow> ss = [])
    \<and> (as_estimate sv q (JBool False) (JBool True) = Inl m \<longrightarrow> has_member ''score'' (\<lambda>s. s = JNum 0 0) f)"
proof -
  have p: "json_parse (stringify (JObj [(''query'', JStr q)])) = Some (JObj [(''query'', JStr q)])" by (rule parse_stringify) simp
  obtain os where os: "optimizations_part (as_optimize sv q (JBool True)) = JArr os"
      "as_optimize sv q (JBool True) = Inl m \<longrightarrow> os = []"
    by (cases "as_optimize sv q (JBool True)") (auto simp: optimizations_part_def)
  have 1: "has_member ''complexity'' (\<lambda>c. c = level_json (qa_complexity (analyze q))) (explanation_part (analyze q) x)" for x
    by (auto simp: explanation_part_def split: sum.split)
  have 2: "has_member ''complexity'' (\<lambda>c. c = level_json (qa_complexity (analyze q))) (efficiency_part (analyze q) x)" for x
    by (auto simp: efficiency_part_def split: sum.split)
  have 3: "has_member ''score'' (\<lambda>s. s = JNum 0 0) (efficiency_part (analyze q) (Inl m))"
    by (simp add: efficiency_part_def int_json_def)
  let ?x = "as_explain sv q [(''detailed'', JBool True), (''includeLiveStats'', JBool False)]"
  have "api_handleRequest err sv (api_request ''/api/analyze'' (JObj [(''query'', JStr q)]))
      = Responds (respond 200 (JObj [(''explanation'', explanation_part (analyze q) ?x), (''optimizations'', JArr os),
          (''efficiency'', efficiency_part (analyze q) (as_estimate sv q (JBool False) (JBool True)))]))"
    using assms p os(1)
    by (simp add: api_handleRequest_def api_route_def api_request_def readBody_def api_post_def handler_defs valid_query_def opt_member_def Let_def)
  then show ?thesis using os(2) 1 [of ?x] 2 [of "as_estimate sv q (JBool False) (JBool True)"] 3 by metis
qed

theorem api_analyze_degrades_witness:
  "\<exists>e ss f. api_handleRequest (\<lambda>b. b) failing_services (api_request ''/api/analyze'' (JObj [(''query'', JStr ''{ a }'')]))
      = Responds (respond 200 (JObj [(''explanation'', e), (''optimizations'', JArr ss), (''efficiency'', f)])) \<and> ss = []
      \<and> has_member ''score'' (\<lambda>s. s = JNum 0 0) f"
  using api_analyze_degrades [of "''{ a }''" "\<lambda>b. b" failing_services "''down''"] by (auto simp: failing_services_def)


section \<open>The modelled services behind the interface\<close>

text \<open>The options of \<open>explain\<close> as the service reads them: any value counts by its truth.\<close>

definition option_flag :: "string \<Rightarrow> (string \<times> json) list \<Rightarrow> bool option" where
  "option_flag name opts = map_option (\<lambda>j. is_truthy (Some j)) (map_of opts name)"

fun optimize_message :: "optimize_error \<Rightarrow> string" where
  "optimize_message (RetrievalRejected e) = ''Failed to retrieve context''"
| "optimize_message (CompletionRejected e) = e"

text \<open>
  The services over their dependencies, for one state of the vector store. A result that
  \<open>explain\<close> takes from its cache or from an execution in progress is one of these results.
\<close>

definition model_services :: "ExplainDeps \<Rightarrow> list_body api_response \<Rightarrow> list_body api_response \<Rightarrow> int \<Rightarrow> bool \<Rightarrow> VectorStore \<Rightarrow> ApiServices" where
  "model_services d recent stats now liveMode vs =
     \<lparr>as_explain = (\<lambda>q opts. Inr (fst (executeExplain d q
          \<lparr>eo_detailed = option_flag ''detailed'' opts, eo_includeLiveStats = option_flag ''includeLiveStats'' opts,
           eo_maxContextChunks = None, eo_minSimilarity = None\<rparr> vs))),
      as_optimize = (\<lambda>q similar. map_sum optimize_message id (fst (optimize d recent now q
          \<lparr>oo_includeSimilarQueries = Some (is_truthy (Some similar)), oo_maxContextChunks = None, oo_minSimilarity = None\<rparr> vs))),
      as_estimate = (\<lambda>q live similar. Inr (estimateEfficiency (xd_resLens d) liveMode now stats q
          \<lparr>eo_includeSimilarQueries = Some (is_truthy (Some similar)), eo_useLiveStats = Some (is_truthy (Some live))\<rparr>))\<rparr>"

text \<open>
  With these services a request for an explanation of a query is answered with 200 in every state of
  the dependencies: retrieval, model and metrics may all fail.
\<close>

theorem api_explain_available:
  "\<exists>r. api_handleRequest err (model_services d recent stats now liveMode vs)
        (api_request ''/api/explanations/explain'' (JObj [(''query'', JStr (c # q))]))
      = Responds (respond 200 (JObj (explanation_json r @ [(''complexity'', level_json (qa_complexity (analyze (c # q)))),
          (''fieldCount'', int_json (int (qa_fieldCount (analyze (c # q))))), (''depth'', int_json (int (qa_depth (analyze (c # q)))))])))
    \<and> r = fst (executeExplain d (c # q) \<lparr>eo_detailed = Some True, eo_includeLiveStats = Some False, eo_maxContextChunks = None, eo_minSimilarity = None\<rparr> vs)"
proof -
  have "json_parse (stringify (JObj [(''query'', JStr (c # q))])) = Some (JObj [(''query'', JStr (c # q))])" by (rule parse_stringify) simp
  then show ?thesis
    by (simp add: api_handleRequest_def api_route_def api_request_def readBody_def api_post_def handler_defs valid_query_def
        opt_member_def nullish_def model_services_def option_flag_def Let_def)
qed

text \<open>
  A body that is not JSON is reported as 500, also for an unknown address, and an address that the
  \<open>URL\<close> class refuses is never answered.
\<close>

theorem api_bad_requests:
  "rq_method req = ''POST'' \<Longrightarrow> rq_pathname req = Some path \<Longrightarrow> rq_broken req = None \<Longrightarrow> json_parse (concat (rq_chunks req)) = None \<Longrightarrow>
     api_handleRequest err sv req = Responds (sendError 500 (err (concat (rq_chunks req))))"
  "rq_method req \<noteq> ''OPTIONS'' \<Longrightarrow> rq_pathname req = None \<Longrightarrow> api_handleRequest err sv req = UnhandledRejection ''Invalid URL''"
  by (simp_all add: api_handleRequest_def api_route_def readBody_def)

end
