(* ===== verification/Mcp_Server.thy ===== *)
theory Mcp_Server
  imports Api_Server
begin

text \<open>
  Model of \<open>mcp/server.ts\<close>: the tools and resources that the MCP server offers, the dispatch of a call
  with its checks, and the text of every answer and error. The transport is the MCP package. The
  services are those of the HTTP interface; what they do with a query that is not a string is an
  argument. The theory shows that every call is answered and compares the dispatch with the
  published tool descriptions.
\<close>

section \<open>Tools\<close>

text \<open>A tool: its name, description, properties with type and description, and required properties.\<close>

record Tool =
  tl_name :: string
  tl_description :: string
  tl_properties :: "(string \<times> string \<times> string) list"
  tl_required :: "string list"

definition tool_check_connection :: Tool where
  "tool_check_connection =
     \<lparr>tl_name = ''check_connection'',
      tl_description = ''Check the health and connectivity of the ResilientDB GraphQL endpoint.'' @ nl @ ''          '' @ nl @ ''Example usage:'' @ nl
        @ ''{'' @ nl @ ''  // No parameters required'' @ nl @ ''}'' @ nl @ nl
        @ ''Returns connection status, endpoint URL, response time, and any errors.'',
      tl_properties = [],
      tl_required = []\<rparr>"

definition tool_execute_graphql_query :: Tool where
  "tool_execute_graphql_query =
     \<lparr>tl_name = ''execute_graphql_query'',
      tl_description = ''Execute a GraphQL query against ResilientDB.'' @ nl @ ''          '' @ nl @ ''Example usage:'' @ nl @ ''{'' @ nl @ ''  ''
        @ [CHR 0x22] @ ''query'' @ [CHR 0x22] @ '': '' @ [CHR 0x22] @ ''{ getTransaction(id: '' @ [CHR 0x22] @ ''123'' @ [CHR 0x22]
        @ '') { asset } }'' @ [CHR 0x22] @ '','' @ nl @ ''  '' @ [CHR 0x22] @ ''variables'' @ [CHR 0x22] @ '': {},'' @ nl @ ''  '' @ [CHR 0x22]
        @ ''operationName'' @ [CHR 0x22] @ '': '' @ [CHR 0x22] @ ''GetTransaction'' @ [CHR 0x22] @ nl @ ''}'' @ nl @ nl
        @ ''Returns the query result as JSON.'',
      tl_properties = [(''query'', ''string'', ''GraphQL query string (required)''),
        (''variables'', ''object'', ''Query variables (optional)''),
        (''operationName'', ''string'', ''Operation name (optional)'')],
      tl_required = [''query'']\<rparr>"

definition tool_introspect_schema :: Tool where
  "tool_introspect_schema =
     \<lparr>tl_name = ''introspect_schema'',
      tl_description = ''Get the complete GraphQL schema from ResilientDB, including all types, queries, and mutations.'' @ nl @ ''          '' @ nl
        @ ''Example usage:'' @ nl @ ''{'' @ nl @ ''  // No parameters required'' @ nl @ ''}'' @ nl @ nl
        @ ''Returns the full schema structure including query types, mutation types, and all available fields.'',
      tl_properties = [],
      tl_required = []\<rparr>"

definition tool_get_query_metrics :: Tool where
  "tool_get_query_metrics =
     \<lparr>tl_name = ''get_query_metrics'',
      tl_description = ''Get execution metrics for a specific query from ResLens.'' @ nl @ ''          '' @ nl @ ''Example usage:'' @ nl @ ''{'' @ nl
        @ ''  '' @ [CHR 0x22] @ ''queryId'' @ [CHR 0x22] @ '': '' @ [CHR 0x22] @ ''query-123-abc'' @ [CHR 0x22] @ nl @ ''}'' @ nl @ nl
        @ ''Returns metrics including execution time, success status, timestamp, and any additional performance data.'',
      tl_properties = [(''queryId'', ''string'', ''Query ID to retrieve metrics for (required)'')],
      tl_required = [''queryId'']\<rparr>"

definition tool_validate_query :: Tool where
  "tool_validate_query =
     \<lparr>tl_name = ''validate_query'',
      tl_description = ''Validate a GraphQL query syntax before execution.'' @ nl @ ''          '' @ nl @ ''Example usage:'' @ nl @ ''{'' @ nl @ ''  ''
        @ [CHR 0x22] @ ''query'' @ [CHR 0x22] @ '': '' @ [CHR 0x22] @ ''{ getTransaction(id: '' @ [CHR 0x22] @ ''123'' @ [CHR 0x22]
        @ '') { asset } }'' @ [CHR 0x22] @ nl @ ''}'' @ nl @ nl @ ''Returns validation result with any syntax errors found.'',
      tl_properties = [(''query'', ''string'', ''GraphQL query to validate (required)'')],
      tl_required = [''query'']\<rparr>"

definition tool_estimate_query_efficiency :: Tool where
  "tool_estimate_query_efficiency =
     \<lparr>tl_name = ''estimate_query_efficiency'',
      tl_description = ''Estimate query performance and efficiency using structural analysis and ResLens metrics.'' @ nl @ ''          '' @ nl
        @ ''Example usage:'' @ nl @ ''{'' @ nl @ ''  '' @ [CHR 0x22] @ ''query'' @ [CHR 0x22] @ '': '' @ [CHR 0x22] @ ''{ getTransaction(id: ''
        @ [CHR 0x22] @ ''123'' @ [CHR 0x22] @ '') { asset } }'' @ [CHR 0x22] @ '','' @ nl @ ''  '' @ [CHR 0x22] @ ''includeSimilarQueries''
        @ [CHR 0x22] @ '': true,'' @ nl @ ''  '' @ [CHR 0x22] @ ''useLiveStats'' @ [CHR 0x22] @ '': false'' @ nl @ ''}'' @ nl @ nl
        @ ''Returns efficiency score (0-100), predicted execution time, resource usage, and optimization recommendations.'',
      tl_properties = [(''query'', ''string'', ''GraphQL query to estimate (required)''),
        (''includeSimilarQueries'', ''boolean'', ''Include similar queries in estimation (default: true)''),
        (''useLiveStats'', ''boolean'', ''Use Live Mode stats if available (default: false)'')],
      tl_required = [''query'']\<rparr>"

definition tool_get_live_stats :: Tool where
  "tool_get_live_stats =
     \<lparr>tl_name = ''get_live_stats'',
      tl_description = ''Get real-time statistics from ResLens (Live Mode).'' @ nl @ ''          '' @ nl @ ''Example usage:'' @ nl @ ''{'' @ nl @ ''  ''
        @ [CHR 0x22] @ ''queryPattern'' @ [CHR 0x22] @ '': '' @ [CHR 0x22] @ ''getTransaction'' @ [CHR 0x22] @ nl @ ''}'' @ nl @ nl
        @ ''Returns current throughput, cache hit ratio, recent queries, and system metrics. Requires ResLens Live Mode to be enabled.'',
      tl_properties = [(''queryPattern'', ''string'', ''Optional query pattern to filter stats (optional)'')],
      tl_required = []\<rparr>"

definition tool_explain_query :: Tool where
  "tool_explain_query =
     \<lparr>tl_name = ''explain_query'',
      tl_description = ''Generate an AI-powered explanation of a GraphQL query using RAG (Retrieval-Augmented Generation).'' @ nl @ ''          '' @ nl
        @ ''Example usage:'' @ nl @ ''{'' @ nl @ ''  '' @ [CHR 0x22] @ ''query'' @ [CHR 0x22] @ '': '' @ [CHR 0x22] @ ''{ getTransaction(id: ''
        @ [CHR 0x22] @ ''123'' @ [CHR 0x22] @ '') { asset } }'' @ [CHR 0x22] @ '','' @ nl @ ''  '' @ [CHR 0x22] @ ''detailed'' @ [CHR 0x22]
        @ '': true,'' @ nl @ ''  '' @ [CHR 0x22] @ ''includeLiveStats'' @ [CHR 0x22] @ '': false'' @ nl @ ''}'' @ nl @ nl
        @ ''Returns a natural language explanation of what the query does, how it works, and its purpose. Uses RAG to retrieve relevant documentation context.'',
      tl_properties = [(''query'', ''string'', ''GraphQL query to explain (required)''),
        (''detailed'', ''boolean'', ''Generate detailed explanation (default: false)''),
        (''includeLiveStats'', ''boolean'', ''Include live ResLens statistics (default: false)'')],
      tl_required = [''query'']\<rparr>"

definition tool_optimize_query :: Tool where
  "tool_optimize_query =
     \<lparr>tl_name = ''optimize_query'',
      tl_description = ''Generate AI-powered optimization suggestions for a GraphQL query.'' @ nl @ ''          '' @ nl @ ''Example usage:'' @ nl @ ''{''
        @ nl @ ''  '' @ [CHR 0x22] @ ''query'' @ [CHR 0x22] @ '': '' @ [CHR 0x22] @ ''{ getTransaction(id: '' @ [CHR 0x22] @ ''123''
        @ [CHR 0x22] @ '') { asset } }'' @ [CHR 0x22] @ '','' @ nl @ ''  '' @ [CHR 0x22] @ ''includeSimilarQueries'' @ [CHR 0x22] @ '': true''
        @ nl @ ''}'' @ nl @ nl
        @ ''Returns actionable optimization suggestions, performance comparisons with similar queries, and specific recommendations for improvement.'',
      tl_properties = [(''query'', ''string'', ''GraphQL query to optimize (required)''),
        (''includeSimilarQueries'', ''boolean'', ''Include similar queries for comparison (default: true)'')],
      tl_required = [''query'']\<rparr>"

definition tools :: "Tool list" where
  "tools = [tool_check_connection, tool_execute_graphql_query, tool_introspect_schema, tool_get_query_metrics, tool_validate_query, tool_estimate_query_efficiency, tool_get_live_stats, tool_explain_query, tool_optimize_query]"


section \<open>The server\<close>

text \<open>
  The clients of the server: the GraphQL endpoint with its address, the clock before and after a
  request, the ResLens client with the replies of its API, the live statistics with the reply to a
  request for recent queries, the services, and their result for a query that is not a string.
\<close>

record MCPServer =
  mc_endpoint :: gql_endpoint
  mc_url :: string
  mc_startTime :: int
  mc_endTime :: int
  mc_resLens :: ResLensClient
  mc_metricsReply :: "QueryExecutionMetrics api_response"
  mc_recentReply :: "list_body api_response"
  mc_live :: LiveStatsService
  mc_liveReply :: "list_body api_response"
  mc_services :: ApiServices
  mc_untyped :: "string \<Rightarrow> json option \<Rightarrow> string + json"
  mc_stack :: "string \<Rightarrow> string option"

record ToolResult =
  tr_text :: string
  tr_isError :: bool

definition text_result :: "string \<Rightarrow> ToolResult" where
  "text_result t = \<lparr>tr_text = t, tr_isError = False\<rparr>"

definition error_result :: "string \<Rightarrow> ToolResult" where
  "error_result t = \<lparr>tr_text = t, tr_isError = True\<rparr>"

definition json_result :: "json \<Rightarrow> ToolResult" where
  "json_result j = text_result (stringify_indented j)"

definition noArgTools :: "string list" where
  "noArgTools = [''check_connection'', ''introspect_schema'']"

definition missing_arguments :: "string \<Rightarrow> string" where
  "missing_arguments name =
     ''Error: Missing arguments for tool '' @ [CHR 0x27] @ name @ '''.'' @ nl @ nl
      @ ''This tool requires arguments but none were provided.'' @ nl
      @ ''Please check the tool's input schema and provide the required parameters.'' @ nl @ nl @ ''Tool: '' @ name @ nl
      @ ''Suggestion: Review the tool description for required parameters.''"

definition invalid_query :: string where
  "invalid_query =
     ''Error: Missing or invalid 'query' parameter.'' @ nl @ nl @ ''This tool requires a valid GraphQL query string.'' @ nl
      @ ''Please provide a properly formatted GraphQL query.'' @ nl @ nl @ ''Tool: execute_graphql_query'' @ nl
      @ ''Required parameter: query (string)'' @ nl @ ''Example: { '' @ [CHR 0x22] @ ''query'' @ [CHR 0x22] @ '': '' @ [CHR 0x22]
      @ ''{ getTransaction(id: '' @ [CHR 0x22] @ ''123'' @ [CHR 0x22] @ '') { asset } }'' @ [CHR 0x22] @ '' }'' @ nl
      @ ''Suggestion: Check your query syntax and ensure it's a valid GraphQL query.''"

definition missing_queryId :: string where
  "missing_queryId =
     ''Error: Missing required parameter 'queryId'.'' @ nl @ nl @ ''This tool requires a query ID to retrieve metrics.'' @ nl
      @ ''Please provide a valid query ID that was returned from a previous query execution.'' @ nl @ nl @ ''Tool: get_query_metrics'' @ nl
      @ ''Required parameter: queryId (string)'' @ nl @ ''Suggestion: Use a query ID from a previous execute_graphql_query call.''"

definition no_metrics_found :: "string \<Rightarrow> string" where
  "no_metrics_found queryId =
     ''No metrics found for query ID: '' @ queryId @ nl @ nl @ ''This query ID does not exist in ResLens metrics storage.'' @ nl
      @ ''Possible reasons:'' @ nl @ ''- The query was never executed'' @ nl @ ''- The query ID is incorrect'' @ nl
      @ ''- ResLens is not capturing metrics for this query'' @ nl @ ''- ResLens API is not configured or unavailable'' @ nl @ nl
      @ ''Query ID: '' @ queryId @ nl @ ''Suggestion: Verify the query ID or check if ResLens is properly configured.''"

definition unknown_tool :: "string \<Rightarrow> string" where
  "unknown_tool name =
     ''Error: Unknown tool '' @ [CHR 0x27] @ name @ '''.'' @ nl @ nl @ ''This tool is not recognized or not available.'' @ nl
      @ ''Please check the list of available tools using the list_tools command.'' @ nl @ nl @ ''Tool requested: '' @ name @ nl
      @ ''Suggestion: Verify the tool name spelling or check available tools.''"

section \<open>Tool calls\<close>

text \<open>The arguments of a call are an object, or absent.\<close>

type_synonym tool_args = "(string \<times> json) list option"

definition args_json :: "tool_args \<Rightarrow> json option" where
  "args_json args = map_option JObj args"

definition arg :: "string \<Rightarrow> tool_args \<Rightarrow> json option" where
  "arg name args = opt_member name (args_json args)"

text \<open>What a branch of the switch gives: an error that it throws, or a result.\<close>

type_synonym tool_outcome = "string + ToolResult"

definition missing_args_result :: ToolResult where
  "missing_args_result = text_result ''Error: Missing arguments''"

text \<open>A tool that takes a query: its body for a string, and what the service does with anything else.\<close>

definition with_query :: "MCPServer \<Rightarrow> string \<Rightarrow> tool_args \<Rightarrow> (string \<Rightarrow> string + json) \<Rightarrow> tool_outcome" where
  "with_query s name args f =
     (if args = None then Inr missing_args_result
      else map_sum id json_result (case arg ''query'' args of Some (JStr q) \<Rightarrow> f q | x \<Rightarrow> mc_untyped s name x))"

definition tool_connection :: "MCPServer \<Rightarrow> tool_outcome" where
  "tool_connection s = Inr (json_result (connection_json (checkConnection (mc_endpoint s) (mc_url s) (mc_startTime s) (mc_endTime s))))"

definition tool_execute :: "MCPServer \<Rightarrow> tool_args \<Rightarrow> tool_outcome" where
  "tool_execute s args =
     (if args = None then Inr missing_args_result
      else case arg ''query'' args of
             Some (JStr q) \<Rightarrow>
               (if q = [] then Inr (error_result invalid_query)
                else map_sum id json_result (executeQuery (mc_endpoint s)
                  \<lparr>gq_query = q, gq_variables = arg ''variables'' args,
                   gq_operationName = (let x = arg ''operationName'' args in if is_truthy x then map_option to_text x else None)\<rparr>))
           | _ \<Rightarrow> Inr (error_result invalid_query))"

definition tool_introspect :: "MCPServer \<Rightarrow> tool_outcome" where
  "tool_introspect s = map_sum id (\<lambda>sx. json_result (schema_json sx)) (introspectSchema (mc_endpoint s))"

text \<open>The local store of metrics has string keys, so another value is never found in it.\<close>

definition metrics_for :: "MCPServer \<Rightarrow> json \<Rightarrow> QueryExecutionMetrics option" where
  "metrics_for s queryId =
     (case queryId of
        JStr q \<Rightarrow> getMetrics (mc_resLens s) (mc_metricsReply s) q
      | v \<Rightarrow> getMetrics (clearStorage (mc_resLens s)) (mc_metricsReply s) (to_text v))"

definition tool_metrics :: "MCPServer \<Rightarrow> tool_args \<Rightarrow> tool_outcome" where
  "tool_metrics s args =
     (if args = None then Inr missing_args_result
      else (let queryId = arg ''queryId'' args
            in if \<not> is_truthy queryId then Inr (error_result missing_queryId)
               else case metrics_for s (the queryId) of
                      None \<Rightarrow> Inr (error_result (no_metrics_found (to_text (the queryId))))
                    | Some m \<Rightarrow> Inr (json_result (metrics_json m))))"

definition tool_validate :: "MCPServer \<Rightarrow> tool_args \<Rightarrow> tool_outcome" where
  "tool_validate s args =
     with_query s ''validate_query'' args (\<lambda>q. Inr (validation_json (validateQuery (mc_endpoint s) q)))"

definition tool_estimate :: "MCPServer \<Rightarrow> tool_args \<Rightarrow> tool_outcome" where
  "tool_estimate s args =
     with_query s ''estimate_query_efficiency'' args (\<lambda>q. map_sum id (\<lambda>e. object_of (estimate_json e))
       (as_estimate (mc_services s) q (nullish (arg ''useLiveStats'' args) (JBool False))
          (nullish (arg ''includeSimilarQueries'' args) (JBool True))))"

text \<open>
  \<open>{ ...stats, recentQueries }\<close>: before the first poll the statistics have no such property, so
  it comes last.
\<close>

definition with_recent :: "LiveStats \<Rightarrow> QueryExecutionMetrics list \<Rightarrow> json" where
  "with_recent stats queries =
     (if lt_recentQueries stats = None
      then object_of (live_stats_json stats @ [(''recentQueries'', Some (JArr (map metrics_json queries)))])
      else object_of (live_stats_json (stats\<lparr>lt_recentQueries := Some queries\<rparr>)))"

definition tool_live_stats :: "MCPServer \<Rightarrow> tool_args \<Rightarrow> tool_outcome" where
  "tool_live_stats s args =
     (let queryPattern = arg ''queryPattern'' args; stats = lv_cachedStats (mc_live s)
      in if is_truthy queryPattern
         then Inr (json_result (with_recent stats
                (live_getRecentQueries (mc_live s) (mc_endTime s) (mc_liveReply s) (Some (to_text (the queryPattern))) None)))
         else Inr (json_result (object_of (live_stats_json stats))))"

definition tool_explain :: "MCPServer \<Rightarrow> tool_args \<Rightarrow> tool_outcome" where
  "tool_explain s args =
     with_query s ''explain_query'' args (\<lambda>q. map_sum id (\<lambda>r. JObj (explanation_json r))
       (as_explain (mc_services s) q [(''detailed'', nullish (arg ''detailed'' args) (JBool False)),
          (''includeLiveStats'', nullish (arg ''includeLiveStats'' args) (JBool False))]))"

definition tool_optimize :: "MCPServer \<Rightarrow> tool_args \<Rightarrow> tool_outcome" where
  "tool_optimize s args =
     with_query s ''optimize_query'' args (\<lambda>q. map_sum id optimization_json
       (as_optimize (mc_services s) q (nullish (arg ''includeSimilarQueries'' args) (JBool True))))"

definition dispatch :: "MCPServer \<Rightarrow> string \<Rightarrow> tool_args \<Rightarrow> tool_outcome" where
  "dispatch s name args =
     (if name = ''check_connection'' then tool_connection s
      else if name = ''execute_graphql_query'' then tool_execute s args
      else if name = ''introspect_schema'' then tool_introspect s
      else if name = ''get_query_metrics'' then tool_metrics s args
      else if name = ''validate_query'' then tool_validate s args
      else if name = ''estimate_query_efficiency'' then tool_estimate s args
      else if name = ''get_live_stats'' then tool_live_stats s args
      else if name = ''explain_query'' then tool_explain s args
      else if name = ''optimize_query'' then tool_optimize s args
      else Inr (error_result (unknown_tool name)))"

text \<open>The text of the \<open>catch\<close> block; the stack is present in development mode only.\<close>

definition suggestion_for :: "string \<Rightarrow> string" where
  "suggestion_for m =
     nl @ nl @
     (if str_includes m ''connection'' \<or> str_includes m ''ECONNREFUSED''
      then ''Suggestion: Check if ResilientDB is running and accessible. Use '' @ [CHR 0x27] @ ''check_connection'' @ [CHR 0x27]
           @ '' tool to verify connectivity.''
      else if str_includes m ''syntax'' \<or> str_includes m ''parse''
      then ''Suggestion: Validate your query syntax using the '' @ [CHR 0x27] @ ''validate_query'' @ [CHR 0x27] @ '' tool before execution.''
      else if str_includes m ''authentication'' \<or> str_includes m ''401'' \<or> str_includes m ''403''
      then ''Suggestion: Check your API key and authentication credentials.''
      else ''Suggestion: Review the tool'' @ [CHR 0x27] @ ''s requirements and ensure all parameters are correctly formatted.'')"

definition failure_text :: "MCPServer \<Rightarrow> string \<Rightarrow> tool_args \<Rightarrow> string \<Rightarrow> string" where
  "failure_text s name args m =
     ''Error executing tool '' @ [CHR 0x27] @ name @ [CHR 0x27] @ '': '' @ m
     @ (case args of
          None \<Rightarrow> []
        | Some ps \<Rightarrow> nl @ nl @ ''Context:'' @ nl @ ''Tool: '' @ name @ nl @ ''Arguments provided: '' @ stringify_indented (JObj ps))
     @ suggestion_for m
     @ (case mc_stack s m of None \<Rightarrow> [] | Some st \<Rightarrow> if st = [] then [] else nl @ nl @ ''Stack trace:'' @ nl @ st)"

definition callTool :: "MCPServer \<Rightarrow> string \<Rightarrow> tool_args \<Rightarrow> ToolResult" where
  "callTool s name args =
     (if args = None \<and> name \<notin> set noArgTools then error_result (missing_arguments name)
      else case dispatch s name args of
             Inr r \<Rightarrow> r
           | Inl m \<Rightarrow> error_result (failure_text s name args m))"


section \<open>Resources\<close>

record Resource =
  rs_uri :: string
  rs_name :: string
  rs_description :: string
  rs_mimeType :: string

definition resources :: "Resource list" where
  "resources =
     [\<lparr>rs_uri = ''resilientdb://schema'', rs_name = ''ResilientDB GraphQL Schema'',
       rs_description = ''Current GraphQL schema from ResilientDB, including all types, queries, and mutations'',
       rs_mimeType = ''application/json''\<rparr>,
      \<lparr>rs_uri = ''reslens://metrics'', rs_name = ''ResLens Metrics'',
       rs_description = ''Recent query execution metrics from ResLens (last 10 queries)'', rs_mimeType = ''application/json''\<rparr>,
      \<lparr>rs_uri = ''reslens://live-stats'', rs_name = ''ResLens Live Statistics'',
       rs_description = ''Real-time statistics from ResLens Live Mode (throughput, cache hit ratio, system metrics)'',
       rs_mimeType = ''application/json''\<rparr>,
      \<lparr>rs_uri = ''resilientdb://connection-status'', rs_name = ''ResilientDB Connection Status'',
       rs_description = ''Current connection health status, endpoint URL, and response time'', rs_mimeType = ''application/json''\<rparr>]"

record ResourceContent =
  rc_uri :: string
  rc_mimeType :: string
  rc_text :: string

record ResourceResult =
  rr_contents :: "ResourceContent list"
  rr_isError :: bool

definition json_resource :: "string \<Rightarrow> json \<Rightarrow> ResourceResult" where
  "json_resource uri j =
     \<lparr>rr_contents = [\<lparr>rc_uri = uri, rc_mimeType = ''application/json'', rc_text = stringify_indented j\<rparr>], rr_isError = False\<rparr>"

definition readResource :: "MCPServer \<Rightarrow> string \<Rightarrow> ResourceResult" where
  "readResource s uri =
     (if uri = ''resilientdb://schema''
      then (case introspectSchema (mc_endpoint s) of
              Inr sx \<Rightarrow> json_resource uri (schema_json sx)
            | Inl m \<Rightarrow> \<lparr>rr_contents = [\<lparr>rc_uri = uri, rc_mimeType = ''text/plain'',
                rc_text = ''Error reading resource '' @ [CHR 0x27] @ uri @ [CHR 0x27] @ '': '' @ m\<rparr>], rr_isError = True\<rparr>)
      else if uri = ''reslens://metrics''
      then json_resource uri (JArr (map metrics_json (getRecentQueries (mc_resLens s) (mc_endTime s) (mc_recentReply s) 10)))
      else if uri = ''reslens://live-stats'' then json_resource uri (object_of (live_stats_json (lv_cachedStats (mc_live s))))
      else if uri = ''resilientdb://connection-status''
      then json_resource uri (connection_json (checkConnection (mc_endpoint s) (mc_url s) (mc_startTime s) (mc_endTime s)))
      else \<lparr>rr_contents = [], rr_isError = True\<rparr>)"


section \<open>Start and stop\<close>

text \<open>\<open>start\<close> with the replies to the health check and to the first poll; and the line that it logs.\<close>

definition mcp_start :: "unit api_response \<Rightarrow> int \<Rightarrow> list_body api_response \<Rightarrow> MCPServer \<Rightarrow> MCPServer \<times> string" where
  "mcp_start health now resp s =
     (let live = first_poll now resp (health_reply health (start_call (mc_live s)))
      in (s\<lparr>mc_live := live\<rparr>, ''Live Stats Service: '' @ (if live_isAvailable live then ''Enabled'' else ''Disabled'')))"

definition mcp_stop :: "MCPServer \<Rightarrow> MCPServer" where
  "mcp_stop s = s\<lparr>mc_live := stopPolling (mc_live s)\<rparr>"


section \<open>The dispatch and the published descriptions\<close>

text \<open>What the text of a result says about the branch that gave it.\<close>

lemmas tool_defs = tool_connection_def tool_execute_def tool_introspect_def tool_metrics_def tool_validate_def tool_estimate_def
  tool_live_stats_def tool_explain_def tool_optimize_def with_query_def json_result_def text_result_def missing_args_result_def

lemmas tool_records = tool_check_connection_def tool_execute_graphql_query_def tool_introspect_schema_def tool_get_query_metrics_def
  tool_validate_query_def tool_estimate_query_efficiency_def tool_get_live_stats_def tool_explain_query_def tool_optimize_query_def

lemma result_sel [simp]:
  "tr_text (error_result t) = t" "tr_isError (error_result t)" "tr_text (text_result t) = t" "\<not> tr_isError (text_result t)"
  "error_result t = error_result u \<longleftrightarrow> t = u" "text_result t \<noteq> error_result u"
  by (simp_all add: error_result_def text_result_def)

lemma failure_not_missing: "failure_text s name args m \<noteq> missing_arguments n" "failure_text s name args m \<noteq> unknown_tool n"
  by (simp_all add: failure_text_def missing_arguments_def unknown_tool_def)

definition tool_names :: "string list" where
  "tool_names = map tl_name tools"

lemma tool_names_eq: "tool_names = [''check_connection'', ''execute_graphql_query'', ''introspect_schema'', ''get_query_metrics'',
   ''validate_query'', ''estimate_query_efficiency'', ''get_live_stats'', ''explain_query'', ''optimize_query'']"
  by (simp add: tool_names_def tools_def tool_records)


text \<open>A flagged result of a published tool carries one of the texts of its own checks.\<close>

lemma dispatch_error:
  assumes "dispatch s name args = Inr r" "tr_isError r" "name \<in> set tool_names"
  shows "tr_text r = invalid_query \<or> tr_text r = missing_queryId \<or> (\<exists>q. tr_text r = no_metrics_found q)"
  using assms
  by (auto simp: dispatch_def tool_names_eq tool_defs error_result_def Let_def map_sum_def
      split: if_splits option.splits json.splits sum.splits)

lemma own_texts: "invalid_query \<noteq> unknown_tool n" "missing_queryId \<noteq> unknown_tool n" "no_metrics_found q \<noteq> unknown_tool n"
  "missing_arguments m \<noteq> unknown_tool n"
  "invalid_query \<noteq> missing_arguments n" "missing_queryId \<noteq> missing_arguments n" "no_metrics_found q \<noteq> missing_arguments n"
  by (simp_all add: invalid_query_def missing_queryId_def no_metrics_found_def unknown_tool_def missing_arguments_def)

lemma known_tool: "name \<in> set tool_names \<Longrightarrow> callTool s name args \<noteq> error_result (unknown_tool n)"
proof (cases "dispatch s name args")
  case (Inl m)
  then show ?thesis using own_texts(4) failure_not_missing(2) by (simp add: callTool_def)
next
  case (Inr r)
  assume n: "name \<in> set tool_names"
  have "r \<noteq> error_result (unknown_tool n)"
  proof
    assume "r = error_result (unknown_tool n)"
    with dispatch_error [OF Inr _ n] own_texts(1-3) [symmetric] show False by auto
  qed
  then show ?thesis using Inr own_texts(4) by (simp add: callTool_def)
qed

text \<open>
  C29. The switch and the published list agree: a call is refused as unknown exactly when it has
  arguments and no tool of the list has the name.
\<close>

theorem mcp_unknown_tool:
  "callTool s name args = error_result (unknown_tool name) \<longleftrightarrow> args \<noteq> None \<and> name \<notin> set (map tl_name tools)"
proof (cases "name \<in> set tool_names")
  case True
  then show ?thesis using known_tool by (simp add: tool_names_def)
next
  case False
  then have "name \<notin> set noArgTools" "dispatch s name args = Inr (error_result (unknown_tool name))"
    by (auto simp: tool_names_eq noArgTools_def dispatch_def)
  then show ?thesis using False own_texts(4) by (auto simp: callTool_def tool_names_def)
qed

text \<open>
  A call without arguments is refused for one published tool that requires none, \<open>get_live_stats\<close>,
  in every state of the server.
\<close>

theorem mcp_optional_refused:
  "filter (\<lambda>t. tl_required t = [] \<and> callTool s (tl_name t) None = error_result (missing_arguments (tl_name t))) tools
     = [tool_get_live_stats]"
proof -
  have 1: "callTool s ''check_connection'' None \<noteq> error_result (missing_arguments n)" for n
    by (simp add: callTool_def dispatch_def noArgTools_def tool_connection_def json_result_def)
  have 2: "callTool s ''introspect_schema'' None \<noteq> error_result (missing_arguments n)" for n
    using failure_not_missing(1)
    by (simp add: callTool_def dispatch_def noArgTools_def tool_introspect_def json_result_def map_sum_def split: sum.split)
  have 3: "callTool s ''get_live_stats'' None = error_result (missing_arguments ''get_live_stats'')"
    by (simp add: callTool_def noArgTools_def)
  show ?thesis by (simp add: tools_def tool_records 1 2 3)
qed

text \<open>
  The text of an executed query is the JSON of the endpoint's answer, which a client reads back; and a
  failure is flagged and its text begins with the endpoint's message, followed by the arguments.
\<close>

theorem mcp_execute_reports:
  assumes "r = callTool s ''execute_graphql_query'' (Some [(''query'', JStr (c # q))])"
  shows "case mc_endpoint s (c # q, Some (JObj []), []) of
      Inr x \<Rightarrow> \<not> tr_isError r \<and> (normal x \<longrightarrow> json_parse (tr_text r) = Some x)
    | Inl e \<Rightarrow> tr_isError r
        \<and> (\<exists>rest. tr_text r = ''Error executing tool '' @ [CHR 0x27] @ ''execute_graphql_query'' @ [CHR 0x27]
            @ '': Failed to execute GraphQL query: '' @ e @ nl @ nl @ ''Context:'' @ rest)"
proof -
  have a: "arg ''query'' (Some [(''query'', JStr (c # q))]) = Some (JStr (c # q))"
    "arg ''variables'' (Some [(''query'', JStr (c # q))]) = None" "arg ''operationName'' (Some [(''query'', JStr (c # q))]) = None"
    by (simp_all add: arg_def args_json_def opt_member_def)
  have d: "dispatch s ''execute_graphql_query'' (Some [(''query'', JStr (c # q))])
      = (case mc_endpoint s (c # q, Some (JObj []), []) of
           Inl e \<Rightarrow> Inl (''Failed to execute GraphQL query: '' @ e) | Inr x \<Rightarrow> Inr (json_result x))"
    by (simp add: dispatch_def tool_execute_def a executeQuery_def or_json_def present_def split: sum.split)
  show ?thesis
  proof (cases "mc_endpoint s (c # q, Some (JObj []), [])")
    case (Inr x)
    then show ?thesis using assms d by (simp add: callTool_def json_result_def indented_roundtrip)
  next
    case (Inl e)
    then have "r = error_result (failure_text s ''execute_graphql_query'' (Some [(''query'', JStr (c # q))]) (''Failed to execute GraphQL query: '' @ e))"
      using assms d by (simp add: callTool_def)
    then show ?thesis using Inl by (simp add: failure_text_def)
  qed
qed

text \<open>A server whose endpoint answers every query with one object and whose services fail.\<close>

definition sample_server :: MCPServer where
  "sample_server =
     \<lparr>mc_endpoint = (\<lambda>_. Inr (JObj [(''a'', JNum 1 0)])), mc_url = ''http://localhost'', mc_startTime = 0, mc_endTime = 5,
      mc_resLens = new_ResLensClient None, mc_metricsReply = ApiThrows, mc_recentReply = ApiThrows,
      mc_live = new_LiveStatsService (new_ResLensClient None) 0 False 0
        \<lparr>po_enabled = None, po_pollInterval = None, po_maxRecentQueries = None, po_queryPattern = None\<rparr>,
      mc_liveReply = ApiThrows, mc_services = failing_services, mc_untyped = (\<lambda>_ _. Inl ''not a string''), mc_stack = (\<lambda>_. None)\<rparr>"

theorem mcp_execute_reports_witness:
  "json_parse (tr_text (callTool sample_server ''execute_graphql_query'' (Some [(''query'', JStr ''{ a }'')]))) = Some (JObj [(''a'', JNum 1 0)])"
  using mcp_execute_reports [OF refl, of sample_server "CHR ''{''" "'' a }''"] by (simp add: sample_server_def)

end
