(* ===== verification/Wallet_Encoding.thy ===== *)
theory Wallet_Encoding
  imports Json_Parse "HOL-Library.Word"
begin

text \<open>
  The encodings of the wallet's background script, \<open>resvault/public/background.js\<close>: Base64 as
  \<open>btoa\<close> and \<open>atob\<close> define it, hexadecimal, and the UTF-8 of \<open>TextEncoder\<close>. Bytes are words of eight
  bits. The theory shows that the wallet's pairs of functions are round trips on all arrays of bytes.
\<close>

section \<open>Bytes and characters\<close>

type_synonym byte = "8 word"

definition byte_char :: "byte \<Rightarrow> char" where
  "byte_char b = char_of (unat b)"

definition char_byte :: "char \<Rightarrow> byte" where
  "char_byte c = word_of_nat (char_code c)"

lemma char_code_less [simp]: "char_code c < 256"
  using of_char_mod_256 [of c] unfolding char_code_def by (metis mod_less_divisor zero_less_numeral)

lemma unat_byte [simp]: "unat (b :: byte) < 256"
  using unsigned_less [of b] by simp

lemma char_byte_char [simp]: "char_byte (byte_char b) = b"
  by (simp add: char_byte_def byte_char_def char_code_char_of)

lemma byte_char_byte [simp]: "byte_char (char_byte c) = c"
  by (simp add: char_byte_def byte_char_def unat_of_nat char_code_def)


section \<open>Base64\<close>

text \<open>The six-bit groups of a sequence of codes, the alphabet, and \<open>btoa\<close>.\<close>

fun sextets :: "nat list \<Rightarrow> nat list" where
  "sextets (a # b # c # r) = [a div 4, a mod 4 * 16 + b div 16, b mod 16 * 4 + c div 64, c mod 64] @ sextets r"
| "sextets [a, b] = [a div 4, a mod 4 * 16 + b div 16, b mod 16 * 4]"
| "sextets [a] = [a div 4, a mod 4 * 16]"
| "sextets [] = []"

definition b64_char :: "nat \<Rightarrow> char" where
  "b64_char n =
     (if n < 26 then char_of (65 + n) else if n < 52 then char_of (71 + n) else if n < 62 then char_of (n - 4)
      else if n = 62 then CHR ''+'' else CHR ''/'')"

definition btoa :: "string \<Rightarrow> string" where
  "btoa s = map b64_char (sextets (map char_code s)) @ replicate ((3 - length s mod 3) mod 3) (CHR ''='')"

text \<open>
  \<open>atob\<close>: white space is dropped, one or two closing equals signs too when they complete a group of
  four, and what remains must be letters of the alphabet, not one more than a multiple of four.
\<close>

definition b64_value :: "char \<Rightarrow> nat option" where
  "b64_value c =
     (let n = char_code c
      in if is_upper_az c then Some (n - 65) else if is_lower_az c then Some (n - 71) else if is_digit c then Some (n + 4)
         else if c = CHR ''+'' then Some 62 else if c = CHR ''/'' then Some 63 else None)"

fun octets :: "nat list \<Rightarrow> nat list" where
  "octets (a # b # c # d # r) = [a * 4 + b div 16, b mod 16 * 16 + c div 4, c mod 4 * 64 + d] @ octets r"
| "octets [a, b, c] = [a * 4 + b div 16, b mod 16 * 16 + c div 4]"
| "octets [a, b] = [a * 4 + b div 16]"
| "octets _ = []"

definition ascii_ws :: "char \<Rightarrow> bool" where
  "ascii_ws c \<longleftrightarrow> c = CHR 0x09 \<or> c = CHR 0x0A \<or> c = CHR 0x0C \<or> c = CHR 0x0D \<or> c = CHR '' ''"

definition drop_last_eq :: "string \<Rightarrow> string" where
  "drop_last_eq s = (if s \<noteq> [] \<and> last s = CHR ''='' then butlast s else s)"

definition atob :: "string \<Rightarrow> string option" where
  "atob s =
     (let t = filter (\<lambda>c. \<not> ascii_ws c) s;
          u = (if length t mod 4 = 0 then drop_last_eq (drop_last_eq t) else t)
      in if length u mod 4 = 1 \<or> \<not> list_all (\<lambda>c. b64_value c \<noteq> None) u then None
         else Some (map char_of (octets (map (\<lambda>c. the (b64_value c)) u))))"

definition arrayBufferToBase64 :: "byte list \<Rightarrow> string" where
  "arrayBufferToBase64 bytes = btoa (map byte_char bytes)"

definition base64ToArrayBuffer :: "string \<Rightarrow> byte list option" where
  "base64ToArrayBuffer base64 = map_option (map char_byte) (atob base64)"

definition uint8ArrayToBase64 :: "byte list \<Rightarrow> string" where
  "uint8ArrayToBase64 bytes = arrayBufferToBase64 bytes"

definition base64ToUint8Array :: "string \<Rightarrow> byte list option" where
  "base64ToUint8Array base64 = base64ToArrayBuffer base64"


section \<open>Hexadecimal\<close>

definition bytesToHex :: "byte list \<Rightarrow> string" where
  "bytesToHex bytes = concat (map (\<lambda>b. [hex_digit (unat b div 16), hex_digit (unat b mod 16)]) bytes)"

text \<open>\<open>parseInt(s, 16)\<close>: white space, a sign and the prefix \<open>0x\<close> are skipped, then the digits count up to the first other character.\<close>

definition parseInt16 :: "string \<Rightarrow> int option" where
  "parseInt16 s =
     (let t = dropWhile is_ws s; neg = startsWith t ''-'';
          u = (if neg \<or> startsWith t ''+'' then tl t else t);
          v = (if startsWith u ''0x'' \<or> startsWith u ''0X'' then drop 2 u else u);
          ds = takeWhile (\<lambda>c. hex_value c \<noteq> None) v;
          n = foldl (\<lambda>n c. 16 * n + int (the (hex_value c))) 0 ds
      in if ds = [] then None else Some (if neg then - n else n))"

text \<open>
  A typed array takes a number modulo 256 and \<open>NaN\<close> as 0. Its length is truncated to an integer and a
  write beyond it is ignored, so that a last digit without a partner is dropped.
\<close>

fun hex_pairs :: "string \<Rightarrow> byte list" where
  "hex_pairs (a # b # r) = (case parseInt16 [a, b] of None \<Rightarrow> 0 | Some n \<Rightarrow> word_of_int n) # hex_pairs r"
| "hex_pairs _ = []"

definition hexToBytes :: "string \<Rightarrow> byte list" where
  "hexToBytes hex = hex_pairs hex"


section \<open>UTF-8\<close>

text \<open>
  \<open>TextEncoder\<close> on the characters of a string, and the decoder on the encodings of such strings.
  What \<open>TextDecoder\<close> makes of other bytes has characters outside the strings of the model and is
  an argument.
\<close>

definition utf8_char :: "char \<Rightarrow> byte list" where
  "utf8_char c =
     (let n = char_code c in if n < 128 then [word_of_nat n] else [word_of_nat (192 + n div 64), word_of_nat (128 + n mod 64)])"

definition utf8_encode :: "string \<Rightarrow> byte list" where
  "utf8_encode s = concat (map utf8_char s)"

fun utf8_chars :: "byte list \<Rightarrow> string option" where
  "utf8_chars [] = Some []"
| "utf8_chars (b # r) =
     (if unat b < 128 then map_option (Cons (char_of (unat b))) (utf8_chars r)
      else if unat b = 194 \<or> unat b = 195
      then (case r of
              [] \<Rightarrow> None
            | b' # r' \<Rightarrow> if 128 \<le> unat b' \<and> unat b' < 192
                        then map_option (Cons (char_of ((unat b - 192) * 64 + (unat b' - 128)))) (utf8_chars r') else None)
      else None)"

definition utf8_decode :: "(byte list \<Rightarrow> string) \<Rightarrow> byte list \<Rightarrow> string" where
  "utf8_decode other bytes = (case utf8_chars bytes of Some s \<Rightarrow> s | None \<Rightarrow> other bytes)"


section \<open>Round trips\<close>

lemma octets_sextets: "list_all (\<lambda>n. n < 256) ns \<Longrightarrow> octets (sextets ns) = ns"
proof (induction ns rule: sextets.induct)
  case (1 a b c r)
  then have "(a mod 4 * 16 + b div 16) div 16 = a mod 4" "(a mod 4 * 16 + b div 16) mod 16 = b div 16"
    "(b mod 16 * 4 + c div 64) div 4 = b mod 16" "(b mod 16 * 4 + c div 64) mod 4 = c div 64" by auto
  with 1 show ?case by simp
next
  case (2 a b)
  then have "(a mod 4 * 16 + b div 16) div 16 = a mod 4" "(a mod 4 * 16 + b div 16) mod 16 = b div 16" by auto
  then show ?case by simp
qed auto

lemma sextets_less: "list_all (\<lambda>n. n < 256) ns \<Longrightarrow> list_all (\<lambda>n. n < 64) (sextets ns)"
  by (induction ns rule: sextets.induct) auto

lemma length_sextets: "length (sextets ns) = length ns div 3 * 4 + (if length ns mod 3 = 0 then 0 else length ns mod 3 + 1)"
  by (induction ns rule: sextets.induct) auto

lemma b64_value_char: "n < 64 \<Longrightarrow> b64_value (b64_char n) = Some n"
  by (auto simp: b64_char_def b64_value_def Let_def is_upper_az_def is_lower_az_def is_digit_def char_code_char_of)
     (simp_all add: char_code_def)

lemma b64_char_plain: "n < 64 \<Longrightarrow> \<not> ascii_ws (b64_char n) \<and> b64_char n \<noteq> CHR ''=''"
  using b64_value_char [of n]
  by (auto simp: ascii_ws_def b64_value_def Let_def is_upper_az_def is_lower_az_def is_digit_def char_code_def)

lemma atob_btoa: "atob (btoa s) = Some s"
proof -
  let ?ns = "map char_code s" and ?ds = "map b64_char (sextets (map char_code s))"
  have less: "list_all (\<lambda>n. n < 64) (sextets ?ns)" by (rule sextets_less) (simp add: list_all_iff)
  have plain: "filter (\<lambda>c. \<not> ascii_ws c) (btoa s) = btoa s"
    using less by (intro filter_True) (auto simp: btoa_def list_all_iff dest: b64_char_plain, simp add: ascii_ws_def)
  have stop: "?ds = [] \<or> last ?ds \<noteq> CHR ''=''"
  proof (cases "sextets ?ns = []")
    case False
    then have "last (sextets ?ns) < 64" using less by (simp add: list_all_iff)
    then show ?thesis using False b64_char_plain by (simp add: last_map)
  qed simp
  then have none: "drop_last_eq ?ds = ?ds" by (auto simp: drop_last_eq_def)
  consider "length s mod 3 = 0" | "length s mod 3 = 1" | "length s mod 3 = 2" by linarith
  then have drop: "drop_last_eq (drop_last_eq (btoa s)) = ?ds \<and> length (btoa s) mod 4 = 0 \<and> length ?ds mod 4 \<noteq> 1"
  proof cases
    case 1
    then show ?thesis using none by (simp add: btoa_def length_sextets)
  next
    case 2
    have "drop_last_eq (?ds @ ''=='') = ?ds @ ''=''" "drop_last_eq (?ds @ ''='') = ?ds" by (simp_all add: drop_last_eq_def butlast_append)
    moreover have "(length s div 3 * 4 + 2) mod 4 \<noteq> 1" by presburger
    ultimately show ?thesis using 2 by (simp add: btoa_def length_sextets numeral_2_eq_2)
  next
    case 3
    have "drop_last_eq (?ds @ ''='') = ?ds" by (simp add: drop_last_eq_def)
    then show ?thesis using 3 none by (simp add: btoa_def length_sextets)
  qed
  have "map (\<lambda>c. the (b64_value c)) ?ds = sextets ?ns"
    using less by (simp add: list_all_iff b64_value_char map_idI)
  moreover have "list_all (\<lambda>c. b64_value c \<noteq> None) ?ds" using less by (simp add: list_all_iff b64_value_char)
  moreover have "map char_of (octets (sextets ?ns)) = s" by (simp add: octets_sextets list_all_iff char_code_def map_idI)
  ultimately show ?thesis using drop by (simp add: atob_def plain Let_def)
qed

lemma base64_roundtrip [simp]: "base64ToArrayBuffer (arrayBufferToBase64 bytes) = Some bytes"
  by (simp add: base64ToArrayBuffer_def arrayBufferToBase64_def atob_btoa comp_def)

lemma hex_value_char: "n < 16 \<Longrightarrow> hex_value (hex_digit n) = Some n"
  by (rule hex_value_digit)

lemma parseInt16_pair:
  assumes "m < 16" "n < 16"
  shows "parseInt16 [hex_digit m, hex_digit n] = Some (int (16 * m + n))"
proof -
  have c: "char_code (hex_digit m) = (if m < 10 then 48 + m else 87 + m)" "char_code (hex_digit n) = (if n < 10 then 48 + n else 87 + n)"
    using assms by (simp_all add: hex_digit_def char_code_char_of)
  have "\<not> is_ws (hex_digit m)" "hex_digit m \<noteq> CHR ''-''" "hex_digit m \<noteq> CHR ''+''" "hex_digit n \<noteq> CHR ''x''" "hex_digit n \<noteq> CHR ''X''"
    using c assms by (auto simp: is_ws_def char_code_def split: if_splits)
  then show ?thesis using assms by (simp add: parseInt16_def hex_value_char startsWith_def)
qed

lemma hex_pairs_bytesToHex: "hex_pairs (bytesToHex bytes) = bytes"
proof (induction bytes)
  case (Cons b bytes)
  have "unat b div 16 < 16" using unat_byte [of b] by linarith
  then have "parseInt16 [hex_digit (unat b div 16), hex_digit (unat b mod 16)] = Some (int (unat b))"
    by (simp add: parseInt16_pair del: of_nat_add of_nat_mult)
  then show ?case using Cons by (simp add: bytesToHex_def)
qed (simp add: bytesToHex_def)

lemma hex_pairs_odd: "even (length s) \<Longrightarrow> hex_pairs (s @ [c]) = hex_pairs s"
  by (induction s rule: hex_pairs.induct) auto

lemma length_bytesToHex: "length (bytesToHex bytes) = 2 * length bytes"
  by (induction bytes) (simp_all add: bytesToHex_def)

lemma unat_small [simp]: "n < 256 \<Longrightarrow> unat (word_of_nat n :: byte) = n"
  by (simp add: unat_of_nat)

lemma utf8_chars_char: "utf8_chars (utf8_char c @ r) = map_option (Cons c) (utf8_chars r)"
proof (cases "char_code c < 128")
  case True
  then show ?thesis by (simp add: utf8_char_def char_code_def)
next
  case False
  define n b b' where "n = char_code c" and "b = (word_of_nat (192 + n div 64) :: byte)" and "b' = (word_of_nat (128 + n mod 64) :: byte)"
  have n: "128 \<le> n" "n < 256" using False by (simp_all add: n_def)
  then have q: "n div 64 = 2 \<or> n div 64 = 3" by linarith
  have "192 + n div 64 < 256" "128 + n mod 64 < 256" using q by auto
  then have b: "unat b = 192 + n div 64" "unat b' = 128 + n mod 64" unfolding b_def b'_def by (metis unat_small)+
  have "(unat b - 192) * 64 + (unat b' - 128) = n" by (simp add: b)
  moreover have "char_of n = c" by (simp add: n_def char_code_def)
  moreover have "utf8_char c = [b, b']" using n by (simp add: utf8_char_def n_def [symmetric] b_def b'_def)
  ultimately show ?thesis using q b by auto
qed

lemma utf8_chars_encode: "utf8_chars (utf8_encode s) = Some s"
  by (induction s) (simp_all add: utf8_encode_def utf8_chars_char)

lemma utf8_roundtrip [simp]: "utf8_decode other (utf8_encode s) = s"
  by (simp add: utf8_decode_def utf8_chars_encode)


end
