(* ===== verification/Wallet_Services.thy ===== *)
theory Wallet_Services
  imports Wallet_Encoding ResilientDB_Client
begin

unbundle bit_operations_syntax

text \<open>
  The network half of the wallet's background script, \<open>resvault/public/background.js\<close>: identifiers,
  escaping, the texts of its GraphQL mutations, and the two calls that send them. A task is the
  list of requests that were sent and the error or the result of the code so far. The replies to
  requests are a function of address and body.
\<close>

section \<open>Tasks\<close>

type_synonym 'a task = "(string \<times> string) list \<times> (string + 'a)"

definition give :: "'a \<Rightarrow> 'a task" where
  "give x = ([], Inr x)"

definition throw :: "string \<Rightarrow> 'a task" where
  "throw m = ([], Inl m)"

definition lift :: "string + 'a \<Rightarrow> 'a task" where
  "lift r = ([], r)"

definition and_then :: "'a task \<Rightarrow> ('a \<Rightarrow> 'b task) \<Rightarrow> 'b task" where
  "and_then t f = (case snd t of Inl m \<Rightarrow> (fst t, Inl m) | Inr x \<Rightarrow> (fst t @ fst (f x), snd (f x)))"

datatype fetch_reply = FetchThrows string | FetchReply nat string string

type_synonym network = "string \<Rightarrow> string \<Rightarrow> fetch_reply"

text \<open>A \<open>POST\<close> of a GraphQL query: status, status text and text of the reply.\<close>

definition query_body :: "string \<Rightarrow> string" where
  "query_body q = stringify (JObj [(''query'', JStr q)])"

definition fetch_query :: "network \<Rightarrow> string \<Rightarrow> string \<Rightarrow> (nat \<times> string \<times> string) task" where
  "fetch_query net url q =
     ([(url, query_body q)],
      case net url (query_body q) of FetchThrows m \<Rightarrow> Inl m | FetchReply status statusText text \<Rightarrow> Inr (status, statusText, text))"

definition response_ok :: "nat \<Rightarrow> bool" where
  "response_ok status \<longleftrightarrow> 200 \<le> status \<and> status \<le> 299"


section \<open>JavaScript values\<close>

text \<open>\<open>x[0]\<close> and \<open>x.length\<close> of a parsed value; a method call on something that may not be a string.\<close>

fun index0 :: "json \<Rightarrow> json option" where
  "index0 (JArr (x # xs)) = Some x"
| "index0 (JStr (c # cs)) = Some (JStr [c])"
| "index0 (JObj ps) = map_of ps ''0''"
| "index0 j = None"

fun length_member :: "json \<Rightarrow> json option" where
  "length_member (JArr xs) = Some (JNum (int (length xs)) 0)"
| "length_member (JStr s) = Some (JNum (int (length s)) 0)"
| "length_member (JObj ps) = map_of ps ''length''"
| "length_member j = None"

definition null_error :: "json option \<Rightarrow> string \<Rightarrow> string" where
  "null_error x p =
     ''Cannot read properties of '' @ (if x = None then ''undefined'' else ''null'') @ '' (reading '' @ [CHR 0x27] @ p @ [CHR 0x27] @ '')''"

definition string_method :: "string \<Rightarrow> string \<Rightarrow> json option \<Rightarrow> string + string" where
  "string_method name p x =
     (case x of
        Some (JStr s) \<Rightarrow> Inr s
      | None \<Rightarrow> Inl (null_error x p)
      | Some JNull \<Rightarrow> Inl (null_error x p)
      | Some v \<Rightarrow> Inl (name @ ''.'' @ p @ '' is not a function''))"

text \<open>\<open>x.toString()\<close>, \<open>`${x}`\<close>, and a value as a property name.\<close>

definition to_string :: "json option \<Rightarrow> string + string" where
  "to_string x =
     (case x of None \<Rightarrow> Inl (null_error x ''toString'') | Some JNull \<Rightarrow> Inl (null_error x ''toString'') | Some v \<Rightarrow> Inr (to_text v))"

definition interpolate :: "json option \<Rightarrow> string" where
  "interpolate x = (case x of None \<Rightarrow> ''undefined'' | Some v \<Rightarrow> to_text v)"

text \<open>\<open>a === b\<close>: two objects are never the same object here.\<close>

fun strict_eq :: "json option \<Rightarrow> json option \<Rightarrow> bool" where
  "strict_eq (Some (JArr xs)) y \<longleftrightarrow> False"
| "strict_eq (Some (JObj ps)) y \<longleftrightarrow> False"
| "strict_eq x y \<longleftrightarrow> x = y"


section \<open>Identifiers and escaping\<close>

text \<open>
  \<open>generateUUID\<close>: the digits 0, 1 and 8 of a template are replaced, each with its own random byte.
\<close>

definition uuid_template :: string where
  "uuid_template = ''10000000-1000-4000-8000-100000000000''"

definition uuid_digit :: "byte \<Rightarrow> byte \<Rightarrow> char" where
  "uuid_digit c r = hex_digit (unat (c XOR (r AND drop_bit (unat c div 4) 15)))"

fun uuid_replace :: "string \<Rightarrow> byte list \<Rightarrow> string" where
  "uuid_replace [] rs = []"
| "uuid_replace (c # cs) rs =
     (if c = CHR ''0'' \<or> c = CHR ''1'' \<or> c = CHR ''8''
      then (case rs of
              [] \<Rightarrow> uuid_digit (word_of_nat (char_code c - 48)) 0 # uuid_replace cs []
            | r # rs' \<Rightarrow> uuid_digit (word_of_nat (char_code c - 48)) r # uuid_replace cs rs')
      else c # uuid_replace cs rs)"

definition generateUUID :: "byte list \<Rightarrow> string" where
  "generateUUID rs = uuid_replace uuid_template rs"

definition replace_char :: "char \<Rightarrow> string \<Rightarrow> string \<Rightarrow> string" where
  "replace_char c r s = concat (map (\<lambda>x. if x = c then r else [x]) s)"

text \<open>\<open>s.replace(/\\/g, '\\\\').replace(/"/g, '\\"')\<close>.\<close>

definition escape_quotes :: "string \<Rightarrow> string" where
  "escape_quotes s = replace_char (CHR 0x22) [CHR 0x5C, CHR 0x22] (replace_char (CHR 0x5C) [CHR 0x5C, CHR 0x5C] s)"

definition escapeGraphQLString :: "json option \<Rightarrow> string" where
  "escapeGraphQLString x = (case x of Some (JStr s) \<Rightarrow> escape_quotes s | _ \<Rightarrow> [])"

text \<open>\<open>s.replace(/"""/g, '\\"""')\<close>.\<close>

function escape_triple :: "string \<Rightarrow> string" where
  "escape_triple [] = []"
| "escape_triple (c # s) =
     (if startsWith (c # s) [CHR 0x22, CHR 0x22, CHR 0x22]
      then [CHR 0x5C, CHR 0x22, CHR 0x22, CHR 0x22] @ escape_triple (drop 2 s) else c # escape_triple s)"
  by pat_completeness auto
termination
  by (relation "measure length") auto

definition default_region :: json where
  "default_region = JObj [(''replica_info'', JArr [JObj [(''id'', JNum 1 0), (''ip'', JStr ''127.0.0.1''), (''port'', JNum 10005 0)]]),
     (''region_id'', JNum 1 0)]"

definition getResDBConfigJson :: "string option \<Rightarrow> string" where
  "getResDBConfigJson shorthand =
     (let trimmed = trim (if present shorthand then the shorthand else ''5 127.0.0.1 10005'')
      in case split_ws trimmed of
           [n, ip, port] \<Rightarrow>
             (if n \<noteq> [] \<and> list_all is_digit n \<and> ip \<noteq> [] \<and> port \<noteq> [] \<and> list_all is_digit port
              then stringify (JObj [(''replica_info'', JArr [JObj [(''id'', JNum 1 0), (''ip'', JStr ip), (''port'', JNum (int (digits_value port)) 0)]]),
                     (''region_id'', JNum 1 0)])
              else if startsWith trimmed ''{'' then trimmed else stringify default_region)
         | _ \<Rightarrow> if startsWith trimmed ''{'' then trimmed else stringify default_region)"


section \<open>Mutations\<close>

text \<open>The texts of the mutations, with their interpolated parts as arguments.\<close>

definition kv_mutation :: "string \<Rightarrow> string \<Rightarrow> string \<Rightarrow> string \<Rightarrow> string" where
  "kv_mutation uuid balance address signer =
     ''mutation { '' @ nl @ ''                    postTransaction('' @ nl @ ''                        data: {'' @ nl
      @ ''                            asset: '' @ [CHR 0x22] @ ''ResDB'' @ [CHR 0x22] @ '','' @ nl
      @ ''                            id: '' @ [CHR 0x22] @ uuid @ [CHR 0x22] @ '','' @ nl @ ''                            amount: ''
      @ [CHR 0x22] @ balance @ [CHR 0x22] @ '','' @ nl @ ''                            operation: '' @ [CHR 0x22] @ ''TRANSFER''
      @ [CHR 0x22] @ '','' @ nl @ ''                            recipient: '' @ [CHR 0x22] @ address @ [CHR 0x22] @ '','' @ nl
      @ ''                            type: '' @ [CHR 0x22] @ ''CREATE'' @ [CHR 0x22] @ '','' @ nl
      @ ''                            signerPublicKey: '' @ [CHR 0x22] @ signer @ [CHR 0x22] @ nl @ ''                        }'' @ nl
      @ ''                    ) { '' @ nl @ ''                        id '' @ nl @ ''                    } '' @ nl
      @ ''                }''"

definition create_account_mutation :: string where
  "create_account_mutation =
     ''mutation { createAccount(config: '' @ [CHR 0x22] @ ''/opt/resilientdb/service/tools/config/interface/service.config''
      @ [CHR 0x22] @ '') }''"

definition set_balance_mutation :: "string \<Rightarrow> string \<Rightarrow> string" where
  "set_balance_mutation address balance =
     ''mutation { '' @ nl @ ''                    setBalance('' @ nl @ ''                        config: '' @ [CHR 0x22]
      @ ''/opt/resilientdb/service/tools/config/interface/service.config'' @ [CHR 0x22] @ '','' @ nl
      @ ''                        address: '' @ [CHR 0x22] @ address @ [CHR 0x22] @ '','' @ nl @ ''                        balance: ''
      @ [CHR 0x22] @ balance @ [CHR 0x22] @ nl @ ''                    )'' @ nl @ ''                }''"

definition deploy_mutation :: "string \<Rightarrow> string \<Rightarrow> string \<Rightarrow> string \<Rightarrow> string" where
  "deploy_mutation path name args owner =
     ''mutation { '' @ nl @ ''                    deployContract('' @ nl @ ''                        config: '' @ [CHR 0x22]
      @ ''/opt/resilientdb/service/tools/config/interface/service.config'' @ [CHR 0x22] @ '','' @ nl
      @ ''                        contract: '' @ [CHR 0x22] @ path @ [CHR 0x22] @ '', '' @ nl @ ''                        name: ''
      @ [CHR 0x22] @ name @ [CHR 0x22] @ '', '' @ nl @ ''                        arguments: '' @ [CHR 0x22] @ args @ [CHR 0x22] @ '', ''
      @ nl @ ''                        owner: '' @ [CHR 0x22] @ owner @ [CHR 0x22] @ nl @ ''                    ) { '' @ nl
      @ ''                        ownerAddress'' @ nl @ ''                        contractAddress '' @ nl
      @ ''                        contractName'' @ nl @ ''                    } '' @ nl @ ''                }''"

definition execute_mutation :: "string \<Rightarrow> string \<Rightarrow> string \<Rightarrow> string \<Rightarrow> string" where
  "execute_mutation sender contract func args =
     ''mutation { '' @ nl @ ''                    executeContract('' @ nl @ ''                        config: '' @ [CHR 0x22]
      @ ''/opt/resilientdb/service/tools/config/interface/service.config'' @ [CHR 0x22] @ '','' @ nl
      @ ''                        sender: '' @ [CHR 0x22] @ sender @ [CHR 0x22] @ '', '' @ nl @ ''                        contract: ''
      @ [CHR 0x22] @ contract @ [CHR 0x22] @ '', '' @ nl @ ''                        functionName: '' @ [CHR 0x22] @ func @ [CHR 0x22]
      @ '', '' @ nl @ ''                        arguments: '' @ [CHR 0x22] @ args @ [CHR 0x22] @ nl @ ''                    ) '' @ nl
      @ ''                }''"

definition deploy_chain_mutation :: "string \<Rightarrow> string \<Rightarrow> string \<Rightarrow> string \<Rightarrow> string \<Rightarrow> string \<Rightarrow> string" where
  "deploy_chain_mutation config contract file_name short args owner =
     nl @ ''                    mutation {'' @ nl @ ''                      deployContract('' @ nl
      @ ''                                config: '' @ [CHR 0x22] @ config @ [CHR 0x22] @ '','' @ nl
      @ ''                                contract: '' @ [CHR 0x22] @ contract @ [CHR 0x22] @ '','' @ nl
      @ ''                                name: '' @ [CHR 0x22] @ ''/tmp/'' @ file_name @ '':'' @ short @ [CHR 0x22] @ '','' @ nl
      @ ''                                arguments: '' @ [CHR 0x22] @ args @ [CHR 0x22] @ '','' @ nl
      @ ''                                owner: '' @ [CHR 0x22] @ owner @ [CHR 0x22] @ '','' @ nl
      @ ''                                type: '' @ [CHR 0x22] @ ''data'' @ [CHR 0x22] @ nl @ ''                            ) {'' @ nl
      @ ''                        ownerAddress'' @ nl @ ''                        contractAddress'' @ nl
      @ ''                        contractName'' @ nl @ ''                      }'' @ nl @ ''                    }'' @ nl
      @ ''                    ''"


section \<open>The services\<close>

text \<open>\<open>{ success: true, ... }\<close> and \<open>{ success: false, error }\<close>.\<close>

definition succeeded :: "(string \<times> json option) list \<Rightarrow> json" where
  "succeeded ps = object_of ((''success'', Some (JBool True)) # ps)"

definition failed :: "json option \<Rightarrow> json" where
  "failed e = object_of [(''success'', Some (JBool False)), (''error'', e)]"

text \<open>The text of a reply, parsed; \<open>JSON.parse\<close> failing is its own error.\<close>

definition parse_reply :: "string \<Rightarrow> string \<Rightarrow> string + json" where
  "parse_reply statusText text =
     (case json_parse text of
        Some j \<Rightarrow> Inr j
      | None \<Rightarrow> Inl (''Server returned non-JSON: '' @ (if text \<noteq> [] then take 200 text else statusText)))"

text \<open>\<open>result.errors[0].message\<close> where \<open>errors\<close> is truthy.\<close>

definition first_message :: "json option \<Rightarrow> string + json option" where
  "first_message errors = get_member ''message'' (case errors of None \<Rightarrow> None | Some j \<Rightarrow> index0 j)"

definition errors_or_data :: "json \<Rightarrow> string + json" where
  "errors_or_data result =
     (let errors = opt_member ''errors'' (Some result)
      in if is_truthy errors then map_sum id failed (first_message errors)
         else Inr (succeeded [(''data'', Some result)]))"

definition kv_result :: "json \<Rightarrow> string + json" where
  "kv_result result =
     (case member ''data'' result of
        Inl m \<Rightarrow> Inl m
      | Inr data \<Rightarrow>
          (let post = opt_member ''postTransaction'' data
           in if is_truthy data \<and> is_truthy post then Inr (succeeded [(''transactionId'', opt_member ''id'' post)])
              else errors_or_data result))"

text \<open>A command of the wallet's own configuration objects; the fields are interpolated as they are.\<close>

datatype kv_command = KvSetBalance "json option" "json option" | KvOther string

definition callKVService :: "network \<Rightarrow> byte list \<Rightarrow> string \<Rightarrow> kv_command \<Rightarrow> json option \<Rightarrow> json task" where
  "callKVService net rs url cmd signer =
     (case cmd of
        KvOther c \<Rightarrow> throw (''Unknown KV command: '' @ c)
      | KvSetBalance address balance \<Rightarrow>
          and_then (fetch_query net url (kv_mutation (generateUUID rs) (to_text (or_json balance (JStr ''0'')))
              (to_text (or_json address (JStr ''0x0000000000000000000000000000000000000000'')))
              (to_text (or_json signer (JStr []))))) (\<lambda>(status, statusText, text).
            if \<not> response_ok status then throw (''Network response was not ok: '' @ statusText)
            else lift (case parse_reply statusText text of Inl m \<Rightarrow> Inl m | Inr j \<Rightarrow> kv_result j)))"

datatype contract_command =
    CreateAccount
  | SetBalance "json option" "json option"
  | Deploy "json option" "json option" "json option" "json option"
  | Execute "json option" "json option" "json option" "json option"
  | OtherCommand string

definition contract_mutation :: "contract_command \<Rightarrow> string + string" where
  "contract_mutation cmd =
     (case cmd of
        CreateAccount \<Rightarrow> Inr create_account_mutation
      | SetBalance address balance \<Rightarrow> Inr (set_balance_mutation (interpolate address) (interpolate balance))
      | Deploy path name args owner \<Rightarrow>
          Inr (deploy_mutation (to_text (or_json path (JStr ''contract.json''))) (interpolate name) (to_text (or_json args (JStr []))) (interpolate owner))
      | Execute sender contract func args \<Rightarrow>
          Inr (execute_mutation (interpolate sender) (interpolate contract) (interpolate func) (to_text (or_json args (JStr []))))
      | OtherCommand c \<Rightarrow> Inl (''Unknown command: '' @ c))"

definition contract_result :: "json \<Rightarrow> string + json" where
  "contract_result result =
     (case member ''data'' result of
        Inl m \<Rightarrow> Inl m
      | Inr data \<Rightarrow>
          (let part = (\<lambda>name. opt_member name data);
               deployed = part ''deployContract''
           in if is_truthy (part ''createAccount'') then Inr (succeeded [(''accountAddress'', part ''createAccount'')])
              else if is_truthy (part ''setBalance'') then Inr (succeeded [(''result'', part ''setBalance'')])
              else if is_truthy deployed
              then Inr (succeeded [(''contractAddress'', opt_member ''contractAddress'' deployed),
                     (''ownerAddress'', opt_member ''ownerAddress'' deployed), (''contractName'', opt_member ''contractName'' deployed)])
              else if is_truthy (part ''executeContract'') then Inr (succeeded [(''result'', part ''executeContract'')])
              else errors_or_data result))"

definition callContractService :: "network \<Rightarrow> string \<Rightarrow> contract_command \<Rightarrow> json task" where
  "callContractService net url cmd =
     and_then (lift (contract_mutation cmd)) (\<lambda>q.
       and_then (fetch_query net url q) (\<lambda>(status, statusText, text).
         if \<not> response_ok status
         then throw (if status = 502 then ''Contract service is currently unavailable. Please try again later or use local development.''
                     else ''Network response was not ok: '' @ statusText)
         else lift (case parse_reply statusText text of Inl m \<Rightarrow> Inl m | Inr j \<Rightarrow> contract_result j)))"


section \<open>Identifiers\<close>

text \<open>What a random version 4 identifier may have at a place of the template.\<close>

definition uuid_place :: "char \<Rightarrow> char \<Rightarrow> bool" where
  "uuid_place t c \<longleftrightarrow>
     (if t = CHR ''0'' \<or> t = CHR ''1'' then hex_value c \<noteq> None
      else if t = CHR ''8'' then c \<in> {CHR ''8'', CHR ''9'', CHR ''a'', CHR ''b''}
      else c = t)"

lemma and_mask_cases:
  fixes r :: byte
  shows "unat (r AND 15) < 16" "unat (r AND 3) < 4"
  using word_and_le1 [of r 15] word_and_le1 [of r 3] by (simp_all add: word_le_nat_alt)

lemma below_four: "(n::nat) < 4 \<Longrightarrow> n = 0 \<or> n = 1 \<or> n = 2 \<or> n = 3"
  by linarith

lemma unat_eqD: "unat (w :: byte) = n \<Longrightarrow> w = word_of_nat n"
  by auto

lemma xor_one: "unat (1 XOR (r AND 15 :: byte)) < 16"
proof -
  have m: "(15 :: byte) = mask 4" by (simp add: mask_eq_exp_minus_1)
  have "take_bit 4 (1 XOR r) = 1 XOR take_bit 4 r" by (simp add: take_bit_xor)
  then have "1 XOR (r AND 15) = (1 XOR r) AND 15" unfolding m by (simp add: take_bit_eq_mask)
  then show ?thesis using and_mask_cases(1) by simp
qed

lemma xor_eight: "unat (8 XOR (r AND 3 :: byte)) \<in> {8, 9, 10, 11}"
proof -
  obtain w where w: "w = r AND 3" "unat w < 4" using and_mask_cases by blast
  then show ?thesis unfolding w(1) [symmetric] using below_four [OF w(2)] by (auto dest!: unat_eqD)
qed

lemma variant_digits: "hex_digit 8 = CHR ''8''" "hex_digit 9 = CHR ''9''" "hex_digit 10 = CHR ''a''" "hex_digit 11 = CHR ''b''"
  by code_simp+

lemma uuid_digit_place:
  "uuid_place (CHR ''0'') (uuid_digit 0 r)" "uuid_place (CHR ''1'') (uuid_digit 1 r)" "uuid_place (CHR ''8'') (uuid_digit 8 r)"
proof -
  show "uuid_place (CHR ''0'') (uuid_digit 0 r)" using and_mask_cases by (simp add: uuid_place_def uuid_digit_def hex_value_char)
  show "uuid_place (CHR ''1'') (uuid_digit 1 r)" using xor_one by (simp add: uuid_place_def uuid_digit_def hex_value_char)
  show "uuid_place (CHR ''8'') (uuid_digit 8 r)" using xor_eight [of r] by (auto simp: uuid_place_def uuid_digit_def variant_digits)
qed

lemma uuid_replace_places: "list_all2 uuid_place cs (uuid_replace cs rs)"
proof (induction cs rs rule: uuid_replace.induct)
  case (2 c cs rs)
  have c: "char_code (CHR ''0'') = 48" "char_code (CHR ''1'') = 49" "char_code (CHR ''8'') = 56" by (simp_all add: char_code_def)
  show ?case
  proof (cases "c = CHR ''0'' \<or> c = CHR ''1'' \<or> c = CHR ''8''")
    case True
    then have "uuid_place c (uuid_digit (word_of_nat (char_code c - 48)) r)" for r using uuid_digit_place by (auto simp: c)
    then show ?thesis using True 2 by (cases rs) auto
  next
    case False
    then show ?thesis using 2 by (auto simp: uuid_place_def)
  qed
qed simp

text \<open>
  Whatever the random bytes are, an identifier has the form of a version 4 UUID: hexadecimal
  digits and hyphens at their places, the version 4, and the variant 8, 9, a or b.
\<close>

theorem uuid_version4: "list_all2 uuid_place ''10000000-1000-4000-8000-100000000000'' (generateUUID rs)"
  unfolding generateUUID_def uuid_template_def by (rule uuid_replace_places)


section \<open>What a mutation says\<close>

definition no_quote :: "string \<Rightarrow> bool" where
  "no_quote s \<longleftrightarrow> CHR 0x22 \<notin> set s"

lemma quoted_prefix:
  assumes "x @ CHR 0x22 # r = y @ CHR 0x22 # s" "no_quote x" "no_quote y"
  shows "x = y \<and> r = s"
  using assms
proof (induction x arbitrary: y)
  case Nil
  then show ?case by (cases y) (simp_all add: no_quote_def)
next
  case (Cons c x)
  then obtain d y' where "y = d # y'" by (cases y) (auto simp: no_quote_def)
  with Cons show ?case by (auto simp: no_quote_def)
qed

text \<open>The mutation up to the quote that closes the signer, what stands between recipient and signer, and the rest.\<close>

definition kv_head :: "string \<Rightarrow> string \<Rightarrow> string \<Rightarrow> string \<Rightarrow> string" where
  "kv_head uuid balance address signer =
     ''mutation { '' @ nl @ ''                    postTransaction('' @ nl @ ''                        data: {'' @ nl
      @ ''                            asset: '' @ [CHR 0x22] @ ''ResDB'' @ [CHR 0x22] @ '','' @ nl
      @ ''                            id: '' @ [CHR 0x22] @ uuid @ [CHR 0x22] @ '','' @ nl @ ''                            amount: ''
      @ [CHR 0x22] @ balance @ [CHR 0x22] @ '','' @ nl @ ''                            operation: '' @ [CHR 0x22] @ ''TRANSFER''
      @ [CHR 0x22] @ '','' @ nl @ ''                            recipient: '' @ [CHR 0x22] @ address @ [CHR 0x22] @ '','' @ nl
      @ ''                            type: '' @ [CHR 0x22] @ ''CREATE'' @ [CHR 0x22] @ '','' @ nl
      @ ''                            signerPublicKey: '' @ [CHR 0x22] @ signer @ [CHR 0x22]"

definition kv_between :: string where
  "kv_between = [CHR 0x22] @ '','' @ nl @ ''                            type: '' @ [CHR 0x22] @ ''CREATE'' @ [CHR 0x22] @ '','' @ nl
      @ ''                            signerPublicKey: '' @ [CHR 0x22] "

lemma kv_mutation_head: "\<exists>rest. \<forall>u b a s. kv_mutation u b a s = kv_head u b a s @ rest"
  by (simp add: kv_mutation_def kv_head_def)

lemma kv_head_between: "kv_head u b (a @ kv_between @ f @ CHR 0x22 # x) s = kv_head u b a f @ x @ kv_between @ s @ [CHR 0x22]"
  by (simp add: kv_head_def kv_between_def)

text \<open>
  A mutation without quotes in its parts has one reading: amount, recipient and signer are
  determined by its text.
\<close>

theorem kv_mutation_reading:
  assumes "kv_mutation u b a s = kv_mutation u' b' a' s'"
    and "no_quote u" "no_quote b" "no_quote a" "no_quote s" "no_quote u'" "no_quote b'" "no_quote a'" "no_quote s'"
  shows "u = u' \<and> b = b' \<and> a = a' \<and> s = s'"
  using assms(1) unfolding kv_mutation_def
  by (auto dest!: quoted_prefix [OF _ assms(2,6)] quoted_prefix [OF _ assms(3,7)] quoted_prefix [OF _ assms(4,8)] quoted_prefix [OF _ assms(5,9)])

theorem kv_mutation_reading_witness:
  "kv_mutation ''1'' ''5'' ''a'' ''k'' = kv_mutation ''1'' ''5'' ''a'' ''k'' \<longrightarrow> ''5'' = ''5''"
  using kv_mutation_reading [of "''1''" "''5''" "''a''" "''k''" "''1''" "''5''" "''a''" "''k''"] by (simp add: no_quote_def)

end
