(* ===== verification/Wallet_Background.thy ===== *)
theory Wallet_Background
  imports Wallet_Services "HOL-Library.AList"
begin

text \<open>
  The background script of the ResVault wallet, \<open>resvault/public/background.js\<close>: the keys it keeps per
  domain and net, and its handler for every message. A handler reads the storage once, and writes
  it at most once when it is done; what it writes is computed from what it read. AES-GCM and the
  random values are arguments. Domains and nets are not names of members of \<open>Object.prototype\<close>.
  The theory shows that the handlers refine a map from domains and nets to keys, who can make the wallet
  send requests and where to, and what goes wrong when two messages overlap.
\<close>

section \<open>Encryption\<close>

text \<open>The operations of \<open>crypto.subtle\<close> that the script uses; those that can fail give an error message.\<close>

record 'k Crypto =
  cr_encrypt :: "'k \<Rightarrow> byte list \<Rightarrow> byte list \<Rightarrow> byte list"
  cr_decrypt :: "'k \<Rightarrow> byte list \<Rightarrow> byte list \<Rightarrow> string + byte list"
  cr_exportKey :: "'k \<Rightarrow> json"
  cr_importKey :: "json \<Rightarrow> string + 'k"
  cr_other_text :: "byte list \<Rightarrow> string"

record Encrypted =
  en_ciphertext :: string
  en_iv :: string

definition encryptData :: "'k Crypto \<Rightarrow> byte list \<Rightarrow> string \<Rightarrow> 'k \<Rightarrow> Encrypted" where
  "encryptData cr iv data key =
     \<lparr>en_ciphertext = arrayBufferToBase64 (cr_encrypt cr key iv (utf8_encode data)), en_iv = uint8ArrayToBase64 iv\<rparr>"

definition not_base64 :: string where
  "not_base64 = ''Failed to execute 'atob': The string to be decoded is not correctly encoded.''"

definition decryptData :: "'k Crypto \<Rightarrow> Encrypted \<Rightarrow> 'k \<Rightarrow> string + string" where
  "decryptData cr e key =
     (case base64ToArrayBuffer (en_ciphertext e) of
        None \<Rightarrow> Inl not_base64
      | Some ciphertext \<Rightarrow>
          (case base64ToUint8Array (en_iv e) of
             None \<Rightarrow> Inl not_base64
           | Some iv \<Rightarrow> map_sum id (utf8_decode (cr_other_text cr)) (cr_decrypt cr key iv ciphertext)))"


section \<open>Storage\<close>

record KeyEntry =
  ke_publicKey :: Encrypted
  ke_privateKey :: Encrypted
  ke_url :: Encrypted
  ke_exportedKey :: json

type_synonym key_table = "(string \<times> (string \<times> KeyEntry) list) list"
type_synonym net_table = "(string \<times> json) list"

record Storage =
  st_keys :: key_table
  st_connectedNets :: net_table
  st_faviconUrls :: "(string \<times> string) list"
  st_activeNetUrl :: "json option"
  st_store :: "json option"

definition empty_storage :: Storage where
  "empty_storage = \<lparr>st_keys = [], st_connectedNets = [], st_faviconUrls = [], st_activeNetUrl = None, st_store = None\<rparr>"

text \<open>\<open>keys[domain] && keys[domain][net]\<close>.\<close>

definition entry_of :: "key_table \<Rightarrow> string \<Rightarrow> string \<Rightarrow> KeyEntry option" where
  "entry_of keys domain net = (case map_of keys domain of None \<Rightarrow> None | Some nets \<Rightarrow> map_of nets net)"

text \<open>What \<open>storeKeys\<close> and \<open>disconnectKeys\<close> compute; an \<open>undefined\<close> net leaves no property in the stored object.\<close>

definition put_entry :: "string \<Rightarrow> string \<Rightarrow> KeyEntry \<Rightarrow> key_table \<Rightarrow> key_table" where
  "put_entry domain net e keys =
     AList.update domain (AList.update net e (case map_of keys domain of None \<Rightarrow> [] | Some nets \<Rightarrow> nets)) keys"

definition put_net :: "string \<Rightarrow> json option \<Rightarrow> net_table \<Rightarrow> net_table" where
  "put_net domain net nets = (case net of None \<Rightarrow> AList.delete domain nets | Some n \<Rightarrow> AList.update domain n nets)"

definition remove_entry :: "string \<Rightarrow> string \<Rightarrow> key_table \<Rightarrow> key_table" where
  "remove_entry domain net keys =
     (case map_of keys domain of
        None \<Rightarrow> keys
      | Some nets \<Rightarrow> let nets' = AList.delete net nets in if nets' = [] then AList.delete domain keys else AList.update domain nets' keys)"


section \<open>Messages\<close>

type_synonym request = "(string \<times> json) list"

definition field :: "string \<Rightarrow> request \<Rightarrow> json option" where
  "field name req = map_of req name"

record Sender =
  sd_tabUrl :: "string option"
  sd_url :: "string option"
  sd_origin :: "string option"

text \<open>
  What the script uses of its surroundings while it handles one message: the key that is generated or the
  error, three nonces, random bytes for identifiers, the network, the host name of an address (None
  when it is not one), and the message of a parse error.
\<close>

record 'k Env =
  ev_crypto :: "'k Crypto"
  ev_generateKey :: "string + 'k"
  ev_ivs :: "byte list \<times> byte list \<times> byte list"
  ev_random :: "byte list"
  ev_random2 :: "byte list"
  ev_network :: network
  ev_hostname :: "string \<Rightarrow> string option"
  ev_syntax_error :: "string \<Rightarrow> string"

text \<open>What a handler does: the tables it writes, the requests it sends, and the response.\<close>

record Handled =
  hd_write :: "(key_table \<times> net_table) option"
  hd_requests :: "(string \<times> string) list"
  hd_response :: "json option"

definition answer :: "json \<Rightarrow> Handled" where
  "answer j = \<lparr>hd_write = None, hd_requests = [], hd_response = Some j\<rparr>"

definition answer_write :: "key_table \<Rightarrow> net_table \<Rightarrow> json \<Rightarrow> Handled" where
  "answer_write keys nets j = \<lparr>hd_write = Some (keys, nets), hd_requests = [], hd_response = Some j\<rparr>"

text \<open>A \<open>try\<close> block whose \<open>catch\<close> answers with the error.\<close>

definition try_task :: "(string \<Rightarrow> json) \<Rightarrow> json task \<Rightarrow> Handled" where
  "try_task on_error t =
     \<lparr>hd_write = None, hd_requests = fst t, hd_response = Some (case snd t of Inl m \<Rightarrow> on_error m | Inr j \<Rightarrow> j)\<rparr>"

definition failed_text :: "string \<Rightarrow> json" where
  "failed_text m = failed (Some (JStr m))"

definition error_only :: "string \<Rightarrow> json" where
  "error_only m = JObj [(''error'', JStr m)]"

definition getBaseDomain :: "'k Env \<Rightarrow> string \<Rightarrow> string" where
  "getBaseDomain env url = (case ev_hostname env url of Some h \<Rightarrow> h | None \<Rightarrow> [])"

text \<open>A nonempty text of an optional property, and the address of the sender.\<close>

definition sender_url :: "Sender \<Rightarrow> string option" where
  "sender_url s =
     (if present (sd_tabUrl s) then sd_tabUrl s else if present (sd_url s) then sd_url s
      else if present (sd_origin s) then sd_origin s else None)"

definition updateFaviconUrl :: "'k Env \<Rightarrow> string \<Rightarrow> string \<Rightarrow> string \<Rightarrow> Storage \<Rightarrow> Storage" where
  "updateFaviconUrl env status url favIconUrl st =
     (let domain = getBaseDomain env url
      in if status = ''complete'' \<and> url \<noteq> [] \<and> domain \<noteq> [] \<and> favIconUrl \<noteq> []
         then st\<lparr>st_faviconUrls := AList.update domain favIconUrl (st_faviconUrls st)\<rparr> else st)"


section \<open>Keys\<close>

text \<open>The argument of \<open>TextEncoder.encode\<close>: no argument is the empty text.\<close>

definition text_arg :: "json option \<Rightarrow> string" where
  "text_arg x = (case x of None \<Rightarrow> [] | Some v \<Rightarrow> to_text v)"

definition new_entry :: "'k Env \<Rightarrow> 'k \<Rightarrow> request \<Rightarrow> KeyEntry" where
  "new_entry env key req =
     (let cr = ev_crypto env; (iv1, iv2, iv3) = ev_ivs env
      in \<lparr>ke_publicKey = encryptData cr iv1 (text_arg (field ''publicKey'' req)) key,
          ke_privateKey = encryptData cr iv2 (text_arg (field ''privateKey'' req)) key,
          ke_url = encryptData cr iv3 (text_arg (field ''url'' req)) key, ke_exportedKey = cr_exportKey cr key\<rparr>)"

definition storeKeys :: "'k Env \<Rightarrow> Storage \<Rightarrow> request \<Rightarrow> Handled" where
  "storeKeys env st req =
     (case ev_generateKey env of
        Inl m \<Rightarrow> answer (failed_text m)
      | Inr key \<Rightarrow>
          (let domain = interpolate (field ''domain'' req); net = field ''net'' req
           in answer_write (put_entry domain (interpolate net) (new_entry env key req) (st_keys st))
                (put_net domain net (st_connectedNets st)) (succeeded [])))"

definition disconnectKeys :: "Storage \<Rightarrow> request \<Rightarrow> Handled" where
  "disconnectKeys st req =
     (let domain = interpolate (field ''domain'' req); net = field ''net'' req; nets = st_connectedNets st
      in if entry_of (st_keys st) domain (interpolate net) \<noteq> None
         then answer_write (remove_entry domain (interpolate net) (st_keys st))
                (if strict_eq (map_of nets domain) net then AList.delete domain nets else nets) (succeeded [])
         else answer (failed_text ''No keys found to disconnect''))"

text \<open>The decrypted parts of an entry, in the order given.\<close>

fun decrypt_all :: "'k Crypto \<Rightarrow> 'k \<Rightarrow> Encrypted list \<Rightarrow> string + string list" where
  "decrypt_all cr key [] = Inr []"
| "decrypt_all cr key (e # es) =
     (case decryptData cr e key of
        Inl m \<Rightarrow> Inl m
      | Inr x \<Rightarrow> (case decrypt_all cr key es of Inl m \<Rightarrow> Inl m | Inr xs \<Rightarrow> Inr (x # xs)))"

definition open_entry :: "'k Env \<Rightarrow> KeyEntry \<Rightarrow> (KeyEntry \<Rightarrow> Encrypted list) \<Rightarrow> string + string list" where
  "open_entry env e parts =
     (case cr_importKey (ev_crypto env) (ke_exportedKey e) of Inl m \<Rightarrow> Inl m | Inr key \<Rightarrow> decrypt_all (ev_crypto env) key (parts e))"

definition requestData :: "'k Env \<Rightarrow> Storage \<Rightarrow> request \<Rightarrow> Handled" where
  "requestData env st req =
     (let domain = interpolate (field ''domain'' req);
          favicon = (''faviconUrl'', JStr (case map_of (st_faviconUrls st) domain of None \<Rightarrow> [] | Some u \<Rightarrow> u))
      in case entry_of (st_keys st) domain (interpolate (field ''net'' req)) of
           None \<Rightarrow> answer (JObj [(''error'', JStr ''No keys found for domain and net''), favicon])
         | Some e \<Rightarrow>
             answer (case open_entry env e (\<lambda>e. [ke_publicKey e, ke_privateKey e, ke_url e]) of
                       Inr [p, s, u] \<Rightarrow> JObj [(''publicKey'', JStr p), (''privateKey'', JStr s), (''url'', JStr u), favicon]
                     | _ \<Rightarrow> JObj [(''error'', JStr ''Failed to decrypt data''), favicon]))"

definition getConnectedNet :: "Storage \<Rightarrow> request \<Rightarrow> Handled" where
  "getConnectedNet st req =
     (let net = map_of (st_connectedNets st) (interpolate (field ''domain'' req))
      in answer (if is_truthy net then object_of [(''net'', net)] else error_only ''No connected net for domain''))"

text \<open>The entry that a domain is connected to; a missing net is looked up as \<open>undefined\<close>.\<close>

definition connected_entry :: "Storage \<Rightarrow> string \<Rightarrow> KeyEntry option" where
  "connected_entry st domain = entry_of (st_keys st) domain (interpolate (map_of (st_connectedNets st) domain))"

definition not_connected :: string where
  "not_connected = ''No keys found. Please connect your wallet first.''"

definition getPublicKey :: "'k Env \<Rightarrow> Storage \<Rightarrow> request \<Rightarrow> Handled" where
  "getPublicKey env st req =
     answer (case connected_entry st (interpolate (field ''domain'' req)) of
               None \<Rightarrow> failed_text not_connected
             | Some e \<Rightarrow>
                 (case open_entry env e (\<lambda>e. [ke_publicKey e]) of
                    Inr [p] \<Rightarrow> succeeded [(''publicKey'', Some (JStr p))]
                  | _ \<Rightarrow> failed_text ''Failed to retrieve public key''))"

definition getSigningKeys :: "'k Env \<Rightarrow> Storage \<Rightarrow> request \<Rightarrow> Handled" where
  "getSigningKeys env st req =
     answer (case connected_entry st (interpolate (field ''domain'' req)) of
               None \<Rightarrow> failed_text not_connected
             | Some e \<Rightarrow>
                 (case open_entry env e (\<lambda>e. [ke_privateKey e, ke_publicKey e]) of
                    Inr [s, p] \<Rightarrow> succeeded [(''privateKey'', Some (JStr s)), (''publicKey'', Some (JStr p))]
                  | Inl m \<Rightarrow> failed_text (''Failed to retrieve signing keys: '' @ m)
                  | Inr xs \<Rightarrow> failed_text []))"


section \<open>Transactions\<close>

text \<open>The answer to a result of \<open>callKVService\<close>.\<close>

definition kv_answer :: "'k Env \<Rightarrow> string \<Rightarrow> json \<Rightarrow> json" where
  "kv_answer env message result =
     (if is_truthy (opt_member ''success'' (Some result))
      then succeeded [(''data'', Some (JObj [(''postTransaction'',
             JObj [(''id'', or_json (opt_member ''transactionId'' (Some result)) (JStr (generateUUID (ev_random2 env))))])]))]
      else failed (Some (or_json (opt_member ''error'' (Some result)) (JStr message))))"

definition send_kv :: "'k Env \<Rightarrow> string \<Rightarrow> string \<Rightarrow> json option \<Rightarrow> json option \<Rightarrow> string \<Rightarrow> json task" where
  "send_kv env message url address balance signer =
     and_then (callKVService (ev_network env) (ev_random env) url (KvSetBalance address balance) (Some (JStr signer)))
       (\<lambda>result. give (kv_answer env message result))"

definition kv_url :: "string \<Rightarrow> string" where
  "kv_url url = replace_first url ''8400'' ''8000''"

text \<open>Public key and address of an entry.\<close>

definition open_signer :: "'k Env \<Rightarrow> KeyEntry \<Rightarrow> string + string \<times> string" where
  "open_signer env e = map_sum id (\<lambda>xs. (xs ! 0, xs ! 1)) (open_entry env e (\<lambda>e. [ke_publicKey e, ke_url e]))"

text \<open>The checks of the actions that name a net: the domain must be connected to it, and the keys must exist.\<close>

definition with_net :: "Storage \<Rightarrow> request \<Rightarrow> (KeyEntry \<Rightarrow> Handled) \<Rightarrow> Handled" where
  "with_net st req f =
     (let domain = interpolate (field ''domain'' req); net = field ''net'' req; connected = map_of (st_connectedNets st) domain
      in if \<not> is_truthy connected \<or> \<not> strict_eq connected net
         then answer (failed_text ''Not connected to the specified net for this domain.'')
         else case entry_of (st_keys st) domain (interpolate net) of
                None \<Rightarrow> answer (failed_text ''Keys not found for the specified domain and net.'')
              | Some e \<Rightarrow> f e)"

definition submitTransactionFromDashboard :: "'k Env \<Rightarrow> Storage \<Rightarrow> request \<Rightarrow> Handled" where
  "submitTransactionFromDashboard env st req =
     (let tx = field ''transactionData'' req; part = (\<lambda>name. opt_member name tx)
      in if \<not> is_truthy tx \<or> \<not> is_truthy (part ''asset'') \<or> \<not> is_truthy (part ''recipientAddress'') \<or> \<not> is_truthy (part ''amount'')
         then answer (failed_text ''Invalid transaction data.'')
         else with_net st req (\<lambda>e. try_task failed_text
                (and_then (lift (open_signer env e)) (\<lambda>(publicKey, url).
                   and_then (lift (to_string (part ''amount''))) (\<lambda>balance.
                     send_kv env ''Transaction failed'' (kv_url url) (part ''recipientAddress'') (Some (JStr balance)) publicKey)))))"

definition submitTransaction :: "'k Env \<Rightarrow> Storage \<Rightarrow> Sender \<Rightarrow> request \<Rightarrow> Handled" where
  "submitTransaction env st sender req =
     (case sender_url sender of
        None \<Rightarrow> answer (failed_text ''Cannot determine sender URL'')
      | Some url \<Rightarrow>
          (case connected_entry st (getBaseDomain env url) of
             None \<Rightarrow> answer (error_only ''No keys found for domain and net'')
           | Some e \<Rightarrow>
               try_task failed_text (and_then (lift (open_signer env e)) (\<lambda>(publicKey, url).
                 if \<not> is_truthy (field ''recipient'' req) then give (failed_text ''Missing required fields for transaction'')
                 else and_then (lift (to_string (field ''amount'' req))) (\<lambda>balance.
                        send_kv env ''Transaction failed'' (kv_url url) (field ''recipient'' req) (Some (JStr balance)) publicKey)))))"

definition submitLoginTransaction :: "'k Env \<Rightarrow> Storage \<Rightarrow> Sender \<Rightarrow> request \<Rightarrow> Handled" where
  "submitLoginTransaction env st sender req =
     (case sender_url sender of
        None \<Rightarrow> answer (failed_text ''Cannot determine sender URL'')
      | Some url \<Rightarrow>
          (let publicKey = opt_member ''publicKey'' (st_store st)
           in if \<not> is_truthy (st_store st) \<or> \<not> is_truthy publicKey
              then answer (failed_text ''User not authenticated. Please log in to ResVault first.'')
              else try_task failed_text (and_then
                     (callKVService (ev_network env) (ev_random env)
                        (to_text (or_json (st_activeNetUrl st) (JStr ''https://cloud.resilientdb.com/graphql'')))
                        (KvSetBalance (Some (or_json (field ''ownerAddress'' req) (JStr ''0x0000000000000000000000000000000000000000'')))
                           (Some (JStr ''1''))) publicKey)
                     (\<lambda>result. give (kv_answer env ''Login transaction failed'' result)))))"


section \<open>Contracts\<close>

text \<open>Address of an entry.\<close>

definition open_url :: "'k Env \<Rightarrow> KeyEntry \<Rightarrow> string + string" where
  "open_url env e = map_sum id hd (open_entry env e (\<lambda>e. [ke_url e]))"

text \<open>A step of the deployment: it goes on with a value, or answers.\<close>

datatype 'a step = Go 'a | Answer json

definition next_step :: "'a step task \<Rightarrow> ('a \<Rightarrow> json task) \<Rightarrow> json task" where
  "next_step t f = and_then t (\<lambda>s. case s of Answer j \<Rightarrow> give j | Go x \<Rightarrow> f x)"

text \<open>\<open>errors[0].message || ...\<close>, with the text that stands in for a missing message.\<close>

definition first_error :: "(json \<Rightarrow> string) \<Rightarrow> json \<Rightarrow> string + string" where
  "first_error other errors =
     (case get_member ''message'' (index0 errors) of
        Inl m \<Rightarrow> Inl m
      | Inr m \<Rightarrow> Inr (if is_truthy m then to_text (the m) else other (the (index0 errors))))"

text \<open>The check for GraphQL errors that all three replies go through.\<close>

definition reply_errors :: "string \<Rightarrow> (json \<Rightarrow> string) \<Rightarrow> json \<Rightarrow> unit step task" where
  "reply_errors prefix other result =
     (case member ''errors'' result of
        Inl m \<Rightarrow> throw m
      | Inr errors \<Rightarrow>
          (if is_truthy errors \<and> is_truthy (length_member (the errors))
           then and_then (lift (first_error other (the errors))) (\<lambda>m. give (Answer (failed_text (prefix @ m))))
           else give (Go ())))"

definition data_member :: "string \<Rightarrow> json \<Rightarrow> json option" where
  "data_member name result = opt_member name (opt_member ''data'' (Some result))"

definition region_config :: string where
  "region_config = escape_quotes (getResDBConfigJson (Some ''5 127.0.0.1 10005''))"

definition create_account_step :: "'k Env \<Rightarrow> string \<Rightarrow> json step task" where
  "create_account_step env url =
     and_then (fetch_query (ev_network env) url
         (''mutation { createAccount(config: '' @ [CHR 0x22] @ region_config @ [CHR 0x22] @ '', type: '' @ [CHR 0x22] @ ''data'' @ [CHR 0x22] @ '') }''))
       (\<lambda>(status, statusText, text).
          case json_parse text of
            None \<Rightarrow> give (Answer (failed_text ''Server returned invalid response (not JSON) for createAccount. Check the GraphQL endpoint.''))
          | Some result \<Rightarrow>
              and_then (reply_errors ''Error creating account: '' to_text result) (\<lambda>s.
                case s of
                  Answer j \<Rightarrow> give (Answer j)
                | Go _ \<Rightarrow>
                    (let address = data_member ''createAccount'' result
                     in give (if is_truthy address then Go (the address)
                              else Answer (failed_text (''Create account did not return an address. Response: ''
                                     @ (if take 200 text \<noteq> [] then take 200 text else ''empty'')))))))"

definition compile_query :: "string \<Rightarrow> string" where
  "compile_query source =
     ''mutation { compileContract(source: '' @ [CHR 0x22, CHR 0x22, CHR 0x22] @ nl @ escape_triple (replace_char (CHR 0x5C) [CHR 0x5C, CHR 0x5C] source)
     @ nl @ [CHR 0x22, CHR 0x22, CHR 0x22] @ '', type: '' @ [CHR 0x22] @ ''data'' @ [CHR 0x22] @ '') }''"

definition compile_step :: "'k Env \<Rightarrow> string \<Rightarrow> string \<Rightarrow> json step task" where
  "compile_step env url source =
     and_then (fetch_query (ev_network env) url (compile_query source)) (\<lambda>(status, statusText, text).
       if \<not> response_ok status then throw (''Network response was not ok: '' @ statusText)
       else case json_parse text of
              None \<Rightarrow> give (Answer (object_of [(''success'', Some (JBool False)),
                 (''error'', Some (JStr ''Server returned invalid response (not JSON). Check the server URL (e.g. .../graphql) and that the Smart Contract GraphQL API is running.'')),
                 (''detail'', Some (JStr (ev_syntax_error env text)))]))
            | Some result \<Rightarrow>
                and_then (reply_errors ''Compile failed: '' stringify result) (\<lambda>s.
                  case s of
                    Answer j \<Rightarrow> give (Answer j)
                  | Go _ \<Rightarrow>
                      (let name = data_member ''compileContract'' result
                       in give (if is_truthy name then Go (the name) else Answer (failed_text ''Failed to compile contract.'')))))"

text \<open>\<open>contract_name.split(':')[1] || contract_name\<close>.\<close>

definition short_name :: "string \<Rightarrow> string" where
  "short_name name = (case split_char (CHR '':'') name of _ # x # _ \<Rightarrow> if x \<noteq> [] then x else name | _ \<Rightarrow> name)"

definition deploy_answer :: "request \<Rightarrow> json option \<Rightarrow> json \<Rightarrow> json" where
  "deploy_answer req name deployData =
     (let raw = (\<lambda>address. succeeded [(''contractAddress'', Some (JStr address)), (''ownerAddress'', field ''ownerAddress'' req),
                (''contractName'', name), (''rawResponse'', Some deployData)])
      in case deployData of
           JStr s \<Rightarrow> raw ''deployment_successful''
         | _ \<Rightarrow> (let address = opt_member ''contractAddress'' (Some deployData)
                 in if is_truthy address
                    then succeeded [(''contractAddress'', address), (''ownerAddress'', opt_member ''ownerAddress'' (Some deployData)),
                           (''contractName'', opt_member ''contractName'' (Some deployData))]
                    else raw ''deployed_successfully''))"

definition deploy_step :: "'k Env \<Rightarrow> string \<Rightarrow> request \<Rightarrow> json option \<Rightarrow> string \<Rightarrow> json task" where
  "deploy_step env url req name mutation =
     and_then (fetch_query (ev_network env) url mutation) (\<lambda>(status, statusText, text).
       if \<not> response_ok status then throw (''Network response was not ok: '' @ statusText)
       else case json_parse text of
              None \<Rightarrow> give (failed_text ''Server returned invalid response (not JSON) for deploy. Deployment may have succeeded; check the server. If this persists, check the GraphQL endpoint.'')
            | Some result \<Rightarrow>
                next_step (reply_errors ''Deploy failed: '' to_text result) (\<lambda>_.
                  (let deployData = data_member ''deployContract'' result
                   in give (if is_truthy deployData then deploy_answer req name (the deployData)
                            else failed_text ''Failed to parse deployment output.''))))"

text \<open>The mutation of the last step: all four texts are needed as strings, in this order.\<close>

definition deploy_text :: "json option \<Rightarrow> json option \<Rightarrow> json \<Rightarrow> json \<Rightarrow> string task" where
  "deploy_text name args address filename =
     and_then (lift (string_method ''contract_name'' ''replace'' name)) (\<lambda>n.
       and_then (lift (string_method ''args'' ''replace'' args)) (\<lambda>a.
         and_then (lift (string_method ''createdAccountAddress'' ''replace'' (Some address))) (\<lambda>owner.
           and_then (lift (string_method ''contractFilename'' ''replace'' (Some filename))) (\<lambda>f.
             give (deploy_chain_mutation region_config (escape_quotes f) (replace_first f ''.json'' ''.sol'') (short_name n)
                     (escape_quotes a) (escape_quotes owner))))))"

text \<open>Destructuring \<open>request.deployConfig\<close>.\<close>

definition deploy_config :: "request \<Rightarrow> unit task" where
  "deploy_config req =
     (case field ''deployConfig'' req of
        None \<Rightarrow> throw (''Cannot destructure property 'arguments' of 'request.deployConfig' as it is undefined.'')
      | Some JNull \<Rightarrow> throw (''Cannot destructure property 'arguments' of 'request.deployConfig' as it is null.'')
      | Some v \<Rightarrow> give ())"

definition deployContractChain :: "'k Env \<Rightarrow> Storage \<Rightarrow> request \<Rightarrow> Handled" where
  "deployContractChain env st req =
     with_net st req (\<lambda>e. try_task failed_text
       (and_then (lift (open_url env e)) (\<lambda>url.
          next_step (create_account_step env url) (\<lambda>address.
            and_then (deploy_config req) (\<lambda>_.
              and_then (lift (string_method ''soliditySource'' ''replace'' (field ''soliditySource'' req))) (\<lambda>source.
                next_step (compile_step env url source) (\<lambda>filename.
                  (let config = field ''deployConfig'' req; name = opt_member ''contract_name'' config
                   in and_then (deploy_text name (opt_member ''arguments'' config) address filename)
                        (\<lambda>mutation. deploy_step env url req name mutation)))))))))"

definition executeContractFunction :: "'k Env \<Rightarrow> Storage \<Rightarrow> request \<Rightarrow> Handled" where
  "executeContractFunction env st req =
     with_net st req (\<lambda>e. try_task failed_text
       (and_then (lift (open_url env e)) (\<lambda>url.
          and_then (callContractService (ev_network env) url
              (Execute (field ''ownerAddress'' req) (field ''contractAddress'' req) (field ''functionName'' req) (field ''functionArgs'' req)))
            (\<lambda>result. give
               (if is_truthy (opt_member ''success'' (Some result))
                then succeeded [(''transactionId'', Some (or_json (opt_member ''transactionId'' (Some result)) (JStr (generateUUID (ev_random env))))),
                       (''result'', opt_member ''result'' (Some result)), (''message'', Some (JStr ''Contract function executed successfully.''))]
                else failed_text (''Failed to execute contract function: ''
                       @ to_text (or_json (opt_member ''error'' (Some result)) (JStr ''Unknown error''))))))))"


section \<open>The listener\<close>

definition onMessage :: "'k Env \<Rightarrow> Storage \<Rightarrow> Sender \<Rightarrow> request \<Rightarrow> Handled" where
  "onMessage env st sender req =
     (let action = (\<lambda>a. field ''action'' req = Some (JStr a))
      in if action ''storeKeys'' then storeKeys env st req
         else if action ''disconnectKeys'' then disconnectKeys st req
         else if action ''requestData'' then requestData env st req
         else if action ''getConnectedNet'' then getConnectedNet st req
         else if action ''getPublicKey'' then getPublicKey env st req
         else if action ''getSigningKeys'' then getSigningKeys env st req
         else if action ''submitTransactionFromDashboard'' then submitTransactionFromDashboard env st req
         else if action ''submitTransaction'' then submitTransaction env st sender req
         else if action ''submitLoginTransaction'' then submitLoginTransaction env st sender req
         else if action ''deployContractChain'' then deployContractChain env st req
         else if action ''executeContractFunction'' then executeContractFunction env st req
         else \<lparr>hd_write = None, hd_requests = [], hd_response = None\<rparr>)"

definition apply_write :: "Handled \<Rightarrow> Storage \<Rightarrow> Storage" where
  "apply_write h st = (case hd_write h of None \<Rightarrow> st | Some (keys, nets) \<Rightarrow> st\<lparr>st_keys := keys, st_connectedNets := nets\<rparr>)"

text \<open>A message that is handled to its end before the next one.\<close>

definition handle_one :: "'k Env \<times> Sender \<times> request \<Rightarrow> Storage \<Rightarrow> Storage" where
  "handle_one m st = (case m of (env, sender, req) \<Rightarrow> apply_write (onMessage env st sender req) st)"

end
