(* ===== verification/Wallet_Keys.thy ===== *)
theory Wallet_Keys
  imports Wallet_Background Key_Value
begin

text \<open>
  What the wallet's background script promises about keys: a specification with one map from domains
  and nets to keys and one from domains to nets, the proof that the handlers refine it when
  messages do not overlap, and what happens when they do.
\<close>

section \<open>The key table\<close>

lemma entry_of_put: "entry_of (put_entry d n e keys) d' n' = (if d' = d \<and> n' = n then Some e else entry_of keys d' n')"
  by (auto simp: entry_of_def put_entry_def update_conv' split: option.split)

lemma map_of_delete: "map_of (AList.delete k al) k' = (if k' = k then None else map_of al k')"
  by (simp add: delete_conv')

lemma entry_of_remove: "entry_of (remove_entry d n keys) d' n' = (if d' = d \<and> n' = n then None else entry_of keys d' n')"
proof -
  have "map_of nets n' = None" if "AList.delete n nets = []" "n' \<noteq> n" for nets :: "(string \<times> KeyEntry) list"
    using that map_of_delete [of n nets n'] by simp
  then show ?thesis
    by (auto simp: entry_of_def remove_entry_def update_conv' map_of_delete Let_def split: option.split)
qed

interpretation wk: erasable_store "\<lambda>(d, n) e. put_entry d n e" "\<lambda>keys (d, n). entry_of keys d n" "\<lambda>_. True" "\<lambda>_. True"
    "\<lambda>(d, n). remove_entry d n"
  by unfold_locales (auto simp: entry_of_put entry_of_remove split: if_splits)


section \<open>Connected domains have keys\<close>

text \<open>
  Messages that store or disconnect keys name the net by a text, as the wallet's own pages send it.
  Nothing is asked of any other message.
\<close>

definition text_net :: "request \<Rightarrow> bool" where
  "text_net req \<longleftrightarrow>
     (field ''action'' req \<in> {Some (JStr ''storeKeys''), Some (JStr ''disconnectKeys'')} \<longrightarrow> (\<exists>n. field ''net'' req = Some (JStr n)))"

definition consistent :: "Storage \<Rightarrow> bool" where
  "consistent st \<longleftrightarrow> (\<forall>d v. map_of (st_connectedNets st) d = Some v \<longrightarrow> (\<exists>n. v = JStr n \<and> entry_of (st_keys st) d n \<noteq> None))"

lemma hd_write_answer [simp]: "hd_write (answer j) = None" "hd_write (try_task f t) = None" "hd_write (answer_write k n j) = Some (k, n)"
  by (simp_all add: answer_def try_task_def answer_write_def)

lemma with_net_write: "(\<And>e. hd_write (f e) = None) \<Longrightarrow> hd_write (with_net st req f) = None"
  by (simp add: with_net_def Let_def split: option.split)

lemma only_keys_written:
  assumes "hd_write (onMessage env st sender req) = Some w"
  shows "(field ''action'' req = Some (JStr ''storeKeys'') \<and> hd_write (storeKeys env st req) = Some w)
    \<or> (field ''action'' req = Some (JStr ''disconnectKeys'') \<and> hd_write (disconnectKeys st req) = Some w)"
  using assms
  by (auto simp: onMessage_def Let_def requestData_def getConnectedNet_def getPublicKey_def getSigningKeys_def with_net_write
      submitTransactionFromDashboard_def submitTransaction_def submitLoginTransaction_def deployContractChain_def
      executeContractFunction_def split: if_splits option.splits)

lemma storeKeys_write:
  "hd_write (storeKeys env st req) =
     (case ev_generateKey env of
        Inl m \<Rightarrow> None
      | Inr key \<Rightarrow> Some (put_entry (interpolate (field ''domain'' req)) (interpolate (field ''net'' req)) (new_entry env key req) (st_keys st),
          put_net (interpolate (field ''domain'' req)) (field ''net'' req) (st_connectedNets st)))"
  by (simp add: storeKeys_def Let_def split: sum.split)

lemma disconnectKeys_write:
  "hd_write (disconnectKeys st req) =
     (let d = interpolate (field ''domain'' req); net = field ''net'' req; nets = st_connectedNets st
      in if entry_of (st_keys st) d (interpolate net) \<noteq> None
         then Some (remove_entry d (interpolate net) (st_keys st), if strict_eq (map_of nets d) net then AList.delete d nets else nets)
         else None)"
  by (simp add: disconnectKeys_def Let_def)

lemma interpolate_text [simp]: "interpolate (Some (JStr s)) = s"
  by (simp add: interpolate_def)

lemma consistent_put:
  assumes "consistent st"
  shows "consistent (st\<lparr>st_keys := put_entry d n e (st_keys st), st_connectedNets := AList.update d (JStr n) (st_connectedNets st)\<rparr>)"
  using assms by (auto simp: consistent_def update_conv' entry_of_put split: if_splits)

lemma consistent_remove:
  assumes "consistent st"
  shows "consistent (st\<lparr>st_keys := remove_entry d n (st_keys st),
    st_connectedNets := (if strict_eq (map_of (st_connectedNets st) d) (Some (JStr n)) then AList.delete d (st_connectedNets st)
       else st_connectedNets st)\<rparr>)"
proof -
  have "strict_eq (Some (JStr m)) (Some (JStr n)) \<longleftrightarrow> m = n" for m by simp
  then show ?thesis using assms by (fastforce simp: consistent_def map_of_delete entry_of_remove split: if_splits)
qed

lemma consistent_step:
  assumes "consistent st" "text_net req"
  shows "consistent (handle_one (env, sender, req) st)"
proof (cases "hd_write (onMessage env st sender req)")
  case None
  then show ?thesis using assms(1) by (simp add: handle_one_def apply_write_def)
next
  case (Some w)
  obtain n where n: "field ''net'' req = Some (JStr n)" using assms(2) only_keys_written [OF Some] by (auto simp: text_net_def)
  from only_keys_written [OF Some] show ?thesis
  proof
    assume "field ''action'' req = Some (JStr ''storeKeys'') \<and> hd_write (storeKeys env st req) = Some w"
    then show ?thesis using Some consistent_put [OF assms(1)] n
      by (auto simp: handle_one_def apply_write_def storeKeys_write put_net_def split: sum.splits)
  next
    assume "field ''action'' req = Some (JStr ''disconnectKeys'') \<and> hd_write (disconnectKeys st req) = Some w"
    then show ?thesis using Some consistent_remove [OF assms(1), of "interpolate (field ''domain'' req)" n] n
      by (auto simp: handle_one_def apply_write_def disconnectKeys_write Let_def simp del: strict_eq.simps split: if_splits)
  qed
qed

text \<open>
  C22. A domain that is recorded as connected always has keys for its net: from the empty storage, whatever
  messages arrive and however encryption and network behave, provided that each message is handled
  before the next and that those which store or disconnect keys name the net by a text.
\<close>

theorem connected_has_keys:
  assumes "list_all (\<lambda>(env, sender, req). text_net req) ms"
    and "map_of (st_connectedNets (fold handle_one ms empty_storage)) d = Some v"
  shows "\<exists>n. v = JStr n \<and> entry_of (st_keys (fold handle_one ms empty_storage)) d n \<noteq> None"
proof -
  have "consistent st \<Longrightarrow> consistent (fold handle_one ms st)" for st
    using assms(1) by (induction ms arbitrary: st) (auto simp: consistent_step split: prod.splits)
  moreover have "consistent empty_storage" by (simp add: consistent_def empty_storage_def)
  ultimately show ?thesis using assms(2) by (auto simp: consistent_def)
qed


section \<open>Refinement of a specification\<close>

text \<open>What AES-GCM and the key formats give: decryption inverts encryption, and import inverts export.\<close>

definition crypto_ok :: "'k Crypto \<Rightarrow> bool" where
  "crypto_ok cr \<longleftrightarrow> (\<forall>k iv x. cr_decrypt cr k iv (cr_encrypt cr k iv x) = Inr x) \<and> (\<forall>k. cr_importKey cr (cr_exportKey cr k) = Inr k)"

lemma decrypt_encrypt: "crypto_ok cr \<Longrightarrow> decryptData cr (encryptData cr iv x k) k = Inr x"
  by (simp add: crypto_ok_def decryptData_def encryptData_def base64ToUint8Array_def uint8ArrayToBase64_def)

text \<open>The keys of a domain and net are public key, private key and address.\<close>

type_synonym wallet_keys = "string \<times> string \<times> string"

record WalletSpec =
  ws_keys :: "string \<times> string \<rightharpoonup> wallet_keys"
  ws_net :: "string \<rightharpoonup> string"

definition ws_empty :: WalletSpec where
  "ws_empty = \<lparr>ws_keys = Map.empty, ws_net = Map.empty\<rparr>"

datatype wallet_op = Connect string string wallet_keys | Disconnect string string

fun ws_step :: "wallet_op \<Rightarrow> WalletSpec \<Rightarrow> WalletSpec" where
  "ws_step (Connect d n ks) w = \<lparr>ws_keys = (ws_keys w)((d, n) \<mapsto> ks), ws_net = (ws_net w)(d \<mapsto> n)\<rparr>"
| "ws_step (Disconnect d n) w =
     (if ws_keys w (d, n) = None then w
      else \<lparr>ws_keys = (ws_keys w)((d, n) := None), ws_net = (if ws_net w d = Some n then (ws_net w)(d := None) else ws_net w)\<rparr>)"

text \<open>The keys that a domain uses. Without a net the script looks for one called \<open>undefined\<close>.\<close>

definition ws_current :: "WalletSpec \<Rightarrow> string \<Rightarrow> wallet_keys option" where
  "ws_current w d = ws_keys w (d, case ws_net w d of None \<Rightarrow> ''undefined'' | Some n \<Rightarrow> n)"

fun op_message :: "wallet_op \<Rightarrow> request" where
  "op_message (Connect d n (p, s, u)) =
     [(''action'', JStr ''storeKeys''), (''domain'', JStr d), (''net'', JStr n), (''publicKey'', JStr p), (''privateKey'', JStr s), (''url'', JStr u)]"
| "op_message (Disconnect d n) = [(''action'', JStr ''disconnectKeys''), (''domain'', JStr d), (''net'', JStr n)]"

definition ask :: "string \<Rightarrow> string \<Rightarrow> request" where
  "ask a d = [(''action'', JStr a), (''domain'', JStr d)]"

definition ws_signing :: "wallet_keys option \<Rightarrow> json" where
  "ws_signing k = (case k of
     None \<Rightarrow> failed_text not_connected
   | Some (p, s, u) \<Rightarrow> succeeded [(''privateKey'', Some (JStr s)), (''publicKey'', Some (JStr p))])"

definition ws_public :: "wallet_keys option \<Rightarrow> json" where
  "ws_public k = (case k of None \<Rightarrow> failed_text not_connected | Some (p, s, u) \<Rightarrow> succeeded [(''publicKey'', Some (JStr p))])"

text \<open>A stored entry that opens to given keys, and the relation between a storage and the specification.\<close>

definition opens :: "'k Crypto \<Rightarrow> KeyEntry \<Rightarrow> wallet_keys \<Rightarrow> bool" where
  "opens cr e ks \<longleftrightarrow> (case ks of (p, s, u) \<Rightarrow> \<exists>key. cr_importKey cr (ke_exportedKey e) = Inr key \<and> decryptData cr (ke_publicKey e) key = Inr p
     \<and> decryptData cr (ke_privateKey e) key = Inr s \<and> decryptData cr (ke_url e) key = Inr u)"

definition implements :: "'k Crypto \<Rightarrow> Storage \<Rightarrow> WalletSpec \<Rightarrow> bool" where
  "implements cr st w \<longleftrightarrow> (\<forall>d n. rel_option (opens cr) (entry_of (st_keys st) d n) (ws_keys w (d, n)))
     \<and> (\<forall>d. map_of (st_connectedNets st) d = map_option JStr (ws_net w d))"

lemma opens_new_entry:
  assumes "crypto_ok (ev_crypto env)"
  shows "opens (ev_crypto env) (new_entry env key req)
    (text_arg (field ''publicKey'' req), text_arg (field ''privateKey'' req), text_arg (field ''url'' req))"
  using assms decrypt_encrypt [OF assms]
  by (auto simp: opens_def new_entry_def crypto_ok_def Let_def split: prod.split)

lemma implementsD:
  assumes "implements cr st w"
  shows "rel_option (opens cr) (entry_of (st_keys st) d n) (ws_keys w (d, n))" "map_of (st_connectedNets st) d = map_option JStr (ws_net w d)"
  using assms by (simp_all add: implements_def)

lemma implements_put:
  assumes "implements cr st w" "opens cr e ks"
  shows "implements cr (st\<lparr>st_keys := put_entry d n e (st_keys st), st_connectedNets := AList.update d (JStr n) (st_connectedNets st)\<rparr>)
    (ws_step (Connect d n ks) w)"
  using assms by (auto simp: implements_def entry_of_put update_conv')

lemma implements_remove:
  assumes "implements cr st w" "ws_keys w (d, n) \<noteq> None"
  shows "implements cr (st\<lparr>st_keys := remove_entry d n (st_keys st),
    st_connectedNets := (if ws_net w d = Some n then AList.delete d (st_connectedNets st) else st_connectedNets st)\<rparr>)
    (ws_step (Disconnect d n) w)"
  using assms by (auto simp: implements_def entry_of_remove map_of_delete)

lemma entry_None: "implements cr st w \<Longrightarrow> entry_of (st_keys st) d n = None \<longleftrightarrow> ws_keys w (d, n) = None"
  using implementsD(1) [of cr st w d n] by (auto simp: option_rel_Some1 option_rel_Some2 split: option.splits elim: option.rel_cases)

lemma strict_eq_text: "strict_eq (map_option JStr x) (Some (JStr n)) \<longleftrightarrow> x = Some n"
  by (cases x) simp_all

lemma implements_step:
  assumes "implements cr st w" "crypto_ok cr" "ev_crypto env = cr" "ev_generateKey env = Inr key"
  shows "implements cr (handle_one (env, sender, op_message opr) st) (ws_step opr w)"
proof (cases opr)
  case (Connect d n ks)
  obtain p s u where ks: "ks = (p, s, u)" by (cases ks)
  let ?e = "new_entry env key (op_message opr)"
  have "opens cr ?e ks"
    using opens_new_entry [of env key "op_message opr"] assms(2,3) by (simp add: Connect ks field_def text_arg_def)
  then have "implements cr (st\<lparr>st_keys := put_entry d n ?e (st_keys st), st_connectedNets := AList.update d (JStr n) (st_connectedNets st)\<rparr>) (ws_step opr w)"
    using implements_put [OF assms(1)] by (simp add: Connect)
  then show ?thesis using assms(4)
    by (simp add: handle_one_def onMessage_def apply_write_def storeKeys_write Connect ks field_def put_net_def)
next
  case (Disconnect d n)
  show ?thesis
  proof (cases "ws_keys w (d, n) = None")
    case True
    then show ?thesis using entry_None [OF assms(1), of d n] assms(1)
      by (simp add: handle_one_def onMessage_def apply_write_def disconnectKeys_write Disconnect field_def)
  next
    case False
    then have "entry_of (st_keys st) d n \<noteq> None" using entry_None [OF assms(1), of d n] by simp
    moreover have "strict_eq (map_of (st_connectedNets st) d) (Some (JStr n)) \<longleftrightarrow> ws_net w d = Some n"
      using implementsD(2) [OF assms(1)] strict_eq_text by metis
    ultimately have "hd_write (disconnectKeys st (op_message opr)) =
        Some (remove_entry d n (st_keys st), if ws_net w d = Some n then AList.delete d (st_connectedNets st) else st_connectedNets st)"
      by (simp add: disconnectKeys_write Disconnect field_def Let_def del: strict_eq.simps)
    then have "handle_one (env, sender, op_message opr) st = st\<lparr>st_keys := remove_entry d n (st_keys st),
        st_connectedNets := (if ws_net w d = Some n then AList.delete d (st_connectedNets st) else st_connectedNets st)\<rparr>"
      by (simp add: handle_one_def onMessage_def apply_write_def Disconnect field_def)
    then show ?thesis using implements_remove [OF assms(1) False] unfolding Disconnect by (simp only:)
  qed
qed

lemma opens_parts:
  assumes "opens (ev_crypto env) e (p, s, u)"
  shows "open_entry env e (\<lambda>e. [ke_publicKey e]) = Inr [p]" "open_entry env e (\<lambda>e. [ke_privateKey e, ke_publicKey e]) = Inr [s, p]"
    "open_entry env e (\<lambda>e. [ke_publicKey e, ke_privateKey e, ke_url e]) = Inr [p, s, u]"
    "open_signer env e = Inr (p, u)" "open_url env e = Inr u"
  using assms by (auto simp: opens_def open_entry_def open_signer_def open_url_def)

lemma connected_rel:
  assumes "implements cr st w"
  shows "rel_option (opens cr) (connected_entry st d) (ws_current w d)"
proof -
  have "interpolate (map_of (st_connectedNets st) d) = (case ws_net w d of None \<Rightarrow> ''undefined'' | Some n \<Rightarrow> n)"
    using implementsD(2) [OF assms, of d] by (simp add: interpolate_def split: option.split)
  then show ?thesis using implementsD(1) [OF assms] by (simp add: connected_entry_def ws_current_def)
qed

lemma answers_current:
  assumes "implements (ev_crypto env) st w"
  shows "hd_response (onMessage env st sender (ask ''getSigningKeys'' d)) = Some (ws_signing (ws_current w d))"
    and "hd_response (onMessage env st sender (ask ''getPublicKey'' d)) = Some (ws_public (ws_current w d))"
  using connected_rel [OF assms, of d]
  by (cases "connected_entry st d"; cases "ws_current w d";
      auto simp: onMessage_def ask_def field_def getSigningKeys_def getPublicKey_def answer_def ws_signing_def ws_public_def opens_parts)+

text \<open>
  C2. Storing and disconnecting keys refine the two maps: after any sequence of such messages, each
  handled before the next, with any keys, nonces and senders, the wallet gives every domain the
  keys and the public key of the specification, and no others.
\<close>

theorem wallet_refines_maps:
  assumes "crypto_ok cr" "list_all (\<lambda>(env, sender, opr). ev_crypto env = cr \<and> (\<exists>key. ev_generateKey env = Inr key)) ms"
    and "ev_crypto env = cr"
    and "st = fold (\<lambda>(env, sender, opr). handle_one (env, sender, op_message opr)) ms empty_storage"
    and "w = fold (\<lambda>(env, sender, opr). ws_step opr) ms ws_empty"
  shows "hd_response (onMessage env st sender (ask ''getSigningKeys'' d)) = Some (ws_signing (ws_current w d))
    \<and> hd_response (onMessage env st sender (ask ''getPublicKey'' d)) = Some (ws_public (ws_current w d))"
proof -
  have run: "implements cr st' w' \<Longrightarrow> implements cr (fold (\<lambda>(env, sender, opr). handle_one (env, sender, op_message opr)) ms st')
      (fold (\<lambda>(env, sender, opr). ws_step opr) ms w')" for st' w'
    using assms(2)
  proof (induction ms arbitrary: st' w')
    case (Cons m ms)
    obtain e sn opr where m: "m = (e, sn, opr)" by (cases m)
    obtain key where e: "ev_crypto e = cr" "ev_generateKey e = Inr key" using Cons.prems(2) by (auto simp: m)
    have "implements cr (handle_one (e, sn, op_message opr) st') (ws_step opr w')"
      by (rule implements_step [OF Cons.prems(1) assms(1) e])
    then show ?case using Cons.IH Cons.prems(2) by (simp add: m)
  qed simp
  have "implements cr empty_storage ws_empty" by (simp add: implements_def empty_storage_def ws_empty_def entry_of_def)
  then have "implements cr st w" unfolding assms(4,5) by (rule run)
  then have "implements (ev_crypto env) st w" by (simp only: assms(3))
  from answers_current [OF this] show ?thesis by blast
qed

text \<open>Encryption that leaves the text as it is has the two laws.\<close>

definition plain_crypto :: "unit Crypto" where
  "plain_crypto = \<lparr>cr_encrypt = (\<lambda>k iv x. x), cr_decrypt = (\<lambda>k iv x. Inr x), cr_exportKey = (\<lambda>k. JNull), cr_importKey = (\<lambda>j. Inr ()),
     cr_other_text = (\<lambda>b. [])\<rparr>"

definition sample_env :: "unit Env" where
  "sample_env = \<lparr>ev_crypto = plain_crypto, ev_generateKey = Inr (), ev_ivs = ([1], [2], [3]), ev_random = [], ev_random2 = [],
     ev_network = (\<lambda>u b. FetchThrows ''offline''), ev_hostname = Some, ev_syntax_error = (\<lambda>t. [])\<rparr>"

definition page :: "string \<Rightarrow> Sender" where
  "page url = \<lparr>sd_tabUrl = Some url, sd_url = None, sd_origin = None\<rparr>"

lemma plain_crypto_ok: "crypto_ok plain_crypto"
  by (simp add: crypto_ok_def plain_crypto_def)

lemma sample_env_sel [simp]: "ev_crypto sample_env = plain_crypto" "ev_generateKey sample_env = Inr ()" "ev_hostname sample_env = Some"
  by (simp_all add: sample_env_def)

theorem wallet_refines_maps_witness:
  "hd_response (onMessage sample_env
      (fold (\<lambda>(env, sender, opr). handle_one (env, sender, op_message opr))
         [(sample_env, page ''a'', Connect ''a'' ''net'' (''pub'', ''priv'', ''url'')), (sample_env, page ''b'', Connect ''b'' ''net'' (''p'', ''s'', ''u''))]
         empty_storage) (page ''a'') (ask ''getSigningKeys'' ''a''))
   = Some (succeeded [(''privateKey'', Some (JStr ''priv'')), (''publicKey'', Some (JStr ''pub''))])"
  using wallet_refines_maps [OF plain_crypto_ok _ _ refl refl, of
      "[(sample_env, page ''a'', Connect ''a'' ''net'' (''pub'', ''priv'', ''url'')), (sample_env, page ''b'', Connect ''b'' ''net'' (''p'', ''s'', ''u''))]"
      sample_env "page ''a''" "''a''"]
  by (simp add: ws_empty_def ws_current_def ws_signing_def)

theorem connected_has_keys_witness:
  "\<exists>n. JStr ''net'' = JStr n \<and> entry_of (st_keys (fold handle_one
      [(sample_env, page ''a'', op_message (Connect ''a'' ''net'' (''pub'', ''priv'', ''url'')))] empty_storage)) ''a'' n \<noteq> None"
  by (rule connected_has_keys)
     (simp_all add: text_net_def field_def handle_one_def onMessage_def apply_write_def storeKeys_write put_net_def empty_storage_def)


text \<open>
  The condition on the nets is needed: after keys are stored for the net 5, the number, disconnecting
  the net whose name is the text of that number removes the keys and leaves the domain connected.
\<close>

lemma number_net_stays_connected:
  fixes keys net
  defines "keys \<equiv> [(''action'', JStr ''storeKeys''), (''domain'', JStr ''a''), (''net'', JNum 5 0)]"
    and "net \<equiv> [(''action'', JStr ''disconnectKeys''), (''domain'', JStr ''a''), (''net'', JStr ''5'')]"
  shows "map_of (st_connectedNets (fold handle_one [(sample_env, page ''a'', keys), (sample_env, page ''a'', net)] empty_storage)) ''a'' = Some (JNum 5 0)
    \<and> st_keys (fold handle_one [(sample_env, page ''a'', keys), (sample_env, page ''a'', net)] empty_storage) = []"
  unfolding keys_def net_def by code_simp


section \<open>Overlapping messages\<close>

text \<open>
  C27. Two pages are connected at the same time: both handlers read the storage before either has
  written. Both answer with success, but the second write contains what was read, and the first
  domain has no keys afterwards.
\<close>

theorem overlapping_connects_lose_keys:
  assumes "ev_generateKey env = Inr k" "ev_generateKey env' = Inr k'" "d \<noteq> d'"
    and "first = onMessage env empty_storage sender (op_message (Connect d n ks))"
    and "second = onMessage env' empty_storage sender' (op_message (Connect d' n' ks'))"
  shows "hd_response first = Some (succeeded []) \<and> hd_response second = Some (succeeded [])
    \<and> hd_response (onMessage env (apply_write second (apply_write first empty_storage)) sender (ask ''getSigningKeys'' d))
        = Some (failed_text not_connected)"
proof -
  obtain p s u where ks: "ks = (p, s, u)" by (cases ks)
  obtain p' s' u' where ks': "ks' = (p', s', u')" by (cases ks')
  have f: "first = storeKeys env empty_storage (op_message (Connect d n ks))" "second = storeKeys env' empty_storage (op_message (Connect d' n' ks'))"
    using assms(4,5) by (simp_all add: onMessage_def field_def ks ks')
  have "connected_entry (apply_write second (apply_write first empty_storage)) d = None"
    using assms(1-3) unfolding f
    by (simp add: connected_entry_def apply_write_def storeKeys_write field_def ks ks' put_net_def put_entry_def entry_of_def empty_storage_def)
  then show ?thesis using assms(1,2) unfolding f
    by (simp add: storeKeys_def answer_write_def onMessage_def ask_def field_def getSigningKeys_def answer_def Let_def)
qed

theorem overlapping_connects_lose_keys_witness:
  "hd_response (onMessage sample_env
      (apply_write (onMessage sample_env empty_storage (page ''b'') (op_message (Connect ''b'' ''net'' (''p'', ''s'', ''u''))))
        (apply_write (onMessage sample_env empty_storage (page ''a'') (op_message (Connect ''a'' ''net'' (''pub'', ''priv'', ''url'')))) empty_storage))
      (page ''a'') (ask ''getSigningKeys'' ''a'')) = Some (failed_text not_connected)"
  using overlapping_connects_lose_keys [OF _ _ _ refl refl, of sample_env "()" sample_env "()" "''a''" "''b''" "page ''a''" "''net''"
      "(''pub'', ''priv'', ''url'')" "page ''b''" "''net''" "(''p'', ''s'', ''u'')"]
  by simp

end
