(* ===== verification/Wallet_Network.thy ===== *)
theory Wallet_Network
  imports Wallet_Keys
begin

text \<open>
  What the wallet's background script sends over the network: which actions send requests, to which
  of the stored addresses, and what a page can put into such a request.
\<close>

section \<open>Destinations\<close>

text \<open>All requests of a task go to addresses with a property.\<close>

definition sends :: "(string \<Rightarrow> bool) \<Rightarrow> 'a task \<Rightarrow> bool" where
  "sends P t \<longleftrightarrow> list_all (\<lambda>r. P (fst r)) (fst t)"

named_theorems sends

lemma sends_pure [sends]: "sends P (give x)" "sends P (throw m)" "sends P (lift r)"
  by (simp_all add: sends_def give_def throw_def lift_def)

lemma sends_fetch [sends]: "P url \<Longrightarrow> sends P (fetch_query net url q)"
  by (simp add: sends_def fetch_query_def)

lemma sends_and_then:
  assumes "sends P t" "\<And>x. snd t = Inr x \<Longrightarrow> sends P (f x)"
  shows "sends P (and_then t f)"
  using assms by (auto simp: sends_def and_then_def split: sum.split)

lemma sends_next_step:
  assumes "sends P t" "\<And>x. sends P (f x)"
  shows "sends P (next_step t f)"
  unfolding next_step_def using assms by (auto intro!: sends_and_then sends_pure split: step.split)

lemma sends_callKV [sends]: "P url \<Longrightarrow> sends P (callKVService net rs url cmd s)"
  by (auto simp: callKVService_def intro!: sends_and_then sends split: kv_command.split)

lemma sends_contract [sends]: "P url \<Longrightarrow> sends P (callContractService net url cmd)"
  by (auto simp: callContractService_def intro!: sends_and_then sends)

lemma sends_send_kv [sends]: "P url \<Longrightarrow> sends P (send_kv env m url a b s)"
  by (auto simp: send_kv_def intro!: sends_and_then sends)

lemma sends_reply_errors [sends]: "sends P (reply_errors p f j)"
  by (auto simp: reply_errors_def intro!: sends_and_then sends split: sum.split)

lemma sends_create_account [sends]: "P url \<Longrightarrow> sends P (create_account_step env url)"
  by (auto simp: create_account_step_def Let_def intro!: sends_and_then sends split: option.split step.split)

lemma sends_compile [sends]: "P url \<Longrightarrow> sends P (compile_step env url source)"
  by (auto simp: compile_step_def Let_def intro!: sends_and_then sends split: option.split step.split)

lemma sends_deploy_text [sends]: "sends P (deploy_text n a x f)"
  by (auto simp: deploy_text_def intro!: sends_and_then sends)

lemma sends_deploy [sends]: "P url \<Longrightarrow> sends P (deploy_step env url req name m)"
  by (auto simp: deploy_step_def Let_def intro!: sends_and_then sends_next_step sends split: option.split)

lemma sends_deploy_config [sends]: "sends P (deploy_config req)"
  by (auto simp: deploy_config_def intro!: sends split: option.split json.split)

text \<open>The same for a handler.\<close>

definition handler_sends :: "(string \<Rightarrow> bool) \<Rightarrow> Handled \<Rightarrow> bool" where
  "handler_sends P h \<longleftrightarrow> list_all (\<lambda>r. P (fst r)) (hd_requests h)"

lemma handler_sends_answer [simp]: "handler_sends P (answer j)" "handler_sends P (answer_write k n j)"
  by (simp_all add: handler_sends_def answer_def answer_write_def)

lemma handler_sends_try: "sends P t \<Longrightarrow> handler_sends P (try_task f t)"
  by (simp add: handler_sends_def try_task_def sends_def)

text \<open>
  The domain that a message speaks for, and the address that its action makes of the stored one:
  transactions replace 8400 by 8000, contracts use it as it is.
\<close>

definition message_domain :: "'k Env \<Rightarrow> Sender \<Rightarrow> request \<Rightarrow> string" where
  "message_domain env sender req =
     (if field ''action'' req = Some (JStr ''submitTransaction'') then getBaseDomain env (the (sender_url sender))
      else interpolate (field ''domain'' req))"

fun destination :: "string \<Rightarrow> string \<Rightarrow> string option" where
  "destination a url =
     (if a \<in> {''submitTransaction'', ''submitTransactionFromDashboard''} then Some (kv_url url)
      else if a \<in> {''deployContractChain'', ''executeContractFunction''} then Some url
      else None)"

text \<open>
  The addresses for the keys of a domain. Only \<open>submitTransaction\<close> does not check that the domain is
  connected; without a net it looks for keys of a net called \<open>undefined\<close>.
\<close>

definition allowed_url :: "'k Env \<Rightarrow> Storage \<Rightarrow> string \<Rightarrow> string \<Rightarrow> string \<Rightarrow> bool" where
  "allowed_url env st a d u \<longleftrightarrow> (\<exists>e url. open_url env e = Inr url \<and> destination a url = Some u
     \<and> (case map_of (st_connectedNets st) d of
          Some net \<Rightarrow> entry_of (st_keys st) d (interpolate (Some net)) = Some e
        | None \<Rightarrow> a = ''submitTransaction'' \<and> entry_of (st_keys st) d ''undefined'' = Some e))"

lemma strict_eq_eq: "strict_eq x y \<Longrightarrow> x = y"
  by (cases "(x, y)" rule: strict_eq.cases) simp_all

lemma open_signer_url: "open_signer env e = Inr (p, url) \<Longrightarrow> open_url env e = Inr url"
  by (auto simp: open_signer_def open_url_def open_entry_def split: sum.splits)

lemma allowed_connected:
  "connected_entry st d = Some e \<Longrightarrow> map_of (st_connectedNets st) d \<noteq> None \<or> a = ''submitTransaction'' \<Longrightarrow>
   open_url env e = Inr url \<Longrightarrow> destination a url = Some u \<Longrightarrow> allowed_url env st a d u"
  unfolding allowed_url_def connected_entry_def by (cases "map_of (st_connectedNets st) d") (auto simp: interpolate_def simp del: destination.simps)

lemma allowed_signer:
  "connected_entry st d = Some e \<Longrightarrow> map_of (st_connectedNets st) d \<noteq> None \<or> a = ''submitTransaction'' \<Longrightarrow>
   open_signer env e = Inr (p, url) \<Longrightarrow> destination a url = Some u \<Longrightarrow> allowed_url env st a d u"
  using open_signer_url allowed_connected by blast

lemma with_net_sends:
  assumes "\<And>e. connected_entry st (interpolate (field ''domain'' req)) = Some e \<Longrightarrow>
    map_of (st_connectedNets st) (interpolate (field ''domain'' req)) \<noteq> None \<Longrightarrow> handler_sends P (f e)"
  shows "handler_sends P (with_net st req f)"
proof -
  let ?d = "interpolate (field ''domain'' req)"
  have "entry_of (st_keys st) ?d (interpolate (field ''net'' req)) = connected_entry st ?d"
    if "strict_eq (map_of (st_connectedNets st) ?d) (field ''net'' req)"
    using strict_eq_eq [OF that] by (simp add: connected_entry_def)
  moreover have "map_of (st_connectedNets st) ?d \<noteq> None" if "is_truthy (map_of (st_connectedNets st) ?d)"
    using that by (cases "map_of (st_connectedNets st) (interpolate (field ''domain'' req))") simp_all
  ultimately show ?thesis using assms by (auto simp: with_net_def Let_def split: option.split)
qed

lemma snd_lift [simp]: "snd (lift r) = r"
  by (simp add: lift_def)

lemma dashboard_sends:
  "handler_sends (allowed_url env st ''submitTransactionFromDashboard'' (interpolate (field ''domain'' req))) (submitTransactionFromDashboard env st req)"
  unfolding submitTransactionFromDashboard_def Let_def
  by (auto intro!: with_net_sends handler_sends_try sends_and_then sends elim!: allowed_signer split: prod.split)

lemma submit_sends:
  "handler_sends (allowed_url env st ''submitTransaction'' (getBaseDomain env (the (sender_url sender)))) (submitTransaction env st sender req)"
  unfolding submitTransaction_def
  by (auto intro!: handler_sends_try sends_and_then sends elim!: allowed_signer split: option.split)

lemma deploy_chain_sends:
  "handler_sends (allowed_url env st ''deployContractChain'' (interpolate (field ''domain'' req))) (deployContractChain env st req)"
  unfolding deployContractChain_def Let_def
  by (auto intro!: with_net_sends handler_sends_try sends_and_then sends_next_step sends elim!: allowed_connected)

lemma execute_sends:
  "handler_sends (allowed_url env st ''executeContractFunction'' (interpolate (field ''domain'' req))) (executeContractFunction env st req)"
  unfolding executeContractFunction_def
  by (auto intro!: with_net_sends handler_sends_try sends_and_then sends elim!: allowed_connected)

text \<open>
  C10. Apart from the login, only the two transaction and the two contract actions send requests. Each
  request goes to one address: the one stored with the keys of the message's domain for the net it
  is connected to, with the first 8400 replaced by 8000 for transactions and unchanged for
  contracts. Without a connected net nothing is sent, with one exception: \<open>submitTransaction\<close>, whose domain
  is the sender's own, uses keys filed under a net called \<open>undefined\<close> if there are any.
\<close>

theorem wallet_sends_to_stored_address:
  assumes "r \<in> set (hd_requests (onMessage env st sender req))" "field ''action'' req \<noteq> Some (JStr ''submitLoginTransaction'')"
  shows "\<exists>a e url. field ''action'' req = Some (JStr a) \<and> open_url env e = Inr url \<and> destination a url = Some (fst r)
    \<and> (case map_of (st_connectedNets st) (message_domain env sender req) of
         Some net \<Rightarrow> entry_of (st_keys st) (message_domain env sender req) (interpolate (Some net)) = Some e
       | None \<Rightarrow> a = ''submitTransaction'' \<and> entry_of (st_keys st) (message_domain env sender req) ''undefined'' = Some e)"
proof -
  let ?P = "\<lambda>u. \<exists>a. field ''action'' req = Some (JStr a) \<and> allowed_url env st a (message_domain env sender req) u"
  have *: "field ''action'' req = Some (JStr a) \<Longrightarrow> handler_sends (allowed_url env st a (message_domain env sender req)) h \<Longrightarrow> handler_sends ?P h" for a h
    by (auto simp: handler_sends_def list_all_iff)
  have "handler_sends ?P (onMessage env st sender req)"
    using assms(2) * submit_sends [of env st sender req] dashboard_sends [of env st req] deploy_chain_sends [of env st req] execute_sends [of env st req]
    by (auto simp: onMessage_def Let_def message_domain_def storeKeys_def disconnectKeys_def requestData_def getConnectedNet_def
        getPublicKey_def getSigningKeys_def handler_sends_def [of _ "\<lparr>hd_write = None, hd_requests = [], hd_response = None\<rparr>"] split: sum.split option.split)
  then have "?P (fst r)" using assms(1) by (auto simp: handler_sends_def list_all_iff)
  then show ?thesis unfolding allowed_url_def by blast
qed


section \<open>What a page can put into a transaction\<close>

definition transaction :: "string \<Rightarrow> string \<Rightarrow> request" where
  "transaction amount recipient = [(''action'', JStr ''submitTransaction''), (''amount'', JStr amount), (''recipient'', JStr recipient)]"

lemma transaction_request:
  assumes "sender_url sender = Some url" "connected_entry st (getBaseDomain env url) = Some e" "open_signer env e = Inr (p, u)"
    and "amount \<noteq> []" "recipient \<noteq> []"
  shows "hd_requests (onMessage env st sender (transaction amount recipient))
    = [(kv_url u, query_body (kv_mutation (generateUUID (ev_random env)) amount recipient p))]"
proof -
  have "to_text (or_json (Some (JStr x)) y) = x" if "x \<noteq> []" for x y using that by (simp add: or_json_def)
  moreover have "to_text (or_json (Some (JStr p)) (JStr [])) = p" by (simp add: or_json_def)
  ultimately show ?thesis using assms
    by (simp add: onMessage_def transaction_def field_def submitTransaction_def try_task_def and_then_def lift_def to_string_def send_kv_def
        callKVService_def fetch_query_def Let_def throw_def give_def split: fetch_reply.split sum.split)
qed

text \<open>
  C25. Recipients are not escaped. A connected page can choose one that closes the text: whatever signer
  and continuation it wants, there is a recipient with which the request that the wallet sends
  names this signer and continues with this text.
\<close>

theorem recipient_injection:
  assumes "sender_url sender = Some url" "connected_entry st (getBaseDomain env url) = Some e" "open_signer env e = Inr (p, u)"
    and "amount \<noteq> []"
  shows "\<exists>recipient rest. hd_requests (onMessage env st sender (transaction amount recipient))
    = [(kv_url u, query_body (kv_head (generateUUID (ev_random env)) amount a forged @ continuation @ rest))]"
proof -
  let ?r = "a @ kv_between @ forged @ CHR 0x22 # continuation"
  obtain rest where "\<forall>u b a s. kv_mutation u b a s = kv_head u b a s @ rest" using kv_mutation_head by blast
  then have "kv_mutation (generateUUID (ev_random env)) amount ?r p
      = kv_head (generateUUID (ev_random env)) amount a forged @ continuation @ (kv_between @ p @ [CHR 0x22] @ rest)"
    by (simp add: kv_head_between)
  then show ?thesis using transaction_request [OF assms, of ?r] by auto
qed

text \<open>A wallet with one connected page.\<close>

definition sample_wallet :: Storage where
  "sample_wallet = handle_one (sample_env, page ''a'', op_message (Connect ''a'' ''net'' (''pub'', ''priv'', ''http://node:8400''))) empty_storage"

lemma sample_connected:
  "connected_entry sample_wallet ''a'' = Some (new_entry sample_env () (op_message (Connect ''a'' ''net'' (''pub'', ''priv'', ''http://node:8400''))))"
  by (simp add: sample_wallet_def handle_one_def onMessage_def apply_write_def storeKeys_write put_net_def empty_storage_def field_def
      connected_entry_def put_entry_def entry_of_def)

lemma sample_opens:
  "opens plain_crypto (new_entry sample_env () (op_message (Connect ''a'' ''net'' (''pub'', ''priv'', ''http://node:8400'')))) (''pub'', ''priv'', ''http://node:8400'')"
  using opens_new_entry [of sample_env "()" "op_message (Connect ''a'' ''net'' (''pub'', ''priv'', ''http://node:8400''))"] plain_crypto_ok
  by (simp add: field_def text_arg_def)

lemma sample_signer:
  "open_signer sample_env (new_entry sample_env () (op_message (Connect ''a'' ''net'' (''pub'', ''priv'', ''http://node:8400'')))) = Inr (''pub'', ''http://node:8400'')"
  by (rule opens_parts(4) [where s = "''priv''"]) (simp only: sample_env_sel sample_opens)

lemma sample_sender: "sender_url (page ''a'') = Some ''a''" "getBaseDomain sample_env ''a'' = ''a''"
  by (simp_all add: sender_url_def page_def present_def getBaseDomain_def)

lemmas sample_transaction = transaction_request [OF sample_sender(1), of sample_wallet sample_env, unfolded sample_sender(2), OF sample_connected sample_signer]

theorem recipient_injection_witness:
  "\<exists>recipient rest. hd_requests (onMessage sample_env sample_wallet (page ''a'') (transaction ''5'' recipient))
    = [(kv_url ''http://node:8400'', query_body (kv_head (generateUUID []) ''5'' ''bob'' ''mallory'' @ '' }) { id } }'' @ rest))]"
  using recipient_injection [OF sample_sender(1), of sample_wallet sample_env, unfolded sample_sender(2), OF sample_connected sample_signer,
      of "''5''" "''bob''" "''mallory''" "'' }) { id } }''"]
  by (simp add: sample_env_def)

theorem wallet_sends_to_stored_address_witness:
  "\<exists>e. entry_of (st_keys sample_wallet) ''a'' ''net'' = Some e \<and> open_url sample_env e = Inr ''http://node:8400''
    \<and> destination ''submitTransaction'' ''http://node:8400'' = Some (kv_url ''http://node:8400'')"
proof -
  have n: "map_of (st_connectedNets sample_wallet) ''a'' = Some (JStr ''net'')"
    by (simp add: sample_wallet_def handle_one_def onMessage_def apply_write_def storeKeys_write put_net_def empty_storage_def field_def)
  have e: "entry_of (st_keys sample_wallet) ''a'' ''net'' = connected_entry sample_wallet ''a''"
    by (simp add: connected_entry_def n)
  show ?thesis
    using wallet_sends_to_stored_address [of "(kv_url ''http://node:8400'', query_body (kv_mutation (generateUUID (ev_random sample_env)) ''5'' ''bob'' ''pub''))"
        sample_env sample_wallet "page ''a''" "transaction ''5'' ''bob''"] sample_transaction [of "''5''" "''bob''"] n e open_signer_url [OF sample_signer]
    by (simp add: transaction_def field_def message_domain_def sample_sender sample_connected)
qed

end
