(* ===== verification/Wallet_Content.thy ===== *)
theory Wallet_Content
  imports Wallet_Network "HOL-Library.Sublist"
begin

text \<open>
  The content script of the wallet, \<open>resvault/public/content.js\<close>, which sits between a page and the
  background script, and the class that pages use to talk to it, \<open>resvault-sdk.ts\<close>. The
  state of the script is the modal dialogs in the page's document, the messages sent to the background script
  whose responses are awaited, and what was posted to the page; events are messages of the page, clicks and
  responses. The theory shows when a transaction is submitted and what the dialog shows of it, and what a page can do on its own.
\<close>

section \<open>Dialogs\<close>

definition login_html :: string where
  "login_html =
     nl @ ''    <div id='' @ [CHR 0x22] @ ''resVaultLoginModalContent'' @ [CHR 0x22] @ '' style='' @ [CHR 0x22] @ nl
      @ ''      position: fixed; '' @ nl @ ''      top: 50%; '' @ nl @ ''      left: 50%; '' @ nl
      @ ''      transform: translate(-50%, -50%); '' @ nl @ ''      background-color: #0f0638; '' @ nl @ ''      padding: 20px; '' @ nl
      @ ''      border-radius: 10px; '' @ nl @ ''      box-shadow: 0 4px 8px rgba(0, 0, 0, 0.1);'' @ nl @ ''      z-index: 1001;'' @ nl
      @ ''      font-family: Poppins, sans-serif;'' @ nl @ ''      width: 300px;'' @ nl @ ''    '' @ [CHR 0x22] @ ''>'' @ nl
      @ ''      <div style='' @ [CHR 0x22] @ ''width: calc(100%);'' @ nl @ ''        padding: 20px;'' @ nl
      @ ''        background-color: #291f57;'' @ nl @ ''        border-radius: 15px;'' @ nl @ ''        margin-bottom: 20px;'' @ nl
      @ ''        box-shadow: 5px 5px 35px -14px rgba(0,0,0,.17); '' @ nl @ ''        text-align: center;'' @ [CHR 0x22] @ ''>'' @ nl
      @ ''        <p style='' @ [CHR 0x22] @ nl @ ''          color: #fff; '' @ nl @ ''          font-size: 14px; '' @ nl
      @ ''          font-weight: bold;'' @ nl @ ''          margin: 0;'' @ nl @ ''        '' @ [CHR 0x22] @ ''>'' @ nl
      @ ''          Authenticate with Res<span style='' @ [CHR 0x22] @ ''color: #47e7ce;'' @ [CHR 0x22] @ ''>Vault</span>'' @ nl
      @ ''        </p>'' @ nl @ ''      </div>'' @ nl @ nl @ ''      <div style='' @ [CHR 0x22]
      @ ''display: flex; justify-content: space-between;'' @ [CHR 0x22] @ ''>'' @ nl @ ''        <button id='' @ [CHR 0x22]
      @ ''resVaultLoginModalClose'' @ [CHR 0x22] @ '' style='' @ [CHR 0x22] @ nl @ ''          background-color: #291f57;'' @ nl
      @ ''          border: 1px #47e7ce solid;'' @ nl @ ''          color: white; '' @ nl @ ''          border: none; '' @ nl
      @ ''          padding: 10px 20px; '' @ nl @ ''          border-radius: 5px; '' @ nl @ ''          cursor: pointer;'' @ nl
      @ ''          width: 50%;'' @ nl @ ''          box-sizing: border-box;'' @ nl @ ''          margin-right: 5px;'' @ [CHR 0x22]
      @ ''>'' @ nl @ ''          Close'' @ nl @ ''        </button>'' @ nl @ ''        <button id='' @ [CHR 0x22]
      @ ''resVaultLoginModalAuthenticate'' @ [CHR 0x22] @ '' style='' @ [CHR 0x22] @ nl
      @ ''          background: linear-gradient(60deg, #47e7ce, #4fa8c4); '' @ nl @ ''          color: white; '' @ nl
      @ ''          border: none; '' @ nl @ ''          padding: 10px 20px; '' @ nl @ ''          border-radius: 5px; '' @ nl
      @ ''          cursor: pointer;'' @ nl @ ''          width: 50%;'' @ nl @ ''          box-sizing: border-box;'' @ [CHR 0x22]
      @ ''>'' @ nl @ ''          Authenticate'' @ nl @ ''        </button>'' @ nl @ ''      </div>'' @ nl @ ''    </div>'' @ nl @ ''  ''"

definition custom_html :: "string \<Rightarrow> string" where
  "custom_html message =
     nl @ ''    <div id='' @ [CHR 0x22] @ ''resVaultModalContent'' @ [CHR 0x22] @ '' style='' @ [CHR 0x22] @ nl
      @ ''      position: fixed; '' @ nl @ ''      top: 50%; '' @ nl @ ''      left: 50%; '' @ nl
      @ ''      transform: translate(-50%, -50%); '' @ nl @ ''      background-color: #0f0638; '' @ nl @ ''      padding: 20px; '' @ nl
      @ ''      border-radius: 10px; '' @ nl @ ''      box-shadow: 0 4px 8px rgba(0, 0, 0, 0.1);'' @ nl @ ''      z-index: 1001;'' @ nl
      @ ''      font-family: Poppins, sans-serif;'' @ nl @ ''      width: 300px;'' @ nl @ ''    '' @ [CHR 0x22] @ ''>'' @ nl
      @ ''      <div id='' @ [CHR 0x22] @ ''resVaultMessageBox'' @ [CHR 0x22] @ '' style='' @ [CHR 0x22] @ ''width: calc(100%);'' @ nl
      @ ''        padding: 20px;'' @ nl @ ''        background-color: #291f57;'' @ nl @ ''        border-radius: 15px;'' @ nl
      @ ''        margin-bottom: 20px;'' @ nl @ ''        box-shadow: 5px 5px 35px -14px rgba(0,0,0,.17);'' @ [CHR 0x22] @ ''>'' @ nl
      @ ''        <form id='' @ [CHR 0x22] @ ''Form'' @ [CHR 0x22] @ '' style='' @ [CHR 0x22] @ ''margin: auto;'' @ [CHR 0x22] @ ''>''
      @ nl @ ''          <div style='' @ [CHR 0x22] @ ''width: 100%; margin-bottom: 10px;'' @ [CHR 0x22] @ ''>'' @ nl
      @ ''            <div id='' @ [CHR 0x22] @ ''customMessage'' @ [CHR 0x22] @ '' style='' @ [CHR 0x22] @ ''padding: 0;'' @ nl
      @ ''              width: 100%;'' @ nl @ ''              margin: 0;'' @ nl @ ''              overflow: hidden;'' @ nl
      @ ''              border-radius: 0px;'' @ nl @ ''              color: #fff;'' @ nl @ ''              text-align: center;'' @ nl
      @ ''            '' @ [CHR 0x22] @ ''>'' @ nl @ ''              <p>'' @ nl @ ''                '' @ message @ nl
      @ ''              </p>'' @ nl @ ''            </div>'' @ nl @ ''          </div>'' @ nl @ ''          <p id='' @ [CHR 0x22]
      @ ''poweredBy'' @ [CHR 0x22] @ '' style='' @ [CHR 0x22] @ ''font-size: small; color: #fff'' @ [CHR 0x22]
      @ ''>Powered by Res<strong style='' @ [CHR 0x22] @ ''color: #47e7ce'' @ [CHR 0x22] @ ''>Vault</strong></p>'' @ nl
      @ ''        </form>'' @ nl @ ''      </div>'' @ nl @ ''      <span style='' @ [CHR 0x22] @ ''display: flex;'' @ [CHR 0x22] @ ''>''
      @ nl @ ''          <button id='' @ [CHR 0x22] @ ''resVaultModalClose'' @ [CHR 0x22] @ '' style='' @ [CHR 0x22] @ nl
      @ ''            background-color: #291f57;'' @ nl @ ''            border: none;'' @ nl @ ''            color: white; '' @ nl
      @ ''            padding: 10px 20px; '' @ nl @ ''            border-radius: 5px; '' @ nl @ ''            cursor: pointer;'' @ nl
      @ ''            width: 50%;'' @ nl @ ''            box-sizing: border-box;'' @ nl @ ''            margin-right: 5px;''
      @ [CHR 0x22] @ ''>Cancel</button>'' @ nl @ ''          <button id='' @ [CHR 0x22] @ ''resVaultModalSubmit'' @ [CHR 0x22]
      @ '' style='' @ [CHR 0x22] @ nl @ ''            background: linear-gradient(60deg, #47e7ce, #4fa8c4); '' @ nl
      @ ''            color: white; '' @ nl @ ''            border: none; '' @ nl @ ''            padding: 10px 20px; '' @ nl
      @ ''            border-radius: 5px; '' @ nl @ ''            cursor: pointer;'' @ nl @ ''            width: 50%;'' @ nl
      @ ''            box-sizing: border-box;'' @ [CHR 0x22] @ ''>Submit</button>'' @ nl @ ''      </span>                       '' @ nl
      @ ''    </div>''"

definition commit_html :: "string \<Rightarrow> string \<Rightarrow> string" where
  "commit_html operation amount =
     nl @ ''    <div id='' @ [CHR 0x22] @ ''resVaultModalContent'' @ [CHR 0x22] @ '' style='' @ [CHR 0x22] @ nl
      @ ''      position: fixed; '' @ nl @ ''      top: 50%; '' @ nl @ ''      left: 50%; '' @ nl
      @ ''      transform: translate(-50%, -50%); '' @ nl @ ''      background-color: #0f0638; '' @ nl @ ''      padding: 20px; '' @ nl
      @ ''      border-radius: 10px; '' @ nl @ ''      box-shadow: 0 4px 8px rgba(0, 0, 0, 0.1);'' @ nl @ ''      z-index: 1001;'' @ nl
      @ ''      font-family: Poppins, sans-serif;'' @ nl @ ''      width: 300px;'' @ nl @ ''    '' @ [CHR 0x22] @ ''>'' @ nl
      @ ''      <div id='' @ [CHR 0x22] @ ''resVaultMessageBox'' @ [CHR 0x22] @ '' style='' @ [CHR 0x22] @ ''width: calc(100%);'' @ nl
      @ ''        padding: 20px;'' @ nl @ ''        background-color: #291f57;'' @ nl @ ''        border-radius: 15px;'' @ nl
      @ ''        margin-bottom: 20px;'' @ nl @ ''        box-shadow: 5px 5px 35px -14px rgba(0,0,0,.17);'' @ [CHR 0x22] @ ''>'' @ nl
      @ ''        <form id='' @ [CHR 0x22] @ ''Form'' @ [CHR 0x22] @ '' style='' @ [CHR 0x22] @ ''margin: auto;'' @ [CHR 0x22] @ ''>''
      @ nl @ ''          <div style='' @ [CHR 0x22] @ ''width: 100%; margin-bottom: 10px;'' @ [CHR 0x22] @ ''>'' @ nl
      @ ''            <div style='' @ [CHR 0x22] @ ''padding: 0;'' @ nl @ ''              width: 100%;'' @ nl
      @ ''              margin: 0;'' @ nl @ ''              overflow: hidden;'' @ nl @ ''              border-radius: 0px;'' @ nl
      @ ''              color: #fff;'' @ nl @ ''              border-bottom: 1px rgba(255, 255, 255, 0.3) solid;'' @ [CHR 0x22] @ ''>''
      @ nl @ ''              <p>'' @ nl @ ''                Operation: '' @ operation @ nl @ ''              </p>'' @ nl
      @ ''            </div>'' @ nl @ ''          </div>'' @ nl @ ''          <div style='' @ [CHR 0x22] @ ''width: 100%;'' @ nl
      @ ''            margin-bottom: 10px; display: flex; align-items: center; justify-content: space-between;'' @ [CHR 0x22] @ ''>''
      @ nl @ ''            <p id='' @ [CHR 0x22] @ ''amountDisplay'' @ [CHR 0x22] @ '' style='' @ [CHR 0x22]
      @ ''width: calc(((100% / 3) * 2) - 35px);'' @ nl @ ''              border: none;'' @ nl
      @ ''              background-color: transparent;'' @ nl @ ''              padding: 10px 0px;'' @ nl
      @ ''              border-radius: 0px;'' @ nl @ ''              border-bottom: 1px rgba(255, 255, 255, 0.3) solid;'' @ nl
      @ ''              color: #fff;'' @ nl @ ''              text-align: center;'' @ nl @ ''              '' @ [CHR 0x22] @ ''>'' @ nl
      @ ''              '' @ amount @ nl @ ''            </p>'' @ nl @ ''            <div style='' @ [CHR 0x22] @ ''display: flex;''
      @ nl @ ''              align-items: center;'' @ [CHR 0x22] @ ''>'' @ nl @ ''              <div style='' @ [CHR 0x22]
      @ ''display: block; font-family: Arial, Helvetica, sans-serif; font-size: 20px; font-weight: bold; color: #f0f0f0; background-color: #808080; border-radius: 50%; width: 30px; height: 30px; display: flex; align-items: center; justify-content: center; margin: 10px; transform: rotate(20deg);''
      @ [CHR 0x22] @ ''>R</div>'' @ nl @ ''              <span style='' @ [CHR 0x22]
      @ ''color: #fff; font-weight: 600; padding-left: 5px;'' @ [CHR 0x22] @ ''>RoK</span>'' @ nl @ ''            </div>'' @ nl
      @ ''          </div>'' @ nl @ ''          <p style='' @ [CHR 0x22] @ ''font-size: small; color: #fff'' @ [CHR 0x22]
      @ ''>Powered by Res<strong style='' @ [CHR 0x22] @ ''color: #47e7ce'' @ [CHR 0x22] @ ''>Vault</strong></p>'' @ nl
      @ ''        </form>'' @ nl @ ''      </div>'' @ nl @ ''      <span style='' @ [CHR 0x22] @ ''display: flex;'' @ [CHR 0x22] @ ''>''
      @ nl @ ''          <button id='' @ [CHR 0x22] @ ''resVaultModalClose'' @ [CHR 0x22] @ '' style='' @ [CHR 0x22] @ nl
      @ ''            background-color: #291f57;'' @ nl @ ''            border: none;'' @ nl @ ''            color: white; '' @ nl
      @ ''            padding: 10px 20px; '' @ nl @ ''            border-radius: 5px; '' @ nl @ ''            cursor: pointer;'' @ nl
      @ ''            width: 50%;'' @ nl @ ''            box-sizing: border-box;'' @ nl @ ''            margin-right: 5px;''
      @ [CHR 0x22] @ ''>Cancel</button>'' @ nl @ ''          <button id='' @ [CHR 0x22] @ ''resVaultModalSubmit'' @ [CHR 0x22]
      @ '' style='' @ [CHR 0x22] @ nl @ ''            background: linear-gradient(60deg, #47e7ce, #4fa8c4); '' @ nl
      @ ''            color: white; '' @ nl @ ''            border: none; '' @ nl @ ''            padding: 10px 20px; '' @ nl
      @ ''            border-radius: 5px; '' @ nl @ ''            cursor: pointer;'' @ nl @ ''            width: 50%;'' @ nl
      @ ''            box-sizing: border-box;'' @ [CHR 0x22] @ ''>Submit</button>'' @ nl @ ''      </span>                       '' @ nl
      @ ''    </div>''"

definition generateModalContent :: "string \<Rightarrow> string \<Rightarrow> bool \<Rightarrow> string \<Rightarrow> string" where
  "generateModalContent operation amount isCustom customMessage =
     (if isCustom then custom_html customMessage else commit_html operation amount)"

text \<open>The styles that a page may set: selectors, and per selector the names.\<close>

definition allowedSelectors :: "string list" where
  "allowedSelectors = [''#resVaultModalContent'', ''#resVaultMessageBox'', ''#amountDisplay'', ''#resVaultModalClose'', ''#resVaultModalSubmit'', ''#customMessage'', ''#poweredBy'']"

definition allowedStyles :: "(string \<times> string list) list" where
  "allowedStyles =
     [(''#resVaultModalContent'', [''background-color'', ''padding'', ''border-radius'', ''box-shadow'', ''font-family'', ''width'', ''position'', ''top'', ''left'', ''transform'', ''z-index'']),
      (''#amountDisplay'', [''color'', ''font-size'', ''text-align'', ''border'', ''background-color'', ''padding'', ''border-radius'']),
      (''#resVaultMessageBox'', [''width'', ''padding'', ''background-color'', ''border-radius'', ''margin-bottom'', ''box-shadow'']),
      (''#resVaultModalClose'', [''background-color'', ''color'', ''border'', ''padding'', ''border-radius'', ''cursor'', ''width'']),
      (''#resVaultModalSubmit'', [''background-color'', ''color'', ''border'', ''padding'', ''border-radius'', ''cursor'', ''width'']),
      (''#customMessage'', [''color'', ''font-size'', ''text-align'', ''background-color'', ''padding'', ''border-radius'']),
      (''#poweredBy'', [''color'', ''font-size'', ''text-align''])]"

definition properties_of :: "json \<Rightarrow> (string \<times> json) list" where
  "properties_of j = (case j of JObj ps \<Rightarrow> ps | _ \<Rightarrow> [])"

text \<open>\<open>applyStylesToModal\<close>: the settings (selector, name, value) made on the elements that match, in order.\<close>

definition selector_settings :: "string \<times> json \<Rightarrow> (string \<times> string \<times> json) list" where
  "selector_settings p =
     (let selector = fst p; names = (case map_of allowedStyles selector of Some ns \<Rightarrow> ns | None \<Rightarrow> [])
      in if selector \<notin> set allowedSelectors then []
         else map (Pair selector) (filter (\<lambda>nv. fst nv \<in> set names) (properties_of (snd p))))"

definition applyStylesToModal :: "json \<Rightarrow> (string \<times> string \<times> json) list" where
  "applyStylesToModal styles = concat (map selector_settings (properties_of styles))"

record TransactionData =
  td_amount :: string
  td_data :: "json option"
  td_recipient :: "json option"

record Modal =
  md_visible :: bool
  md_html :: string
  md_transactionData :: TransactionData
  md_styles :: "(string \<times> string \<times> json) list"

definition createOrUpdateModal :: "string \<Rightarrow> TransactionData \<Rightarrow> json option \<Rightarrow> bool \<Rightarrow> string \<Rightarrow> Modal" where
  "createOrUpdateModal operation tx styles isCustom customMessage =
     \<lparr>md_visible = True, md_html = generateModalContent operation (td_amount tx) isCustom customMessage, md_transactionData = tx,
      md_styles = applyStylesToModal (case styles of None \<Rightarrow> JObj [] | Some s \<Rightarrow> s)\<rparr>"


section \<open>The content script\<close>

text \<open>What the script does with the response to a message: the transaction callbacks forward it, the others wrap it.\<close>

datatype callback = Forward | PublicKeyReply | SignReply "json option"

record ContentScript =
  cs_hostname :: string
  cs_modal :: "Modal option"
  cs_login :: "bool option"
  cs_checking :: nat
  cs_sent :: "(request \<times> callback) list"
  cs_posted :: "json list"

definition new_ContentScript :: "string \<Rightarrow> ContentScript" where
  "new_ContentScript host = \<lparr>cs_hostname = host, cs_modal = None, cs_login = None, cs_checking = 0, cs_sent = [], cs_posted = []\<rparr>"

text \<open>A message to the background script, and one to the page, both JSON; \<open>undefined\<close> properties are left out.\<close>

definition send :: "(string \<times> json option) list \<Rightarrow> callback \<Rightarrow> ContentScript \<Rightarrow> ContentScript" where
  "send ps cb c = c\<lparr>cs_sent := cs_sent c @ [(List.map_filter (\<lambda>(k, v). map_option (Pair k) v) ps, cb)]\<rparr>"

definition sendMessageToPage :: "json \<Rightarrow> ContentScript \<Rightarrow> ContentScript" where
  "sendMessageToPage j c = c\<lparr>cs_posted := cs_posted c @ [JObj [(''type'', JStr ''FROM_CONTENT_SCRIPT''), (''data'', j)]]\<rparr>"

definition handleTransactionSubmit :: "TransactionData \<Rightarrow> ContentScript \<Rightarrow> ContentScript" where
  "handleTransactionSubmit tx c =
     send [(''action'', Some (JStr ''submitTransaction'')), (''amount'', Some (JStr (td_amount tx))), (''data'', td_data tx),
           (''recipient'', td_recipient tx)] Forward c"

definition handleLoginTransactionSubmit :: "ContentScript \<Rightarrow> ContentScript" where
  "handleLoginTransactionSubmit c = send [(''action'', Some (JStr ''submitLoginTransaction''))] Forward c"

definition handleGetPublicKeyOperation :: "ContentScript \<Rightarrow> ContentScript" where
  "handleGetPublicKeyOperation c =
     send [(''action'', Some (JStr ''getPublicKey'')), (''domain'', Some (JStr (cs_hostname c)))] PublicKeyReply c"

definition handleSignOperation :: "json \<Rightarrow> ContentScript \<Rightarrow> ContentScript" where
  "handleSignOperation data c =
     send [(''action'', Some (JStr ''getSigningKeys'')), (''domain'', Some (JStr (cs_hostname c))), (''message'', opt_member ''payload'' (Some data))]
       (SignReply (opt_member ''payload'' (Some data))) c"

text \<open>A commit needs an amount that is not blank; an amount that is no string makes \<open>trim\<close> throw.\<close>

definition handleCommitOperation :: "json \<Rightarrow> ContentScript \<Rightarrow> ContentScript" where
  "handleCommitOperation data c =
     (let part = (\<lambda>name. opt_member name (Some data))
      in case part ''amount'' of
           Some (JStr amount) \<Rightarrow>
             (if trim amount \<noteq> []
              then c\<lparr>cs_modal := Some (createOrUpdateModal ''COMMIT''
                     \<lparr>td_amount = amount, td_data = part ''data'', td_recipient = part ''recipient''\<rparr> (part ''styles'') False [])\<rparr>
              else c)
         | _ \<Rightarrow> c)"

definition handleCustomOperation :: "json \<Rightarrow> ContentScript \<Rightarrow> ContentScript" where
  "handleCustomOperation data c =
     (let part = (\<lambda>name. opt_member name (Some data))
      in c\<lparr>cs_modal := Some (createOrUpdateModal []
             \<lparr>td_amount = ''1'', td_data = part ''data'', td_recipient = part ''recipient''\<rparr> (part ''styles'') True
             (to_text (or_json (part ''customMessage'') (JStr []))))\<rparr>)"

definition handleLoginOperation :: "ContentScript \<Rightarrow> ContentScript" where
  "handleLoginOperation c = c\<lparr>cs_login := Some True\<rparr>"

text \<open>The listener for messages of the page; one from another window is ignored.\<close>

definition page_message :: "bool \<Rightarrow> json \<Rightarrow> ContentScript \<Rightarrow> ContentScript" where
  "page_message same_window data c =
     (let direction = (\<lambda>d. opt_member ''direction'' (Some data) = Some (JStr d)); kind = (\<lambda>t. opt_member ''type'' (Some data) = Some (JStr t))
      in if \<not> same_window then c
         else if direction ''commit'' then handleCommitOperation data c
         else if direction ''login'' then handleLoginOperation c
         else if direction ''custom'' then handleCustomOperation data c
         else if direction ''request'' \<and> kind ''getPublicKey'' then handleGetPublicKeyOperation c
         else if direction ''request'' \<and> kind ''sign'' then handleSignOperation data c
         else c)"

text \<open>Clicks on the dialogs, by the identifier of the element. The script does not ask who clicked.\<close>

definition modal_click :: "string \<Rightarrow> ContentScript \<Rightarrow> ContentScript" where
  "modal_click target c =
     (case cs_modal c of
        None \<Rightarrow> c
      | Some m \<Rightarrow>
          (if target = ''resVaultModalClose'' then c\<lparr>cs_modal := Some (m\<lparr>md_visible := False\<rparr>)\<rparr>
           else if target = ''resVaultModalSubmit''
           then (handleTransactionSubmit (md_transactionData m) c)\<lparr>cs_modal := Some (m\<lparr>md_visible := False\<rparr>)\<rparr>
           else c))"

definition login_click :: "string \<Rightarrow> ContentScript \<Rightarrow> ContentScript" where
  "login_click target c =
     (if cs_login c = None then c
      else if target = ''resVaultLoginModalClose'' then c\<lparr>cs_login := Some False\<rparr>
      else if target = ''resVaultLoginModalAuthenticate'' then c\<lparr>cs_checking := cs_checking c + 1\<rparr>
      else c)"

text \<open>\<open>checkConnectionStatus\<close> on the storage at that time, and the rest of the login.\<close>

definition checkConnectionStatus :: "Storage \<Rightarrow> string \<Rightarrow> bool" where
  "checkConnectionStatus st domain =
     (let net = map_of (st_connectedNets st) domain
      in is_truthy net \<and> entry_of (st_keys st) domain (interpolate net) \<noteq> None)"

definition login_checked :: "Storage \<Rightarrow> ContentScript \<Rightarrow> ContentScript" where
  "login_checked st c =
     (if cs_checking c = 0 then c
      else (let c1 = c\<lparr>cs_checking := cs_checking c - 1\<rparr>
            in (if checkConnectionStatus st (cs_hostname c) then handleLoginTransactionSubmit c1 else sendMessageToPage (JStr ''error'') c1)
               \<lparr>cs_login := Some False\<rparr>))"

text \<open>The callbacks. A missing response is not forwarded, and a signature request then fails on reading it.\<close>

definition or_null :: "json option \<Rightarrow> json" where
  "or_null x = or_json x JNull"

definition callback_posts :: "callback \<Rightarrow> json option \<Rightarrow> json list" where
  "callback_posts cb response =
     (case cb of
        Forward \<Rightarrow> (if is_truthy response then [the response] else [])
      | PublicKeyReply \<Rightarrow>
          (if is_truthy response
           then [JObj [(''type'', JStr ''getPublicKey''), (''direction'', JStr ''response''), (''publicKey'', or_null (opt_member ''publicKey'' response)),
                       (''pubkey'', or_null (opt_member ''publicKey'' response)),
                       (''success'', or_json (opt_member ''success'' response) (JBool False)), (''error'', or_null (opt_member ''error'' response))]]
           else [])
      | SignReply payload \<Rightarrow>
          (if is_truthy response \<and> is_truthy (opt_member ''success'' response)
           then [object_of [(''type'', Some (JStr ''signWithKeys'')), (''direction'', Some (JStr ''request'')), (''privateKey'', opt_member ''privateKey'' response),
                            (''publicKey'', opt_member ''publicKey'' response), (''message'', payload)]]
           else if response = None \<or> response = Some JNull then []
           else [JObj [(''type'', JStr ''sign''), (''direction'', JStr ''response''), (''signature'', JNull), (''sig'', JNull), (''success'', JBool False),
                       (''error'', or_json (opt_member ''error'' response) (JStr ''Failed to retrieve keys for signing''))]]))"

definition drop_index :: "nat \<Rightarrow> 'a list \<Rightarrow> 'a list" where
  "drop_index i xs = take i xs @ drop (Suc i) xs"

definition background_response :: "nat \<Rightarrow> json option \<Rightarrow> ContentScript \<Rightarrow> ContentScript" where
  "background_response i response c =
     (if i < length (cs_sent c)
      then fold sendMessageToPage (callback_posts (snd (cs_sent c ! i)) response) (c\<lparr>cs_sent := drop_index i (cs_sent c)\<rparr>)
      else c)"

datatype content_event =
    PageMessage bool json
  | ModalClick string
  | LoginClick string
  | LoginChecked Storage
  | BackgroundResponse nat "json option"
  | BackgroundMessage json

fun content_step :: "content_event \<Rightarrow> ContentScript \<Rightarrow> ContentScript" where
  "content_step (PageMessage same_window data) c = page_message same_window data c"
| "content_step (ModalClick target) c = modal_click target c"
| "content_step (LoginClick target) c = login_click target c"
| "content_step (LoginChecked st) c = login_checked st c"
| "content_step (BackgroundResponse i response) c = background_response i response c"
| "content_step (BackgroundMessage j) c = sendMessageToPage j c"

definition content_run :: "content_event list \<Rightarrow> ContentScript \<Rightarrow> ContentScript" where
  "content_run es c = fold content_step es c"


section \<open>The SDK\<close>

text \<open>Handlers by name, and whether the window listener is installed.\<close>

record ResVaultSDK =
  sk_messageHandlers :: "string list"
  sk_listening :: bool

definition new_ResVaultSDK :: ResVaultSDK where
  "new_ResVaultSDK = \<lparr>sk_messageHandlers = [], sk_listening = False\<rparr>"

definition commitTransaction :: "string \<Rightarrow> json option \<Rightarrow> string \<Rightarrow> json option \<Rightarrow> json" where
  "commitTransaction amount data recipient styles =
     object_of [(''type'', Some (JStr ''commit'')), (''direction'', Some (JStr ''commit'')), (''amount'', Some (JStr amount)), (''data'', data),
       (''recipient'', Some (JStr recipient)), (''styles'', Some (case styles of None \<Rightarrow> JObj [] | Some s \<Rightarrow> s))]"

definition customTransaction :: "json option \<Rightarrow> string \<Rightarrow> string option \<Rightarrow> json option \<Rightarrow> json" where
  "customTransaction data recipient customMessage styles =
     object_of [(''type'', Some (JStr ''custom'')), (''direction'', Some (JStr ''custom'')), (''data'', data), (''recipient'', Some (JStr recipient)),
       (''customMessage'', map_option JStr customMessage), (''styles'', Some (case styles of None \<Rightarrow> JObj [] | Some s \<Rightarrow> s))]"

definition addMessageListener :: "string \<Rightarrow> ResVaultSDK \<Rightarrow> ResVaultSDK" where
  "addMessageListener h sdk =
     (let hs = sk_messageHandlers sdk @ [h]
      in sdk\<lparr>sk_messageHandlers := hs, sk_listening := (if length hs = 1 then True else sk_listening sdk)\<rparr>)"

definition removeMessageListener :: "string \<Rightarrow> ResVaultSDK \<Rightarrow> ResVaultSDK" where
  "removeMessageListener h sdk =
     (let hs = remove1 h (sk_messageHandlers sdk)
      in sdk\<lparr>sk_messageHandlers := hs, sk_listening := (if hs = [] then False else sk_listening sdk)\<rparr>)"

text \<open>The handlers that a message event reaches, in the order of the calls.\<close>

definition sdk_deliver :: "ResVaultSDK \<Rightarrow> bool \<Rightarrow> json \<Rightarrow> string list" where
  "sdk_deliver sdk same_window data =
     (if sk_listening sdk \<and> same_window \<and> opt_member ''type'' (Some data) = Some (JStr ''FROM_CONTENT_SCRIPT'')
      then sk_messageHandlers sdk else [])"

datatype sdk_op = AddListener string | RemoveListener string

fun sdk_step :: "sdk_op \<Rightarrow> ResVaultSDK \<Rightarrow> ResVaultSDK" where
  "sdk_step (AddListener h) sdk = addMessageListener h sdk"
| "sdk_step (RemoveListener h) sdk = removeMessageListener h sdk"

section \<open>What is submitted, and what the dialog shows of it\<close>

definition dialog_ok :: "Modal \<Rightarrow> bool" where
  "dialog_ok m \<longleftrightarrow> (trim (td_amount (md_transactionData m)) \<noteq> [] \<and> md_html m = commit_html ''COMMIT'' (td_amount (md_transactionData m)))
     \<or> (td_amount (md_transactionData m) = ''1'' \<and> (\<exists>message. md_html m = custom_html message))"

definition dialogs_ok :: "ContentScript \<Rightarrow> bool" where
  "dialogs_ok c \<longleftrightarrow> (case cs_modal c of None \<Rightarrow> True | Some m \<Rightarrow> dialog_ok m)"

lemma fold_sendMessageToPage [simp]: "cs_modal (fold sendMessageToPage js c) = cs_modal c" "cs_sent (fold sendMessageToPage js c) = cs_sent c"
  "cs_hostname (fold sendMessageToPage js c) = cs_hostname c"
  by (induction js arbitrary: c) (simp_all add: sendMessageToPage_def)

lemmas content_defs = page_message_def handleCommitOperation_def handleCustomOperation_def handleLoginOperation_def
  handleGetPublicKeyOperation_def handleSignOperation_def modal_click_def login_click_def login_checked_def handleTransactionSubmit_def
  handleLoginTransactionSubmit_def background_response_def send_def sendMessageToPage_def Let_def

lemma dialogs_ok_same: "cs_modal c' = cs_modal c \<Longrightarrow> dialogs_ok c \<Longrightarrow> dialogs_ok c'"
  by (simp add: dialogs_ok_def)

lemma dialogs_ok_page: "dialogs_ok c \<Longrightarrow> dialogs_ok (page_message w j c)"
  by (auto simp: page_message_def handleCommitOperation_def handleCustomOperation_def handleLoginOperation_def handleGetPublicKeyOperation_def
      handleSignOperation_def send_def Let_def dialogs_ok_def dialog_ok_def createOrUpdateModal_def generateModalContent_def
      split: option.split json.split)

lemma dialogs_ok_click: "dialogs_ok c \<Longrightarrow> dialogs_ok (modal_click t c)"
  by (auto simp: modal_click_def dialogs_ok_def dialog_ok_def handleTransactionSubmit_def send_def split: option.splits)

lemma dialogs_ok_step: "dialogs_ok c \<Longrightarrow> dialogs_ok (content_step e c)"
proof (cases e)
  case (BackgroundResponse i r)
  assume "dialogs_ok c"
  then show ?thesis by (rule dialogs_ok_same [rotated]) (simp add: BackgroundResponse background_response_def)
next
  case (LoginChecked st)
  assume "dialogs_ok c"
  then show ?thesis
    by (rule dialogs_ok_same [rotated])
       (simp add: LoginChecked login_checked_def handleLoginTransactionSubmit_def sendMessageToPage_def send_def Let_def)
qed (auto simp: dialogs_ok_page dialogs_ok_click login_click_def sendMessageToPage_def intro: dialogs_ok_same)

lemma dialogs_ok_run: "dialogs_ok (content_run es (new_ContentScript host))"
proof -
  have "dialogs_ok c \<Longrightarrow> dialogs_ok (fold content_step es c)" for c
    by (induction es arbitrary: c) (simp_all add: dialogs_ok_step)
  then show ?thesis by (simp add: content_run_def dialogs_ok_def new_ContentScript_def)
qed

text \<open>The requests for transactions among those sent.\<close>

definition submits :: "request \<times> callback \<Rightarrow> bool" where
  "submits r \<longleftrightarrow> field ''action'' (fst r) = Some (JStr ''submitTransaction'')"

lemma subseq_drop_index: "subseq (drop_index i xs) xs"
proof -
  have "subseq (drop (Suc i) xs) (drop i xs)"
    by (intro suffix_imp_subseq) (metis drop_Suc suffix_tl tl_drop)
  then have "subseq (take i xs @ drop (Suc i) xs) (take i xs @ drop i xs)" by (intro list_emb_append_mono) simp_all
  then show ?thesis by (simp add: drop_index_def)
qed

lemma step_keeps_submits:
  assumes "e \<noteq> ModalClick ''resVaultModalSubmit'' \<or> cs_modal c = None"
  shows "subseq (filter submits (cs_sent (content_step e c))) (filter submits (cs_sent c))"
proof (cases e)
  case (BackgroundResponse i x)
  then show ?thesis using subseq_drop_index by (auto simp: background_response_def intro!: subseq_filter)
qed (use assms in \<open>auto simp: content_defs submits_def field_def map_filter_simps split: if_splits option.splits json.splits\<close>)

lemma click_submits:
  assumes "cs_modal c = Some m"
  shows "cs_sent (content_step (ModalClick ''resVaultModalSubmit'') c) = cs_sent c @
    [(List.map_filter (\<lambda>(k, v). map_option (Pair k) v)
        [(''action'', Some (JStr ''submitTransaction'')), (''amount'', Some (JStr (td_amount (md_transactionData m)))),
         (''data'', td_data (md_transactionData m)), (''recipient'', td_recipient (md_transactionData m))], Forward)]"
  using assms by (simp add: modal_click_def handleTransactionSubmit_def send_def)


definition click_submit :: content_event where
  "click_submit = ModalClick ''resVaultModalSubmit''"

lemma opt_member_object: "opt_member k (Some (object_of ps)) = (case find (\<lambda>(k', v). k' = k \<and> v \<noteq> None) ps of None \<Rightarrow> None | Some (_, v) \<Rightarrow> v)"
  by (simp add: opt_member_def object_of_def map_of_object_of)

lemma commit_parts:
  "opt_member ''direction'' (Some (commitTransaction a d r s)) = Some (JStr ''commit'')"
  "opt_member ''amount'' (Some (commitTransaction a d r s)) = Some (JStr a)"
  "opt_member ''data'' (Some (commitTransaction a d r s)) = d"
  "opt_member ''recipient'' (Some (commitTransaction a d r s)) = Some (JStr r)"
  by (cases d; simp add: commitTransaction_def opt_member_object)+

lemma commit_sent:
  assumes "trim a \<noteq> []"
  shows "cs_sent (content_run [PageMessage True (commitTransaction a d r s), click_submit] (new_ContentScript host))
    = [(List.map_filter (\<lambda>(k, v). map_option (Pair k) v)
          [(''action'', Some (JStr ''submitTransaction'')), (''amount'', Some (JStr a)), (''data'', d), (''recipient'', Some (JStr r))], Forward)]"
  using assms
  by (simp add: content_run_def click_submit_def page_message_def commit_parts handleCommitOperation_def modal_click_def createOrUpdateModal_def
      handleTransactionSubmit_def send_def new_ContentScript_def Let_def)

lemma submit_depends:
  assumes "field ''action'' req = Some (JStr ''submitTransaction'')" "field ''amount'' req = Some (JStr a)" "field ''recipient'' req = Some (JStr r)"
  shows "onMessage env st sender req = onMessage env st sender (transaction a r)"
proof -
  have t: "field ''action'' (transaction a r) = Some (JStr ''submitTransaction'')" "field ''amount'' (transaction a r) = Some (JStr a)"
    "field ''recipient'' (transaction a r) = Some (JStr r)"
    by (simp_all add: transaction_def field_def)
  have "submitTransaction env st sender req = submitTransaction env st sender (transaction a r)"
    unfolding submitTransaction_def assms(2,3) t(2,3) ..
  then show ?thesis using assms(1) t(1) by (simp add: onMessage_def)
qed

text \<open>
  C21. From the SDK to the network: a commit that a page starts with the SDK and the user confirms makes the
  wallet of a connected page send one transaction, with the page's amount and recipient and the
  public key stored for the page's host.
\<close>

theorem sdk_commit_sends_transaction:
  assumes "sent = cs_sent (content_run [PageMessage True (commitTransaction amount data recipient styles), click_submit] (new_ContentScript host))"
    and "sender_url sender = Some url" "connected_entry st (getBaseDomain env url) = Some e" "open_signer env e = Inr (p, u)"
    and "trim amount \<noteq> []" "recipient \<noteq> []"
  shows "\<exists>req. sent = [(req, Forward)]
    \<and> hd_requests (onMessage env st sender req) = [(kv_url u, query_body (kv_mutation (generateUUID (ev_random env)) amount recipient p))]"
proof -
  let ?req = "List.map_filter (\<lambda>(k, v). map_option (Pair k) v)
    [(''action'', Some (JStr ''submitTransaction'')), (''amount'', Some (JStr amount)), (''data'', data), (''recipient'', Some (JStr recipient))]"
  have "amount \<noteq> []" using assms(5) by (auto simp: trim_def)
  then have "hd_requests (onMessage env st sender (transaction amount recipient))
      = [(kv_url u, query_body (kv_mutation (generateUUID (ev_random env)) amount recipient p))]"
    using transaction_request [OF assms(2-4) _ assms(6)] by simp
  moreover have "onMessage env st sender ?req = onMessage env st sender (transaction amount recipient)"
    by (rule submit_depends) (cases data; simp add: field_def map_filter_simps)+
  ultimately show ?thesis unfolding assms(1) commit_sent [OF assms(5)] by simp
qed

theorem sdk_commit_sends_transaction_witness:
  "\<exists>req. cs_sent (content_run [PageMessage True (commitTransaction ''5'' None ''bob'' None), click_submit] (new_ContentScript ''a'')) = [(req, Forward)]
    \<and> hd_requests (onMessage sample_env sample_wallet (page ''a'') req)
        = [(kv_url ''http://node:8400'', query_body (kv_mutation (generateUUID (ev_random sample_env)) ''5'' ''bob'' ''pub''))]"
proof (rule sdk_commit_sends_transaction [OF refl sample_sender(1)])
  show "connected_entry sample_wallet (getBaseDomain sample_env ''a'')
      = Some (new_entry sample_env () (op_message (Connect ''a'' ''net'' (''pub'', ''priv'', ''http://node:8400''))))"
    unfolding sample_sender(2) by (rule sample_connected)
qed (rule sample_signer, code_simp, simp)



section \<open>What a page gets without the user\<close>

definition sign_request :: "json \<Rightarrow> json" where
  "sign_request payload = JObj [(''direction'', JStr ''request''), (''type'', JStr ''sign''), (''payload'', payload)]"

lemma signing_depends:
  assumes "field ''action'' req = Some (JStr ''getSigningKeys'')" "field ''domain'' req = Some (JStr d)"
  shows "onMessage env st sender req = onMessage env st sender (ask ''getSigningKeys'' d)"
  using assms by (simp add: onMessage_def ask_def field_def getSigningKeys_def Let_def)

text \<open>
  C26. A page of a connected host gets the private key of its host: one message asks for a signature, and the
  response of the background script is posted to the page with the private key in it. There is no
  dialog and no click.
\<close>

theorem page_gets_private_key:
  assumes "implements (ev_crypto env) st w" "ws_current w host = Some (publicKey, privateKey, url)"
    and "c = content_run [PageMessage True (sign_request payload)] (new_ContentScript host)"
  shows "\<exists>req cb. cs_sent c = [(req, cb)] \<and> cs_modal c = None
    \<and> cs_posted (content_step (BackgroundResponse 0 (hd_response (onMessage env st sender req))) c)
      = [JObj [(''type'', JStr ''FROM_CONTENT_SCRIPT''),
           (''data'', JObj [(''type'', JStr ''signWithKeys''), (''direction'', JStr ''request''), (''privateKey'', JStr privateKey),
              (''publicKey'', JStr publicKey), (''message'', payload)])]]"
proof -
  let ?req = "[(''action'', JStr ''getSigningKeys''), (''domain'', JStr host), (''message'', payload)]"
  have c: "cs_sent c = [(?req, SignReply (Some payload))]" "cs_modal c = None" "cs_posted c = []"
    unfolding assms(3)
    by (simp_all add: content_run_def page_message_def sign_request_def opt_member_def handleSignOperation_def send_def
        new_ContentScript_def map_filter_simps)
  have "hd_response (onMessage env st sender ?req) = Some (succeeded [(''privateKey'', Some (JStr privateKey)), (''publicKey'', Some (JStr publicKey))])"
    using answers_current(1) [OF assms(1), of sender host] assms(2) signing_depends [of ?req host env st sender]
    by (simp add: field_def ws_signing_def)
  then have "cs_posted (content_step (BackgroundResponse 0 (hd_response (onMessage env st sender ?req))) c)
      = [JObj [(''type'', JStr ''FROM_CONTENT_SCRIPT''),
           (''data'', JObj [(''type'', JStr ''signWithKeys''), (''direction'', JStr ''request''), (''privateKey'', JStr privateKey),
              (''publicKey'', JStr publicKey), (''message'', payload)])]]"
    using c by (simp add: background_response_def callback_posts_def succeeded_def object_of_def map_filter_simps opt_member_def
        sendMessageToPage_def)
  then show ?thesis using c by blast
qed

theorem page_gets_private_key_witness:
  "\<exists>req cb. cs_sent (content_run [PageMessage True (sign_request JNull)] (new_ContentScript ''a'')) = [(req, cb)]
    \<and> cs_posted (content_step (BackgroundResponse 0 (hd_response (onMessage sample_env sample_wallet (page ''a'') req)))
        (content_run [PageMessage True (sign_request JNull)] (new_ContentScript ''a'')))
      = [JObj [(''type'', JStr ''FROM_CONTENT_SCRIPT''),
           (''data'', JObj [(''type'', JStr ''signWithKeys''), (''direction'', JStr ''request''), (''privateKey'', JStr ''priv''),
              (''publicKey'', JStr ''pub''), (''message'', JNull)])]]"
proof -
  let ?op = "Connect ''a'' ''net'' (''pub'', ''priv'', ''http://node:8400'')"
  have "implements (ev_crypto sample_env) empty_storage ws_empty"
    by (simp add: implements_def empty_storage_def ws_empty_def entry_of_def)
  then have i: "implements (ev_crypto sample_env) sample_wallet (ws_step ?op ws_empty)"
    unfolding sample_wallet_def by (rule implements_step) (simp_all add: plain_crypto_ok)
  have "ws_current (ws_step ?op ws_empty) ''a'' = Some (''pub'', ''priv'', ''http://node:8400'')" by (simp add: ws_current_def ws_empty_def)
  from page_gets_private_key [OF i this refl, of JNull "page ''a''"] show ?thesis by blast
qed


section \<open>Styles\<close>

text \<open>
  A page changes only the listed styles of the listed elements, and all of those that it asks for.
\<close>

theorem styles_are_listed:
  "(selector, name, v) \<in> set (applyStylesToModal styles) \<longleftrightarrow>
     selector \<in> set allowedSelectors \<and> (\<exists>names obj. map_of allowedStyles selector = Some names \<and> name \<in> set names
       \<and> (selector, obj) \<in> set (properties_of styles) \<and> (name, v) \<in> set (properties_of obj))"
proof -
  have in_settings: "(selector, name, v) \<in> set (selector_settings (s, obj)) \<longleftrightarrow> s = selector \<and> selector \<in> set allowedSelectors
      \<and> (\<exists>names. map_of allowedStyles selector = Some names \<and> name \<in> set names) \<and> (name, v) \<in> set (properties_of obj)" for s obj
    by (cases "map_of allowedStyles selector") (auto simp: selector_settings_def Let_def)
  have "(selector, name, v) \<in> set (applyStylesToModal styles)
      \<longleftrightarrow> (\<exists>s obj. (s, obj) \<in> set (properties_of styles) \<and> (selector, name, v) \<in> set (selector_settings (s, obj)))"
    by (auto simp: applyStylesToModal_def)
  also have "\<dots> \<longleftrightarrow> selector \<in> set allowedSelectors \<and> (\<exists>names obj. map_of allowedStyles selector = Some names \<and> name \<in> set names
       \<and> (selector, obj) \<in> set (properties_of styles) \<and> (name, v) \<in> set (properties_of obj))"
    unfolding in_settings by blast
  finally show ?thesis .
qed


section \<open>Listeners of the SDK\<close>

text \<open>
  After any sequence of additions and removals the window listener is installed exactly when there is a
  handler, so every message of the content script reaches all handlers, in the order of their registration.
\<close>

theorem sdk_delivers_to_all:
  "sdk_deliver (fold sdk_step ops new_ResVaultSDK) True (JObj [(''type'', JStr ''FROM_CONTENT_SCRIPT''), (''data'', j)])
     = sk_messageHandlers (fold sdk_step ops new_ResVaultSDK)"
proof -
  let ?ok = "\<lambda>sdk. sk_listening sdk \<longleftrightarrow> sk_messageHandlers sdk \<noteq> []"
  have "?ok sdk \<Longrightarrow> ?ok (sdk_step x sdk)" for sdk x
    by (cases x) (auto simp: addMessageListener_def removeMessageListener_def Let_def)
  then have "?ok sdk \<Longrightarrow> ?ok (fold sdk_step ops sdk)" for sdk
    by (induction ops arbitrary: sdk) auto
  then show ?thesis by (simp add: sdk_deliver_def new_ResVaultSDK_def opt_member_def)
qed

end
