(* ===== verification/Lens_Time.thy ===== *)
theory Lens_Time
  imports JS_Date
begin

text \<open>
  Model of \<open>utils/time.js\<close> and \<open>utils/encoding.js\<close> of the ResLens middleware: dates as texts, and the
  delta encoding in which the graph of all blocks is sent. Times are in microseconds.
\<close>

section \<open>Dates as texts\<close>

definition months :: "string list" where
  "months = [''Jan'', ''Feb'', ''Mar'', ''Apr'', ''May'', ''Jun'', ''Jul'', ''Aug'', ''Sep'', ''Oct'', ''Nov'', ''Dec'']"

definition two_digits :: "int \<Rightarrow> string" where
  "two_digits n = (if n < 10 then ''0'' @ show_int n else show_int n)"

text \<open>The components of an invalid date are \<open>NaN\<close>, and \<open>months[NaN]\<close> is \<open>undefined\<close>.\<close>

definition parseCreateTime :: "rat \<Rightarrow> string" where
  "parseCreateTime createtime =
     (case time_clip \<lfloor>createtime / 1000\<rfloor> of
        None \<Rightarrow> ''NaN undefined NaN NaN:NaN:NaN GMT''
      | Some t \<Rightarrow>
          (let (year, month, day) = civil (t div 86400000); ms = t mod 86400000
           in two_digits day @ '' '' @ months ! nat (month - 1) @ '' '' @ show_int year @ '' ''
              @ two_digits (ms div 3600000) @ '':'' @ two_digits (ms div 60000 mod 60) @ '':'' @ two_digits (ms div 1000 mod 60)
              @ '' GMT''))"

definition month_index :: "string \<Rightarrow> int option" where
  "month_index s = map_of (zip months [0..11]) s"

text \<open>An element of an array of texts, and \<open>parseInt\<close> of it: \<open>NaN\<close> when it is \<open>undefined\<close>.\<close>

definition element :: "'a list \<Rightarrow> nat \<Rightarrow> 'a option" where
  "element xs i = (if i < length xs then Some (xs ! i) else None)"

definition int_part :: "string list \<Rightarrow> nat \<Rightarrow> int option" where
  "int_part parts i = Option.bind (element parts i) parseInt10"

text \<open>\<open>NaN\<close> in any part makes the date invalid, and its time is \<open>NaN\<close> (None).\<close>

definition parseTimeToUnixEpoch :: "string \<Rightarrow> string + int option" where
  "parseTimeToUnixEpoch timeString =
     (let parts = split_char (CHR '' '') timeString
      in case element parts 3 of
           None \<Rightarrow> Inl (''Cannot read properties of undefined (reading '' @ [CHR 0x27] @ ''split'' @ [CHR 0x27] @ '')'')
         | Some time \<Rightarrow>
             (let timeParts = split_char (CHR '':'') time
              in Inr (case (int_part parts 0, Option.bind (element parts 1) month_index, int_part parts 2,
                            int_part timeParts 0, int_part timeParts 1, int_part timeParts 2) of
                        (Some day, Some month, Some year, Some hour, Some minute, Some second) \<Rightarrow>
                          map_option (\<lambda>t. t * 1000) (date_utc year month day hour minute second)
                      | _ \<Rightarrow> None)))"


section \<open>Delta encoding\<close>

text \<open>Arithmetic with \<open>NaN\<close>, which is None.\<close>

definition nan2 :: "('a \<Rightarrow> 'b \<Rightarrow> 'c) \<Rightarrow> 'a option \<Rightarrow> 'b option \<Rightarrow> 'c option" where
  "nan2 f a b = (case (a, b) of (Some x, Some y) \<Rightarrow> Some (f x y) | _ \<Rightarrow> None)"

lemma nan2_simps [simp]: "nan2 f (Some x) (Some y) = Some (f x y)" "nan2 f None b = None" "nan2 f a None = None"
  by (auto simp: nan2_def split: option.split)

record TimeSeriesPoint =
  tp_epoch :: "rat option"
  tp_volume :: rat

record DecodedPoint = TimeSeriesPoint +
  tp_createdAt :: string

record DeltaEncodedData =
  de_startEpoch :: "rat option"
  de_startVolume :: rat
  de_timeMultiplier :: rat
  de_epochs :: "rat option list"
  de_volumes :: "rat list"

definition TIME_MULTIPLIER :: rat where
  "TIME_MULTIPLIER = 1000000"

definition scaled :: "rat option \<Rightarrow> rat option" where
  "scaled x = map_option (\<lambda>d. d / TIME_MULTIPLIER) x"

text \<open>The loop from the second element on: the differences of neighbours.\<close>

definition applyDeltaEncoding :: "TimeSeriesPoint list \<Rightarrow> DeltaEncodedData" where
  "applyDeltaEncoding data =
     (case data of
        [] \<Rightarrow> \<lparr>de_startEpoch = Some 0, de_startVolume = 0, de_timeMultiplier = TIME_MULTIPLIER, de_epochs = [], de_volumes = []\<rparr>
      | p # ps \<Rightarrow> \<lparr>de_startEpoch = scaled (tp_epoch p), de_startVolume = tp_volume p, de_timeMultiplier = TIME_MULTIPLIER,
                  de_epochs = map2 (\<lambda>b a. scaled (nan2 (-) (tp_epoch b) (tp_epoch a))) ps data,
                  de_volumes = map2 (\<lambda>b a. tp_volume b - tp_volume a) ps data\<rparr>)"

definition create_time :: "rat option \<Rightarrow> string" where
  "create_time e = (case e of None \<Rightarrow> ''NaN undefined NaN NaN:NaN:NaN GMT'' | Some c \<Rightarrow> parseCreateTime c)"

definition decoded_point :: "rat option \<Rightarrow> rat \<Rightarrow> DecodedPoint" where
  "decoded_point e v = \<lparr>tp_epoch = e, tp_volume = v, tp_createdAt = create_time e\<rparr>"

text \<open>The loop over the deltas; the previous point is the last of the result.\<close>

fun decode_loop :: "rat \<Rightarrow> DecodedPoint \<Rightarrow> (rat option \<times> rat) list \<Rightarrow> DecodedPoint list" where
  "decode_loop mult prev [] = []"
| "decode_loop mult prev ((e, v) # ds) =
     (let p = decoded_point (nan2 (\<lambda>x d. (x / mult + d) * mult) (tp_epoch prev) e) (tp_volume prev + v) in p # decode_loop mult p ds)"

definition decodeDeltaEncoding :: "DeltaEncodedData \<Rightarrow> DecodedPoint list" where
  "decodeDeltaEncoding d =
     (let p = decoded_point (map_option (\<lambda>x. x * de_timeMultiplier d) (de_startEpoch d)) (de_startVolume d)
      in p # decode_loop (de_timeMultiplier d) p (zip (de_epochs d) (de_volumes d)))"


section \<open>Round trips\<close>

lemma months_no_space: "m < 12 \<Longrightarrow> CHR '' '' \<notin> set (months ! m)"
proof -
  have "list_all (\<lambda>s. CHR '' '' \<notin> set s) months" by code_simp
  moreover assume "m < 12"
  ultimately show ?thesis by (simp add: list_all_length months_def)
qed

lemma month_index_months: "m < 12 \<Longrightarrow> month_index (months ! m) = Some (int m)"
proof -
  have "list_all (\<lambda>m. month_index (months ! m) = Some (int m)) [0..<12]" by code_simp
  moreover assume "m < 12"
  ultimately show ?thesis by (simp add: list_all_iff)
qed

lemma two_digits_parse: "0 \<le> n \<Longrightarrow> parseInt10 (two_digits n) = Some n"
  and two_digits_digits: "0 \<le> n \<Longrightarrow> list_all is_digit (two_digits n)"
proof -
  assume n: "0 \<le> n"
  have 0: "is_digit (CHR ''0'')" by (simp add: js_simps)
  show d: "list_all is_digit (two_digits n)" using n 0 by (auto simp: two_digits_def show_int_def show_nat_digits)
  have "digits_value (two_digits n) = nat n"
    using n digits_value_append [of "''0''" "show_nat (nat n)"] digits_value_zeros [of 1] by (simp add: two_digits_def show_int_def)
  then show "parseInt10 (two_digits n) = Some n"
    using parseInt10_digits [OF d] n by (simp add: two_digits_def show_int_def split: if_splits)
qed

lemma show_int_no_space: "CHR '' '' \<notin> set (show_int i)"
  using digits_no_char [OF show_nat_digits, of "CHR '' ''"] by (auto simp: show_int_def)

text \<open>
  A time in the range of dates and outside of the years 0 to 99 is written to a text that is
  read back as the same time cut to seconds.
\<close>

lemma create_time_read_back:
  assumes t: "time_clip \<lfloor>c / 1000\<rfloor> = Some t" "\<not> (0 \<le> fst (civil (t div 86400000)) \<and> fst (civil (t div 86400000)) \<le> 99)"
  shows "parseTimeToUnixEpoch (parseCreateTime c) = Inr (Some (t div 1000 * 1000000))"
proof -
  obtain y m d where civ: "civil (t div 86400000) = (y, m, d)" by (metis prod_cases3)
  define ms where "ms = t mod 86400000"
  note cm = civil_make_day [OF civ]
  have ms: "0 \<le> ms" by (simp add: ms_def)
  define h mi s where hms: "h = ms div 3600000" "mi = ms div 60000 mod 60" "s = ms div 1000 mod 60"
  have pos: "0 \<le> h" "0 \<le> mi" "0 \<le> s" using ms by (simp_all add: hms pos_imp_zdiv_nonneg_iff)
  define clock where "clock = two_digits h @ '':'' @ two_digits mi @ '':'' @ two_digits s"
  have whole: "parseCreateTime c = two_digits d @ CHR '' '' # months ! nat (m - 1) @ CHR '' '' # show_int y @ CHR '' '' # clock @ CHR '' '' # ''GMT''"
    using t(1) civ by (simp add: parseCreateTime_def ms_def [symmetric] hms clock_def Let_def)
  have colon: "CHR '':'' \<notin> set (two_digits x)" "CHR '' '' \<notin> set (two_digits x)" if "0 \<le> x" for x
    using digits_no_char [OF two_digits_digits [OF that]] by simp_all
  have parts: "split_char (CHR '' '') (parseCreateTime c) = [two_digits d, months ! nat (m - 1), show_int y, clock, ''GMT'']"
  proof -
    have "CHR '' '' \<notin> set clock" using colon pos by (simp add: clock_def)
    then show ?thesis unfolding whole
      using colon [of d] cm months_no_space [of "nat (m - 1)"] show_int_no_space by (simp add: split_char_append split_char_single)
  qed
  have clocks: "split_char (CHR '':'') clock = [two_digits h, two_digits mi, two_digits s]"
    using colon pos by (simp add: clock_def split_char_append split_char_single)
  have total: "(t div 86400000) * 86400000 + h * 3600000 + mi * 60000 + s * 1000 = t div 1000 * 1000"
  proof -
    have "h * 60 + mi = ms div 60000" using div_mult_mod_eq [of "ms div 60000" 60] by (simp add: hms zdiv_zmult2_eq [symmetric])
    moreover have "ms div 60000 * 60 + s = ms div 1000" using div_mult_mod_eq [of "ms div 1000" 60] by (simp add: hms zdiv_zmult2_eq [symmetric])
    moreover have "t div 1000 = t div 86400000 * 86400 + ms div 1000"
    proof -
      have "t = (t div 86400000 * 86400) * 1000 + ms" by (simp add: ms_def)
      then have "t div 1000 = ((t div 86400000 * 86400) * 1000 + ms) div 1000" by simp
      then show ?thesis by simp
    qed
    ultimately show ?thesis by simp
  qed
  have "- 8640000000000000 \<le> t" "t \<le> 8640000000000000" using t(1) by (auto simp: time_clip_def split: if_splits)
  from this [THEN zdiv_mono1, of 1000] have "\<bar>t div 1000 * 1000\<bar> \<le> 8640000000000000" by simp
  then have r: "time_clip (t div 1000 * 1000) = Some (t div 1000 * 1000)" by (simp add: time_clip_def)
  have "date_utc y (m - 1) d h mi s = Some (t div 1000 * 1000)"
    using t(2) civ cm(1) total r by (auto simp: date_utc_def)
  then show ?thesis
    using cm pos by (simp add: parseTimeToUnixEpoch_def Let_def parts clocks element_def int_part_def two_digits_parse month_index_months)
qed

text \<open>The first time that is no date makes all later times of the decoded series invalid, and no earlier one.\<close>

fun until_nan :: "TimeSeriesPoint list \<Rightarrow> TimeSeriesPoint list" where
  "until_nan [] = []"
| "until_nan (p # ps) = p # (if tp_epoch p = None then map (\<lambda>q. q\<lparr>tp_epoch := None\<rparr>) ps else until_nan ps)"

definition decoded :: "TimeSeriesPoint \<Rightarrow> DecodedPoint" where
  "decoded p = decoded_point (tp_epoch p) (tp_volume p)"

lemma decode_loop_deltas:
  assumes "tp_epoch prev = tp_epoch q \<or> tp_epoch prev = None" "tp_volume prev = tp_volume q"
  shows "decode_loop TIME_MULTIPLIER prev (zip (map2 (\<lambda>b a. scaled (nan2 (-) (tp_epoch b) (tp_epoch a))) ps (q # ps))
        (map2 (\<lambda>b a. tp_volume b - tp_volume a) ps (q # ps)))
    = map decoded (if tp_epoch prev = None then map (\<lambda>q. q\<lparr>tp_epoch := None\<rparr>) ps else until_nan ps)"
  using assms
proof (induction ps arbitrary: prev q)
  case (Cons p ps)
  have undo: "(a / TIME_MULTIPLIER + (b - a) / TIME_MULTIPLIER) * TIME_MULTIPLIER = b" for a b
    by (simp add: add_divide_distrib [symmetric] TIME_MULTIPLIER_def)
  let ?e = "nan2 (\<lambda>x d. (x / TIME_MULTIPLIER + d) * TIME_MULTIPLIER) (tp_epoch prev) (scaled (nan2 (-) (tp_epoch p) (tp_epoch q)))"
  have e: "?e = (if tp_epoch prev = None then None else tp_epoch p)"
    using Cons.prems(1) undo by (cases "tp_epoch prev"; cases "tp_epoch p") (auto simp: scaled_def)
  have v: "tp_volume prev + (tp_volume p - tp_volume q) = tp_volume p" using Cons.prems(2) by simp
  show ?case using Cons.IH [of "decoded_point (if tp_epoch prev = None then None else tp_epoch p) (tp_volume p)" p] e v
    by (simp add: decoded_point_def decoded_def Let_def)
qed simp

lemma decode_encode:
  assumes "data \<noteq> []"
  shows "decodeDeltaEncoding (applyDeltaEncoding data) = map decoded (until_nan data)"
proof -
  obtain p ps where d: "data = p # ps" using assms by (cases data) auto
  have "map_option (\<lambda>x. x * TIME_MULTIPLIER) (scaled (tp_epoch p)) = tp_epoch p"
    by (cases "tp_epoch p") (simp_all add: scaled_def TIME_MULTIPLIER_def)
  then show ?thesis using decode_loop_deltas [of "decoded p" p ps]
    by (simp add: d decodeDeltaEncoding_def applyDeltaEncoding_def decoded_point_def decoded_def Let_def)
qed

lemma until_nan_valid: "list_all (\<lambda>p. tp_epoch p \<noteq> None) data \<Longrightarrow> until_nan data = data"
  by (induction data rule: until_nan.induct) auto

text \<open>The text of a time does not depend on the part below a second.\<close>

lemma create_time_cut:
  assumes "time_clip \<lfloor>c / 1000\<rfloor> = Some t"
  shows "parseCreateTime (of_int (t div 1000 * 1000000)) = parseCreateTime c"
proof -
  let ?u = "t div 1000 * 1000"
  have f: "\<lfloor>of_int (t div 1000 * 1000000) / (1000 :: rat)\<rfloor> = ?u"
  proof -
    have "of_int (t div 1000 * 1000000) / (1000 :: rat) = of_int ?u" by simp
    then show ?thesis by (simp only: floor_of_int)
  qed
  have "- 8640000000000000 \<le> t" "t \<le> 8640000000000000" using assms by (auto simp: time_clip_def split: if_splits)
  from this [THEN zdiv_mono1, of 1000] have r: "time_clip ?u = Some ?u" by (simp add: time_clip_def)
  have day: "?u div 86400000 = t div 86400000" using zdiv_zmult2_eq [of 86400 "?u" 1000] zdiv_zmult2_eq [of 86400 t 1000] by simp
  have cut: "?u mod 86400000 div 1000 = t mod 86400000 div 1000"
  proof -
    have "x mod 86400000 div 1000 = x div 1000 mod 86400" for x :: int
      using zmod_zmult2_eq [of 86400 x 1000] by (simp add: div_add1_eq)
    then show ?thesis by simp
  qed
  have parts: "x div 3600000 = x div 1000 div 3600" "x div 60000 = x div 1000 div 60" for x :: int
    using zdiv_zmult2_eq [of 3600 x 1000] zdiv_zmult2_eq [of 60 x 1000] by simp_all
  show ?thesis unfolding parseCreateTime_def f r assms option.case Let_def day parts cut by (rule refl)
qed

end
