(* ===== verification/Lens_History.thy ===== *)
theory Lens_History
  imports Lens_Time Http_Common
begin

text \<open>
  Model of the transaction history of the ResLens middleware: \<open>utils/envParser.js\<close>,
  \<open>cron/syncTransactionHistory.js\<close>, which copies the blocks of the explorer into a SQLite table, and
  \<open>controllers/explorer.js\<close>, which answers from the table. The table is the list of its rows in the order
  of insertion (the automatic id is the position). Synchronisation is a machine whose events are
  the answers of the database and of the explorer, in any order; rows are inserted one at a time, so
  that a process can end in the middle of a batch. Answers have the types of the explorer's
  documentation, where properties can be missing.
\<close>

section \<open>Environment\<close>

type_synonym environment = "(string \<times> string) list"

definition getEnv :: "environment \<Rightarrow> string \<Rightarrow> string option \<Rightarrow> string + string" where
  "getEnv env name fallback =
     (let value = (case map_of env name of Some v \<Rightarrow> if v = [] then fallback else Some v | None \<Rightarrow> fallback)
      in case value of
           None \<Rightarrow> Inl (''Environment variable '' @ [CHR 0x22] @ name @ [CHR 0x22] @ '' is required but not defined.'')
         | Some v \<Rightarrow> if v = [] then Inl (''Environment variable '' @ [CHR 0x22] @ name @ [CHR 0x22] @ '' is required but not defined.'') else Inr v)"

definition explorer_url :: "environment \<Rightarrow> string \<Rightarrow> string + string" where
  "explorer_url env path = map_sum id (\<lambda>base. base @ path) (getEnv env ''EXPLORER_BASE_URL'' None)"

definition blocks_path :: "int \<Rightarrow> int \<Rightarrow> string" where
  "blocks_path start finish = ''/v1/blocks/'' @ show_int start @ ''/'' @ show_int finish"


section \<open>Blocks and rows\<close>

text \<open>A block as the explorer sends it; of the transactions only their number matters, None when they are not an array.\<close>

record Block =
  bk_id :: "int option"
  bk_createdAt :: "string option"
  bk_transactions :: "nat option"

record Row =
  tr_block_id :: int
  tr_volume :: nat
  tr_created_at :: string

definition BATCH_SIZE :: int where
  "BATCH_SIZE = 1000"

text \<open>\<open>MAX(block_id)\<close>, which is \<open>NULL\<close> for an empty table.\<close>

definition getLastProcessedBlockId :: "Row list \<Rightarrow> int" where
  "getLastProcessedBlockId table = (case map tr_block_id table of [] \<Rightarrow> 0 | i # ids \<Rightarrow> fold max ids i)"

text \<open>The answer of \<open>populatetable\<close>: the block numbers of its entries, None when it is not an array.\<close>

definition getTotalBlocks :: "int option list option \<Rightarrow> int" where
  "getTotalBlocks infos = (case infos of Some (Some n # _) \<Rightarrow> n | _ \<Rightarrow> 0)"

text \<open>The row that \<open>storeTransactions\<close> inserts for a block; without id or time the constraints of the table refuse it.\<close>

definition block_row :: "Block \<Rightarrow> Row option" where
  "block_row b =
     (case (bk_id b, bk_createdAt b) of
        (Some i, Some c) \<Rightarrow> Some \<lparr>tr_block_id = i, tr_volume = or_default (bk_transactions b) 0, tr_created_at = c\<rparr>
      | _ \<Rightarrow> None)"


section \<open>Synchronisation\<close>

text \<open>Where a call of \<open>syncTransactionHistory\<close> waits, or how it ended.\<close>

datatype sync_stage =
    AwaitLast
  | AwaitTotal int
  | AwaitBlocks int int int
  | Storing "Block list" int int
  | Sleeping int int
  | Completed int
  | UpToDate
  | SyncFailed string

datatype service = NotStarted | Initialising bool | FirstSync bool | Scheduled | OneTime

record History =
  hs_table :: "Row list"
  hs_calls :: "sync_stage list"
  hs_service :: service

definition new_History :: History where
  "new_History = \<lparr>hs_table = [], hs_calls = [], hs_service = NotStarted\<rparr>"

definition ended :: "sync_stage \<Rightarrow> bool" where
  "ended s = (case s of Completed t \<Rightarrow> True | UpToDate \<Rightarrow> True | SyncFailed e \<Rightarrow> True | _ \<Rightarrow> False)"

text \<open>The loop over the batches up to its next \<open>await\<close>; the address is built before the request.\<close>

definition next_batch :: "environment \<Rightarrow> int \<Rightarrow> int \<Rightarrow> sync_stage" where
  "next_batch env currentStart totalBlocks =
     (if currentStart \<le> totalBlocks
      then (let currentEnd = min (currentStart + BATCH_SIZE - 1) totalBlocks
            in case explorer_url env (blocks_path currentStart currentEnd) of
                 Inl e \<Rightarrow> SyncFailed e
               | Inr url \<Rightarrow> AwaitBlocks currentStart currentEnd totalBlocks)
      else Completed totalBlocks)"

definition after_last :: "environment \<Rightarrow> string + int \<Rightarrow> sync_stage" where
  "after_last env r =
     (case r of
        Inl e \<Rightarrow> SyncFailed e
      | Inr lastProcessedId \<Rightarrow> (case explorer_url env ''/populatetable'' of Inl e \<Rightarrow> SyncFailed e | Inr url \<Rightarrow> AwaitTotal lastProcessedId))"

definition after_total :: "environment \<Rightarrow> int \<Rightarrow> string + int option list option \<Rightarrow> sync_stage" where
  "after_total env lastProcessedId r =
     (case r of
        Inl e \<Rightarrow> SyncFailed e
      | Inr infos \<Rightarrow> if lastProcessedId < getTotalBlocks infos then next_batch env (lastProcessedId + 1) (getTotalBlocks infos) else UpToDate)"

text \<open>The blocks of a batch; None when the answer is neither an array nor empty.\<close>

definition after_blocks :: "int \<Rightarrow> int \<Rightarrow> string + Block list option \<Rightarrow> sync_stage" where
  "after_blocks currentEnd totalBlocks r =
     (case r of
        Inl e \<Rightarrow> SyncFailed e
      | Inr None \<Rightarrow> SyncFailed ''blocks.forEach is not a function''
      | Inr (Some blocks) \<Rightarrow> Storing blocks (currentEnd + 1) totalBlocks)"

datatype sync_event =
    Init bool
  | InitDone "string option"
  | CronTick
  | LastRead nat "string option"
  | TotalRead nat "string + int option list option"
  | BlocksRead nat "string + Block list option"
  | RowWritten nat
  | StoreDone nat "string option"
  | Wake nat
  | ProcessEnds

definition start_sync :: "History \<Rightarrow> History" where
  "start_sync h = h\<lparr>hs_calls := hs_calls h @ [AwaitLast]\<rparr>"

text \<open>
  A call moves to its next stage. The initial call of the service is its first; the job is
  scheduled when it has ended.
\<close>

definition set_call :: "nat \<Rightarrow> sync_stage \<Rightarrow> History \<Rightarrow> History" where
  "set_call i s h =
     h\<lparr>hs_calls := (hs_calls h)[i := s],
       hs_service := (case hs_service h of
                        FirstSync schedule \<Rightarrow> if i = 0 \<and> ended s then (if schedule then Scheduled else OneTime) else FirstSync schedule
                      | sv \<Rightarrow> sv)\<rparr>"

definition process_ends :: "History \<Rightarrow> History" where
  "process_ends h = h\<lparr>hs_calls := [], hs_service := NotStarted\<rparr>"

text \<open>The next insertion of a batch. A refused row has no callback, and its error ends the process.\<close>

definition insert_row :: "nat \<Rightarrow> Block \<Rightarrow> Block list \<Rightarrow> int \<Rightarrow> int \<Rightarrow> History \<Rightarrow> History" where
  "insert_row i b bs currentStart totalBlocks h =
     (case block_row b of
        None \<Rightarrow> process_ends h
      | Some row \<Rightarrow> set_call i (Storing bs currentStart totalBlocks) (h\<lparr>hs_table := hs_table h @ [row]\<rparr>))"

definition call_of :: "nat \<Rightarrow> History \<Rightarrow> sync_stage option" where
  "call_of i h = element (hs_calls h) i"

fun sync_step :: "environment \<Rightarrow> sync_event \<Rightarrow> History \<Rightarrow> History" where
  "sync_step env (Init schedule) h = (if hs_service h = NotStarted then h\<lparr>hs_service := Initialising schedule\<rparr> else h)"
| "sync_step env (InitDone err) h =
     (case hs_service h of
        Initialising schedule \<Rightarrow> (case err of None \<Rightarrow> start_sync (h\<lparr>hs_service := FirstSync schedule\<rparr>) | Some e \<Rightarrow> h\<lparr>hs_service := OneTime\<rparr>)
      | _ \<Rightarrow> h)"
| "sync_step env CronTick h = (if hs_service h = Scheduled then start_sync h else h)"
| "sync_step env (LastRead i err) h =
     (if call_of i h = Some AwaitLast
      then set_call i (after_last env (case err of Some e \<Rightarrow> Inl e | None \<Rightarrow> Inr (getLastProcessedBlockId (hs_table h)))) h else h)"
| "sync_step env (TotalRead i r) h =
     (case call_of i h of Some (AwaitTotal lastProcessedId) \<Rightarrow> set_call i (after_total env lastProcessedId r) h | _ \<Rightarrow> h)"
| "sync_step env (BlocksRead i r) h =
     (case call_of i h of Some (AwaitBlocks start finish totalBlocks) \<Rightarrow> set_call i (after_blocks finish totalBlocks r) h | _ \<Rightarrow> h)"
| "sync_step env (RowWritten i) h =
     (case call_of i h of Some (Storing (b # bs) start totalBlocks) \<Rightarrow> insert_row i b bs start totalBlocks h | _ \<Rightarrow> h)"
| "sync_step env (StoreDone i err) h =
     (case call_of i h of
        Some (Storing [] start totalBlocks) \<Rightarrow> set_call i (case err of Some e \<Rightarrow> SyncFailed e | None \<Rightarrow> Sleeping start totalBlocks) h
      | _ \<Rightarrow> h)"
| "sync_step env (Wake i) h =
     (case call_of i h of Some (Sleeping start totalBlocks) \<Rightarrow> set_call i (next_batch env start totalBlocks) h | _ \<Rightarrow> h)"
| "sync_step env ProcessEnds h = process_ends h"

definition sync_run :: "environment \<Rightarrow> sync_event list \<Rightarrow> History \<Rightarrow> History" where
  "sync_run env es h = fold (sync_step env) es h"

text \<open>The figures that the status command prints; the progress is in percent, and not finite when there are no blocks.\<close>

record SyncStatus =
  sy_last :: int
  sy_total :: int
  sy_progress :: "rat option"
  sy_remaining :: int

definition showStatus :: "Row list \<Rightarrow> int option list option \<Rightarrow> SyncStatus" where
  "showStatus table infos =
     (let lastProcessedId = getLastProcessedBlockId table; totalBlocks = getTotalBlocks infos
      in \<lparr>sy_last = lastProcessedId, sy_total = totalBlocks,
          sy_progress = (if lastProcessedId > 0 then (if totalBlocks = 0 then None else Some (of_int lastProcessedId / of_int totalBlocks * 100)) else Some 0),
          sy_remaining = totalBlocks - lastProcessedId\<rparr>)"

datatype command = StartService "string option" | RunOnce "string option" | ShowStatus | Help | UnknownCommand string

text \<open>The command line: the first argument is the command, the last \<open>--schedule=\<close> wins.\<close>

definition cron_option :: "string list \<Rightarrow> string option" where
  "cron_option args = fold (\<lambda>arg opt. if startsWith arg ''--schedule='' then Some (drop 11 arg) else opt) args None"

definition sync_command :: "string list \<Rightarrow> command" where
  "sync_command args =
     (let name = (case args of [] \<Rightarrow> ''start'' | a # _ \<Rightarrow> if a = [] then ''start'' else a); schedule = cron_option args
      in if name = ''start'' then StartService schedule
         else if name = ''run-once'' then RunOnce schedule
         else if name = ''status'' then ShowStatus
         else if name = ''help'' then Help
         else UnknownCommand name)"


section \<open>Answers from the table\<close>

datatype 'a response = Send 'a | SendStatus nat json | Rejected string

definition failure :: "nat \<Rightarrow> string \<Rightarrow> string \<Rightarrow> 'a response" where
  "failure status error details = SendStatus status (JObj [(''error'', JStr error), (''details'', JStr details)])"

text \<open>The explorer's own answers, passed on. The address is built before the \<open>try\<close> block.\<close>

definition getExplorerData :: "environment \<Rightarrow> (string \<Rightarrow> string + 'a) \<Rightarrow> 'a response" where
  "getExplorerData env get =
     (case explorer_url env ''/populatetable'' of
        Inl e \<Rightarrow> Rejected e
      | Inr url \<Rightarrow> (case get url of Inr x \<Rightarrow> Send x | Inl e \<Rightarrow> failure 500 ''Failed to fetch explorer data'' e))"

definition query_int :: "string option \<Rightarrow> int option" where
  "query_int v = parseInt10 (or_default v ''undefined'')"

definition getBlocks :: "environment \<Rightarrow> (string \<Rightarrow> string + 'a) \<Rightarrow> string option \<Rightarrow> string option \<Rightarrow> 'a response" where
  "getBlocks env get start finish =
     (case (query_int start, query_int finish) of
        (Some a, Some b) \<Rightarrow>
          (case explorer_url env (blocks_path a b) of
             Inl e \<Rightarrow> Rejected e
           | Inr url \<Rightarrow> (case get url of Inr x \<Rightarrow> Send x | Inl e \<Rightarrow> failure 500 ''Failed to fetch block data'' e))
      | _ \<Rightarrow> SendStatus 400 (error_body ''Pass valid start and end query params as part of the request''))"

text \<open>The rows of a range, all rows, or the first hundred when only one bound is a number.\<close>

definition getDataFromCache :: "int option \<Rightarrow> int option \<Rightarrow> Row list \<Rightarrow> Row list" where
  "getDataFromCache start finish table =
     (case (start, finish) of
        (Some a, Some b) \<Rightarrow> sort_key tr_block_id (filter (\<lambda>r. a \<le> tr_block_id r \<and> tr_block_id r \<le> b) table)
      | (None, None) \<Rightarrow> sort_key tr_block_id table
      | _ \<Rightarrow> take 100 (sort_key tr_block_id table))"

definition row_point :: "Row \<Rightarrow> string + TimeSeriesPoint" where
  "row_point r = map_sum id (\<lambda>e. \<lparr>tp_epoch = map_option of_int e, tp_volume = of_nat (tr_volume r)\<rparr>) (parseTimeToUnixEpoch (tr_created_at r))"

fun row_points :: "Row list \<Rightarrow> string + TimeSeriesPoint list" where
  "row_points [] = Inr []"
| "row_points (r # rs) =
     (case row_point r of Inl e \<Rightarrow> Inl e | Inr p \<Rightarrow> (case row_points rs of Inl e \<Rightarrow> Inl e | Inr ps \<Rightarrow> Inr (p # ps)))"

definition getAllEncodedBlocks :: "string + Row list \<Rightarrow> DeltaEncodedData response" where
  "getAllEncodedBlocks database =
     (case map_sum id (getDataFromCache None None) database of
        Inl e \<Rightarrow> failure 500 ''Failed to fetch full block data'' e
      | Inr [] \<Rightarrow> SendStatus 404 (error_body ''No cached block data available'')
      | Inr cacheData \<Rightarrow>
          (case row_points cacheData of
             Inl e \<Rightarrow> failure 500 ''Failed to fetch full block data'' e
           | Inr modifiedData \<Rightarrow> Send (applyDeltaEncoding modifiedData)))"


section \<open>The table is a prefix of the chain\<close>

text \<open>
  The chain of an honest explorer: consecutive ids from 1, every block with a time. A run is
  admissible when the explorer answers from the chain and the job starts only when no call is
  running; the process may end at any time.
\<close>

definition chain_ok :: "Block list \<Rightarrow> bool" where
  "chain_ok chain \<longleftrightarrow> (\<forall>i < length chain. bk_id (chain ! i) = Some (int i + 1) \<and> bk_createdAt (chain ! i) \<noteq> None)"

definition row_of :: "Block \<Rightarrow> Row" where
  "row_of b = \<lparr>tr_block_id = or_default (bk_id b) 0, tr_volume = or_default (bk_transactions b) 0, tr_created_at = or_default (bk_createdAt b) []\<rparr>"

fun admissible :: "Block list \<Rightarrow> History \<Rightarrow> sync_event \<Rightarrow> bool" where
  "admissible chain h CronTick \<longleftrightarrow> list_all ended (hs_calls h)"
| "admissible chain h (TotalRead i (Inr infos)) \<longleftrightarrow> getTotalBlocks infos \<le> int (length chain)"
| "admissible chain h (BlocksRead i (Inr r)) \<longleftrightarrow>
     (case call_of i h of Some (AwaitBlocks a b t) \<Rightarrow> r = Some (slice chain (nat (a - 1)) (nat b)) | _ \<Rightarrow> True)"
| "admissible chain h e \<longleftrightarrow> True"

inductive history_reach :: "environment \<Rightarrow> Block list \<Rightarrow> History \<Rightarrow> bool" for env chain where
  start: "history_reach env chain new_History"
| step: "history_reach env chain h \<Longrightarrow> admissible chain h e \<Longrightarrow> history_reach env chain (sync_step env e h)"

fun stage_ok :: "Block list \<Rightarrow> nat \<Rightarrow> sync_stage \<Rightarrow> bool" where
  "stage_ok chain k (AwaitTotal l) \<longleftrightarrow> l = int k"
| "stage_ok chain k (AwaitBlocks a b t) \<longleftrightarrow> a = int k + 1 \<and> a \<le> b \<and> b \<le> t \<and> t \<le> int (length chain)"
| "stage_ok chain k (Storing bs n t) \<longleftrightarrow>
     int k \<le> n - 1 \<and> bs = slice chain k (nat (n - 1)) \<and> n - 1 \<le> t \<and> t \<le> int (length chain)"
| "stage_ok chain k (Sleeping n t) \<longleftrightarrow> n = int k + 1 \<and> t \<le> int (length chain)"
| "stage_ok chain k (Completed t) \<longleftrightarrow> t \<le> int k"
| "stage_ok chain k s \<longleftrightarrow> True"

definition history_inv :: "Block list \<Rightarrow> History \<Rightarrow> bool" where
  "history_inv chain h \<longleftrightarrow>
     length (hs_table h) \<le> length chain \<and> hs_table h = map row_of (take (length (hs_table h)) chain)
     \<and> list_all (stage_ok chain (length (hs_table h))) (hs_calls h) \<and> list_all ended (butlast (hs_calls h))
     \<and> (case hs_service h of NotStarted \<Rightarrow> hs_calls h = [] | Initialising b \<Rightarrow> hs_calls h = [] | _ \<Rightarrow> True)"

lemma chain_row: "chain_ok chain \<Longrightarrow> i < length chain \<Longrightarrow> block_row (chain ! i) = Some (row_of (chain ! i)) \<and> tr_block_id (row_of (chain ! i)) = int i + 1"
  by (auto simp: chain_ok_def block_row_def row_of_def or_default_def)

lemma last_id_prefix:
  assumes "chain_ok chain" "k \<le> length chain"
  shows "getLastProcessedBlockId (map row_of (take k chain)) = int k"
proof -
  have ids: "map tr_block_id (map row_of (take k chain)) = map (\<lambda>i. int i + 1) [0..<k]"
    using assms chain_row by (intro nth_equalityI) auto
  have mx: "fold max (map (\<lambda>i. int i + 1) [j..<m]) (int j) = int m" if "j \<le> m" for j m
    using that by (induction m) (auto simp: le_Suc_eq)
  show ?thesis
  proof (cases k)
    case (Suc m)
    have "[0..<k] = 0 # [1..<k]" using Suc by (simp add: upt_rec)
    then show ?thesis unfolding getLastProcessedBlockId_def ids using mx [of 1 k] Suc by simp
  qed (simp add: getLastProcessedBlockId_def)
qed

text \<open>The call that waits is the last one, so that moving it leaves the others as they are.\<close>

lemma waiting_is_last:
  assumes "list_all ended (butlast (hs_calls h))" "call_of i h = Some s" "\<not> ended s"
  shows "\<exists>cs. hs_calls h = cs @ [s] \<and> i = length cs \<and> list_all ended cs"
proof -
  have i: "i < length (hs_calls h)" "hs_calls h ! i = s" using assms(2) by (auto simp: call_of_def element_def split: if_splits)
  have "\<not> i < length (butlast (hs_calls h))"
    using assms(1,3) i nth_butlast [of i "hs_calls h"] by (auto simp: list_all_length)
  then have n: "i = length (hs_calls h) - 1" using i by simp
  then have "hs_calls h = butlast (hs_calls h) @ [s]"
    using i append_butlast_last_id [of "hs_calls h"] by (cases "hs_calls h") (auto simp: last_conv_nth)
  then show ?thesis using n assms(1) by (metis length_butlast)
qed

lemma ended_ok_mono: "ended s \<Longrightarrow> stage_ok chain k s \<Longrightarrow> k \<le> m \<Longrightarrow> stage_ok chain m s"
  by (cases s) (auto simp: ended_def)

lemma set_call_inv:
  assumes "history_inv chain h" "call_of i h = Some s" "\<not> ended s" "stage_ok chain (length (hs_table h)) s'"
  shows "history_inv chain (set_call i s' h)"
proof -
  have b: "list_all ended (butlast (hs_calls h))" using assms(1) by (simp add: history_inv_def)
  obtain cs where cs: "hs_calls h = cs @ [s]" "i = length cs" "list_all ended cs" using waiting_is_last [OF b assms(2,3)] by blast
  then show ?thesis using assms(1,4) by (auto simp: history_inv_def set_call_def split: service.split)
qed

lemma next_batch_ok:
  "a = int k + 1 \<Longrightarrow> t \<le> int (length chain) \<Longrightarrow> stage_ok chain k (next_batch env a t)"
  by (auto simp: next_batch_def Let_def BATCH_SIZE_def split: sum.split)

lemma insert_row_inv:
  assumes "chain_ok chain" "history_inv chain h" "call_of i h = Some (Storing (b # bs) n t)"
  shows "history_inv chain (insert_row i b bs n t h)"
proof -
  let ?k = "length (hs_table h)"
  have inv: "hs_table h = map row_of (take ?k chain)" "list_all ended (butlast (hs_calls h))"
    "list_all (stage_ok chain ?k) (hs_calls h)" using assms(2) by (simp_all add: history_inv_def)
  obtain cs where cs: "hs_calls h = cs @ [Storing (b # bs) n t]" "i = length cs" "list_all ended cs"
    using waiting_is_last [OF inv(2) assms(3)] by (auto simp: ended_def)
  have st: "int ?k \<le> n - 1" "b # bs = slice chain ?k (nat (n - 1))" "n - 1 \<le> t" "t \<le> int (length chain)"
    using inv(3) cs(1) by simp_all
  have lt: "?k < nat (n - 1)" "?k < length chain"
    using st(2) by (auto simp: slice_def dest: arg_cong [of _ _ length])
  have "drop ?k chain = chain ! ?k # drop (Suc ?k) chain" using lt by (simp add: Cons_nth_drop_Suc)
  then have b: "b = chain ! ?k" "bs = slice chain (Suc ?k) (nat (n - 1))"
    using st(2) lt(1) by (simp_all add: slice_def Suc_diff_Suc [symmetric] take_Cons')
  have row: "block_row b = Some (row_of b)" using chain_row [OF assms(1) lt(2)] b(1) by simp
  have tab: "hs_table h @ [row_of b] = map row_of (take (Suc ?k) chain)"
    using inv(1) lt(2) b(1) by (simp add: take_Suc_conv_app_nth)
  have "list_all (stage_ok chain (Suc ?k)) cs"
    using inv(3) cs ended_ok_mono [of _ chain ?k "Suc ?k"] by (auto simp: list_all_iff)
  moreover have "stage_ok chain (Suc ?k) (Storing bs n t)" using st b(2) lt by simp
  ultimately show ?thesis using assms(2) cs tab lt(2) row
    by (auto simp: history_inv_def insert_row_def set_call_def split: service.split)
qed

lemma history_inv_step:
  assumes "chain_ok chain" "history_inv chain h" "admissible chain h e"
  shows "history_inv chain (sync_step env e h)"
proof -
  let ?k = "length (hs_table h)"
  have inv: "hs_table h = map row_of (take ?k chain)" "?k \<le> length chain" using assms(2) by (simp_all add: history_inv_def)
  have ok: "stage_ok chain ?k s" if "call_of i h = Some s" for i s
    using assms(2) that by (auto simp: history_inv_def call_of_def element_def list_all_length split: if_splits)
  note move = set_call_inv [OF assms(2)]
  show ?thesis
  proof (cases e)
    case (LastRead i err)
    have "stage_ok chain ?k (after_last env (case err of Some e \<Rightarrow> Inl e | None \<Rightarrow> Inr (getLastProcessedBlockId (hs_table h))))"
      using last_id_prefix [OF assms(1) inv(2)] inv(1) by (auto simp: after_last_def split: option.split sum.split)
    then show ?thesis using LastRead move [of i AwaitLast] assms(2) by (simp add: ended_def)
  next
    case (TotalRead i r)
    have "stage_ok chain ?k (after_total env l r)" if "call_of i h = Some (AwaitTotal l)" for l
      using ok [OF that] assms(3) TotalRead by (cases r) (auto simp: after_total_def intro: next_batch_ok)
    then show ?thesis using TotalRead move assms(2) by (auto simp: ended_def split: option.split sync_stage.split)
  next
    case (BlocksRead i r)
    have "stage_ok chain ?k (after_blocks b t r)" if "call_of i h = Some (AwaitBlocks a b t)" for a b t
      using ok [OF that] assms(3) BlocksRead that by (cases r) (auto simp: after_blocks_def)
    then show ?thesis using BlocksRead move assms(2) by (auto simp: ended_def split: option.split sync_stage.split)
  next
    case (RowWritten i)
    then show ?thesis using insert_row_inv [OF assms(1,2)] assms(2) by (auto split: option.split sync_stage.split list.split)
  next
    case (StoreDone i err)
    have "stage_ok chain ?k (case err of Some e \<Rightarrow> SyncFailed e | None \<Rightarrow> Sleeping n t)" if "call_of i h = Some (Storing [] n t)" for n t
    proof -
      have "slice chain ?k (nat (n - 1)) = []" "int ?k \<le> n - 1" "n - 1 \<le> t" "t \<le> int (length chain)" using ok [OF that] by simp_all
      then show ?thesis by (auto simp: slice_def split: option.split)
    qed
    then show ?thesis using StoreDone move assms(2) by (auto simp: ended_def split: option.split sync_stage.split list.split)
  next
    case (Wake i)
    have "stage_ok chain ?k (next_batch env n t)" if "call_of i h = Some (Sleeping n t)" for n t
      using ok [OF that] by (auto intro: next_batch_ok)
    then show ?thesis using Wake move assms(2) by (auto simp: ended_def split: option.split sync_stage.split)
  qed (use assms in \<open>auto simp: history_inv_def start_sync_def process_ends_def butlast_append split: service.splits option.split\<close>)
qed

lemma history_reach_inv: "history_reach env chain h \<Longrightarrow> chain_ok chain \<Longrightarrow> history_inv chain h"
proof (induction rule: history_reach.induct)
  case start
  show ?case by (simp add: history_inv_def new_History_def)
qed (rule history_inv_step)

text \<open>
  C5. With an honest explorer and one call at a time the table is, at every moment and across restarts
  at any point, the rows of a beginning of the chain: no block is missing, doubled or changed. A
  call that completed has stored all blocks that it was told about.
\<close>

theorem history_is_prefix:
  assumes "history_reach env chain h" "chain_ok chain"
  shows "hs_table h = map row_of (take (length (hs_table h)) chain) \<and> length (hs_table h) \<le> length chain
    \<and> (\<forall>t. Completed t \<in> set (hs_calls h) \<longrightarrow> t \<le> int (length (hs_table h)))"
  using history_reach_inv [OF assms] unfolding history_inv_def list_all_iff by auto

text \<open>A witness: one block is copied, and the process ends before the next one is.\<close>

definition sample_block :: "int \<Rightarrow> Block" where
  "sample_block i = \<lparr>bk_id = Some i, bk_createdAt = Some ''01 Jan 2024 00:00:05 GMT'', bk_transactions = Some 3\<rparr>"

definition sample_environment :: environment where
  "sample_environment = [(''EXPLORER_BASE_URL'', ''http://explorer'')]"

definition sample_events :: "sync_event list" where
  "sample_events = [Init True, InitDone None, LastRead 0 None, TotalRead 0 (Inr (Some [Some 2])),
     BlocksRead 0 (Inr (Some [sample_block 1, sample_block 2])), RowWritten 0, ProcessEnds]"

fun admissible_run :: "environment \<Rightarrow> Block list \<Rightarrow> sync_event list \<Rightarrow> History \<Rightarrow> bool" where
  "admissible_run env chain [] h \<longleftrightarrow> True"
| "admissible_run env chain (e # es) h \<longleftrightarrow> admissible chain h e \<and> admissible_run env chain es (sync_step env e h)"

lemma admissible_reach:
  "admissible_run env chain es h \<Longrightarrow> history_reach env chain h \<Longrightarrow> history_reach env chain (sync_run env es h)"
  by (induction es arbitrary: h) (auto simp: sync_run_def intro: history_reach.step)

lemma sample_chain: "chain_ok [sample_block 1, sample_block 2]"
  by (auto simp: chain_ok_def sample_block_def less_Suc_eq)

lemma sample_admissible: "admissible_run sample_environment [sample_block 1, sample_block 2] sample_events new_History"
  by code_simp

lemma sample_table: "hs_table (sync_run sample_environment sample_events new_History) = [row_of (sample_block 1)]"
  by code_simp

lemma sample_reach: "history_reach sample_environment [sample_block 1, sample_block 2] (sync_run sample_environment sample_events new_History)"
  by (rule admissible_reach [OF sample_admissible history_reach.start])

theorem history_is_prefix_witness:
  "history_reach sample_environment [sample_block 1, sample_block 2] (sync_run sample_environment sample_events new_History)
   \<and> hs_table (sync_run sample_environment sample_events new_History) = map row_of (take 1 [sample_block 1, sample_block 2])"
  using history_is_prefix [OF sample_reach sample_chain] sample_reach by (simp add: sample_table)


section \<open>From the chain to the graph\<close>

text \<open>A block whose time is a text of the explorer's format, of a date outside of the years 0 to 99.\<close>

definition dated :: "Block \<Rightarrow> bool" where
  "dated b \<longleftrightarrow> (\<exists>c t. bk_createdAt b = Some (parseCreateTime c) \<and> time_clip \<lfloor>c / 1000\<rfloor> = Some t
     \<and> \<not> (0 \<le> fst (civil (t div 86400000)) \<and> fst (civil (t div 86400000)) \<le> 99))"

definition block_point :: "Block \<Rightarrow> string \<times> rat" where
  "block_point b = (or_default (bk_createdAt b) [], of_nat (or_default (bk_transactions b) 0))"

lemma dated_point:
  assumes "dated b"
  shows "\<exists>p. row_point (row_of b) = Inr p \<and> tp_epoch p \<noteq> None \<and> (tp_createdAt (decoded p), tp_volume (decoded p)) = block_point b"
proof -
  obtain c t where c: "bk_createdAt b = Some (parseCreateTime c)" "time_clip \<lfloor>c / 1000\<rfloor> = Some t"
    "\<not> (0 \<le> fst (civil (t div 86400000)) \<and> fst (civil (t div 86400000)) \<le> 99)" using assms by (auto simp: dated_def)
  have "parseTimeToUnixEpoch (parseCreateTime c) = Inr (Some (t div 1000 * 1000000))" by (rule create_time_read_back [OF c(2,3)])
  then show ?thesis using c(1) create_time_cut [OF c(2)]
    by (simp add: row_point_def row_of_def or_default_def decoded_def decoded_point_def create_time_def block_point_def)
qed

lemma dated_points:
  assumes "list_all dated bs"
  shows "\<exists>ps. row_points (map row_of bs) = Inr ps \<and> list_all (\<lambda>p. tp_epoch p \<noteq> None) ps
    \<and> map (\<lambda>p. (tp_createdAt (decoded p), tp_volume (decoded p))) ps = map block_point bs"
  using assms
proof (induction bs)
  case (Cons b bs)
  from Cons.prems obtain ps where ps: "row_points (map row_of bs) = Inr ps" "list_all (\<lambda>p. tp_epoch p \<noteq> None) ps"
    "map (\<lambda>p. (tp_createdAt (decoded p), tp_volume (decoded p))) ps = map block_point bs" using Cons.IH by auto
  from Cons.prems have "dated b" by simp
  from dated_point [OF this] obtain p where p: "row_point (row_of b) = Inr p" "tp_epoch p \<noteq> None"
    "(tp_createdAt (decoded p), tp_volume (decoded p)) = block_point b" by blast
  show ?case by (rule exI [of _ "p # ps"]) (use ps p in simp)
qed simp

lemma prefix_sorted:
  assumes "chain_ok chain" "k \<le> length chain"
  shows "sort_key tr_block_id (map row_of (take k chain)) = map row_of (take k chain)"
proof (rule sort_key_sorted_id)
  have "map tr_block_id (map row_of (take k chain)) = map (\<lambda>i. int i + 1) [0..<k]"
    using assms chain_row by (intro nth_equalityI) auto
  then show "sorted (map tr_block_id (map row_of (take k chain)))" by (simp add: sorted_iff_nth_mono)
qed

text \<open>
  C16. From the explorer to the graph: after an admissible run that stored something, the answer for the
  graph decodes to the times and the numbers of transactions of a beginning of the chain, in order.
\<close>

theorem graph_shows_chain:
  assumes "history_reach env chain h" "chain_ok chain" "hs_table h \<noteq> []" "list_all dated chain"
  shows "\<exists>d. getAllEncodedBlocks (Inr (hs_table h)) = Send d
    \<and> map (\<lambda>p. (tp_createdAt p, tp_volume p)) (decodeDeltaEncoding d) = map block_point (take (length (hs_table h)) chain)"
proof -
  let ?k = "length (hs_table h)"
  have tab: "hs_table h = map row_of (take ?k chain)" and k: "?k \<le> length chain"
    using history_reach_inv [OF assms(1,2)] by (simp_all add: history_inv_def)
  have "list_all dated (take ?k chain)" using assms(4) set_take_subset [of ?k chain] by (auto simp: list_all_iff)
  from dated_points [OF this] obtain ps where ps: "row_points (hs_table h) = Inr ps" "list_all (\<lambda>p. tp_epoch p \<noteq> None) ps"
    "map (\<lambda>p. (tp_createdAt (decoded p), tp_volume (decoded p))) ps = map block_point (take ?k chain)" using tab by auto
  have ne: "ps \<noteq> []" using ps(3) assms(3) k by (auto dest: arg_cong [of _ _ length])
  have "getDataFromCache None None (hs_table h) = hs_table h"
    using prefix_sorted [OF assms(2) k] tab by (simp add: getDataFromCache_def)
  then have "getAllEncodedBlocks (Inr (hs_table h)) = Send (applyDeltaEncoding ps)"
    using assms(3) ps(1) by (cases "hs_table h") (auto simp: getAllEncodedBlocks_def)
  moreover have "decodeDeltaEncoding (applyDeltaEncoding ps) = map decoded ps"
    using decode_encode [OF ne] until_nan_valid [OF ps(2)] by simp
  ultimately show ?thesis using ps(3) by (simp add: comp_def)
qed

lemma sample_dated: "dated (sample_block i)"
  unfolding dated_def
proof (intro exI conjI)
  show "bk_createdAt (sample_block i) = Some (parseCreateTime 1704067205000000)" by (simp add: sample_block_def) code_simp
  show "time_clip \<lfloor>1704067205000000 / 1000 :: rat\<rfloor> = Some 1704067205000" by code_simp
  show "\<not> (0 \<le> fst (civil (1704067205000 div 86400000)) \<and> fst (civil (1704067205000 div 86400000)) \<le> 99)" by code_simp
qed

theorem graph_shows_chain_witness:
  "\<exists>d. getAllEncodedBlocks (Inr [row_of (sample_block 1)]) = Send d
    \<and> map (\<lambda>p. (tp_createdAt p, tp_volume p)) (decodeDeltaEncoding d) = [(''01 Jan 2024 00:00:05 GMT'', 3)]"
proof -
  have "block_point (sample_block 1) = (''01 Jan 2024 00:00:05 GMT'', 3)" by (simp add: block_point_def sample_block_def or_default_def)
  then show ?thesis using graph_shows_chain [OF sample_reach sample_chain] by (simp add: sample_table sample_dated)
qed


section \<open>Overlapping synchronisations\<close>

lemma rows_written:
  assumes "hs_calls h ! i = Storing (bs @ cs) n t" "i < length (hs_calls h)" "list_all (\<lambda>b. block_row b = Some (row_of b)) bs"
    "hs_service h = Scheduled"
  shows "sync_run env (replicate (length bs) (RowWritten i)) h
    = h\<lparr>hs_table := hs_table h @ map row_of bs, hs_calls := (hs_calls h)[i := Storing cs n t]\<rparr>"
  using assms
proof (induction bs arbitrary: h)
  case Nil
  then have "(hs_calls h)[i := Storing cs n t] = hs_calls h" using list_update_id [of "hs_calls h" i] by simp
  then show ?case by (simp add: sync_run_def)
next
  case (Cons b bs)
  let ?h = "h\<lparr>hs_table := hs_table h @ [row_of b], hs_calls := (hs_calls h)[i := Storing (bs @ cs) n t]\<rparr>"
  have "sync_step env (RowWritten i) h = ?h"
    using Cons.prems by (simp add: call_of_def element_def insert_row_def set_call_def)
  moreover have "sync_run env (replicate (length bs) (RowWritten i)) ?h
      = ?h\<lparr>hs_table := hs_table ?h @ map row_of bs, hs_calls := (hs_calls ?h)[i := Storing cs n t]\<rparr>"
    using Cons.prems by (intro Cons.IH) simp_all
  ultimately show ?case by (simp add: sync_run_def)
qed

lemma sync_run_append: "sync_run env (as @ bs) h = sync_run env bs (sync_run env as h)"
  by (simp add: sync_run_def)

definition overlapping_start :: "Block list \<Rightarrow> sync_event list" where
  "overlapping_start chain =
     [Init True, InitDone None, LastRead 0 None, TotalRead 0 (Inr (Some [Some 0])), CronTick, LastRead 1 None,
      CronTick, LastRead 2 None, TotalRead 1 (Inr (Some [Some (int (length chain))])), TotalRead 2 (Inr (Some [Some (int (length chain))])),
      BlocksRead 1 (Inr (Some chain)), BlocksRead 2 (Inr (Some chain))]"

definition overlapping_events :: "Block list \<Rightarrow> sync_event list" where
  "overlapping_events chain =
     overlapping_start chain @ replicate (length chain) (RowWritten 1) @ replicate (length chain) (RowWritten 2)"

text \<open>
  C39. Nothing keeps the scheduled job from starting while the previous call is still running. Two
  overlapping calls both read the same last block and store the same blocks: every block of the
  first batch is in the table twice, and the graph shows it twice.
\<close>

theorem overlapping_syncs_duplicate:
  assumes "chain_ok chain" "chain \<noteq> []" "length chain \<le> 1000" "getEnv env ''EXPLORER_BASE_URL'' None = Inr base"
  shows "hs_table (sync_run env (overlapping_events chain) new_History) = map row_of chain @ map row_of chain"
proof -
  have rows: "list_all (\<lambda>b. block_row b = Some (row_of b)) chain"
    using chain_row [OF assms(1)] by (simp add: list_all_length)
  define h where "h = \<lparr>hs_table = [], hs_calls = [UpToDate, Storing chain (int (length chain) + 1) (int (length chain)),
      Storing chain (int (length chain) + 1) (int (length chain))], hs_service = Scheduled\<rparr>"
  have start: "sync_run env (overlapping_start chain) new_History = h"
    using assms(2,3,4)
    by (simp add: overlapping_start_def sync_run_def new_History_def start_sync_def call_of_def element_def set_call_def
        after_last_def after_total_def after_blocks_def next_batch_def explorer_url_def getLastProcessedBlockId_def
        getTotalBlocks_def ended_def BATCH_SIZE_def Let_def h_def Suc_le_eq)
  have "sync_run env (replicate (length chain) (RowWritten 2)) (sync_run env (replicate (length chain) (RowWritten 1)) h)
      = h\<lparr>hs_table := map row_of chain @ map row_of chain, hs_calls := [UpToDate, Storing [] (int (length chain) + 1) (int (length chain)),
          Storing [] (int (length chain) + 1) (int (length chain))]\<rparr>"
    using rows_written [of h 1 chain "[]"] rows_written [of "h\<lparr>hs_table := map row_of chain, hs_calls := [UpToDate,
        Storing [] (int (length chain) + 1) (int (length chain)), Storing chain (int (length chain) + 1) (int (length chain))]\<rparr>" 2 chain "[]"] rows
    by (simp add: h_def)
  then show ?thesis by (simp add: overlapping_events_def sync_run_append start)
qed

theorem overlapping_syncs_duplicate_witness:
  "map tr_block_id (hs_table (sync_run sample_environment (overlapping_events [sample_block 1, sample_block 2]) new_History)) = [1, 2, 1, 2]"
proof -
  have "getEnv sample_environment ''EXPLORER_BASE_URL'' None = Inr ''http://explorer''" by code_simp
  from overlapping_syncs_duplicate [OF sample_chain _ _ this]
  show ?thesis by (simp add: row_of_def sample_block_def or_default_def)
qed

end
