(* ===== verification/Spec2Isabelle.thy ===== *)
theory Spec2Isabelle
  imports Query_Analyzer Simple_Cache ResLens_Client Efficiency_Estimator Live_Stats Retrieval_Service Ingestion_Pipeline
    Context_Formatter Prompts Llm_Client Explanation_Service Explanation_Execution Optimization_Service
    Json_Parse Node_Cache Kv_Wrapper Data_Pipeline Nexus_Integration Api_Server Mcp_Server Wallet_Content
    Lens_History
begin

text \<open>
  A verification development for the JavaScript and TypeScript services of the ResilientDB
  ecosystem: the query assistant \<open>graphq-llm\<close>, the block copier \<open>resilient-node-cache\<close>, the browser
  wallet ResVault with its SDK, and the transaction history of the ResLens middleware. Paths below
  are relative to \<open>src/ecosystem\<close>; those of \<open>graphq-llm/src\<close> are given without that prefix.

  \<^bold>\<open>The parts and how they interact.\<close> A client asks the assistant through two servers: the REST
  server of \<open>api/http-server.ts\<close> and the MCP server of \<open>mcp/server.ts\<close>. Both call the services: the
  explanation service, which answers from a cache or retrieves documentation, builds a prompt and
  asks a language model; the optimisation service, which merges the analysis of the query with the
  suggestions of the model; the efficiency estimator; the live statistics. The documentation is
  loaded, cut into chunks, embedded and stored in ResilientDB by the ingestion pipeline and searched
  by the retrieval service. Metrics of executed queries go to the ResLens client through the data
  pipeline, which executes queries with the GraphQL client. The node cache copies the blocks of a
  node into a MongoDB collection. In the wallet a page talks to the content script, by the SDK or
  directly; the content script shows a dialog and asks the background script, which keeps the keys
  and sends transactions to the network.

  \<^bold>\<open>Shared vocabulary.\<close>
  \<^item> \<open>JS_Prelude\<close>: strings, arrays, numbers and \<open>Map\<close>s of JavaScript as the sources use them, and the
    lemmas about splitting, trimming, searching and stable sorting that the components share.
  \<^item> \<open>Json_Text\<close>, \<open>Json_Parse\<close>, \<open>Json_Pretty\<close>: \<open>JSON.stringify\<close> without and with indentation and
    \<open>JSON.parse\<close> of the standard library, with the round trips as lemmas for the components. The parser takes fuel; twice the length of the text and one
    more is shown to be enough, in the sense that a larger amount never changes the result.
  \<^item> \<open>Http_Common\<close>: requests and responses of the servers. \<open>Key_Value\<close>: the locales \<open>key_value\<close> and
    \<open>erasable_store\<close>, interpreted on the store of the key-value wrapper and on the key table of the wallet.

  \<^bold>\<open>The query assistant\<close> (one theory per source file).
  \<^item> \<open>Query_Analyzer\<close> (\<open>services/query-analyzer.ts\<close>), \<open>Efficiency_Estimator\<close>
    (\<open>services/efficiency-estimator.ts\<close>): the regular expressions are scanners; fields of a rendered
    query, ranges of depth, similarity, score and time.
  \<^item> \<open>Simple_Cache\<close> (\<open>utils/cache.ts\<close>): refinement of a map with expiry times; keys are injective.
  \<^item> \<open>ResLens_Client\<close> (\<open>reslens/client.ts\<close>), \<open>Live_Stats\<close> (\<open>services/live-stats-service.ts\<close>): stored
    metrics; the interval timers of overlapping and non-overlapping starts.
  \<^item> \<open>Document_Loader\<close>, \<open>Chunking\<close>, \<open>Embedding_Service\<close>, \<open>Vector_Store\<close>, \<open>Ingestion_Pipeline\<close>,
    \<open>Retrieval_Service\<close>, \<open>Context_Formatter\<close> (\<open>rag/\<close>): exactness of a directory load; chunks cover the
    document; batching is invisible; search and retrieval return the best candidates by the
    similarity that is computed, whose floating-point operations round by a function that is a
    parameter; every chunk of an ingestion is accounted for when the progress callback does not
    throw, and is counted twice when it does. The chunk loop has the ten thousand iterations of the source, and
    coverage is stated for the texts that so many iterations reach.
  \<^item> \<open>Prompts\<close>, \<open>Llm_Client\<close>, \<open>Explanation_Service\<close>, \<open>Explanation_Execution\<close>, \<open>Optimization_Service\<close>
    (\<open>llm/\<close>, \<open>config/llm.ts\<close>): interleaved calls share executions by query and options and get their
    own results; failures of the model, which the \<open>catch\<close> block of the client never sees, so that
    nothing is retried; deduplication of suggestions.
  \<^item> \<open>ResilientDB_Client\<close>, \<open>Kv_Wrapper\<close> (\<open>resilientdb/\<close>), \<open>Data_Pipeline\<close>
    (\<open>pipeline/data-pipeline.ts\<close>), \<open>Nexus_Integration\<close> (\<open>nexus/integration.ts\<close>): the shape of a schema
    context for an answer of the declared type; the store behind HTTP, for any requests and keys as
    the paths give them; metrics recorded once per call under any interleaving of its awaits, that of
    the metrics included; what is read from free text.
  \<^item> \<open>Service_Json\<close>, \<open>Api_Server\<close>, \<open>Mcp_Server\<close>: the servers over the services; every request is answered,
    tool list and dispatch agree.

  \<^bold>\<open>The node cache\<close>, \<open>Node_Cache\<close> (\<open>cache/resilient-node-cache/src/index.ts\<close>): a machine whose events
  are the answers of the node, the operations of the database (the connection and the query that
  \<open>initialize\<close> awaits, the bulk writes), sockets and timers, in any order. With an honest node and
  without failures of the database the chain has been copied once all calls have ended; they end
  when the answers advance; what a failed batch loses is lost for ever; closing.

  \<^bold>\<open>The wallet\<close> (\<open>tools/resvault/public\<close>, \<open>sdk/resvault-sdk\<close>).
  \<^item> \<open>Wallet_Encoding\<close>, \<open>Wallet_Services\<close>, \<open>Wallet_Background\<close> (\<open>background.js\<close>): encodings, the texts of
    the mutations, and one definition per message handler, which gives the write to the storage, the
    requests and the response. Encryption is a parameter with the law that decryption with the same
    key and nonce inverts it.
  \<^item> \<open>Wallet_Keys\<close>: the handlers refine two maps when each message is handled before the next; overlapping
    messages lose keys. \<open>Wallet_Network\<close>: to which address each action sends, and what a page can inject.
  \<^item> \<open>Wallet_Content\<close> (\<open>content.js\<close>, \<open>resvault-sdk.ts\<close>): one submission per click, for the amount the dialog of a
    commit shows; the
    way of a commit from the SDK to the network; the private key that a page can ask for.

  \<^bold>\<open>The ResLens middleware\<close> (\<open>monitoring/reslens-middleware/middleware\<close>).
  \<^item> \<open>JS_Date\<close>: numbers in texts and the calendar of the \<open>Date\<close> class. \<open>Lens_Time\<close> (\<open>utils/time.js\<close>,
    \<open>utils/encoding.js\<close>): dates as texts and the delta encoding, with their round trips.
  \<^item> \<open>Lens_History\<close> (\<open>cron/syncTransactionHistory.js\<close>, \<open>controllers/explorer.js\<close>, \<open>utils/envParser.js\<close>): the
    copy of the blocks in a table is a beginning of the chain under any interleaving of answers and
    restarts when calls do not overlap, and has duplicates when they do; the graph shows the chain.

  \<^bold>\<open>Conventions.\<close> A class is a record and a method a function on it. Asynchronous code is a machine
  split at its \<open>await\<close>s: a run is a list of events, and theorems about runs hold for every order of
  events. Code outside the repository (SDKs, \<open>fetch\<close>, Web Crypto, databases, clocks, random numbers) is
  an argument. Strings are Latin-1, numbers are exact (\<open>NaN\<close> is \<open>None\<close>) except in the similarity of vectors, and objects are association
  lists in the order of insertion; where a source reads a member that \<open>Object.prototype\<close> has, this is
  written out only in \<open>Kv_Wrapper\<close>, and elsewhere such names are taken to be absent.

  \<^bold>\<open>Not modelled.\<close> The pages written in React (ResVault pages, ResLens dashboard, Beacon, Orbit,
  Nexus): rendering, which has no operations apart from those of the browser and of the packages they
  call. The command lines of the smart-contract tools and the key-value scripts: they start external
  programs and print. The controllers of the ResLens middleware that only forward requests and
  reshape the answers. The start-up of the servers (listening, signals, logging). The C++ database.
\<close>

end
